(* ===== verification/Prelude.thy ===== *)
theory Prelude
  imports Main "HOL-Library.Word"
begin

text \<open>
  Shared vocabulary of the development: the machine types of the console code base
  (\<^verbatim>\<open>wchar_t\<close>, \<^verbatim>\<open>size_t\<close>, \<^verbatim>\<open>SHORT\<close>), the error values of the
  modelled operations, and the generic lemmas on lists and words that the component theories use.
\<close>

section \<open>Machine types\<close>

type_synonym wchar = "16 word"
type_synonym wstring = "16 word list"
type_synonym size_t = "64 word"

text \<open>
  \<^verbatim>\<open>SHORT\<close> is a signed 16 bit integer. C++ promotes both operands of an addition to
  \<^verbatim>\<open>int\<close> and truncates when the result is stored back; the model keeps the value as an
  \<open>int\<close> and writes the truncation out wherever the source stores into a \<^verbatim>\<open>SHORT\<close>.
\<close>

definition to_short :: "int \<Rightarrow> int" where
  "to_short x = (x + 32768) mod 65536 - 32768"

definition is_short :: "int \<Rightarrow> bool" where
  "is_short x \<longleftrightarrow> -32768 \<le> x \<and> x \<le> 32767"

lemma to_short_id [simp]: "is_short x \<Longrightarrow> to_short x = x"
  by (simp add: is_short_def to_short_def)

lemma is_short_to_short [simp]: "is_short (to_short x)"
  using pos_mod_bound [of 65536 "x + 32768"] pos_mod_sign [of 65536 "x + 32768"]
  unfolding is_short_def to_short_def by linarith

lemma is_short_bounds: "is_short x \<Longrightarrow> -32768 \<le> x" "is_short x \<Longrightarrow> x \<le> 32767"
  by (simp_all add: is_short_def)

section \<open>Lemma collections\<close>

named_theorems short_simps \<open>arithmetic of values that fit a SHORT\<close>

declare to_short_id [short_simps]

section \<open>Lists\<close>

lemma take_Suc_nth_update:
  "n < length xs \<Longrightarrow> take (Suc n) (xs[n := x]) = take n xs @ [x]"
  by (simp add: take_Suc_conv_app_nth)

lemma drop_nth_update:
  "n < length xs \<Longrightarrow> drop n (xs[n := x]) = x # drop (Suc n) xs"
  by (simp add: Cons_nth_drop_Suc [symmetric])

section \<open>Words\<close>

lemma unat_add_no_overflow:
  fixes a b :: "'w::len word"
  assumes "unat a + unat b < 2 ^ LENGTH('w)"
  shows "unat (a + b) = unat a + unat b"
  using assms by (simp add: unat_word_ariths)

lemma unat_sub_no_underflow:
  fixes a b :: "'w::len word"
  assumes "unat b \<le> unat a"
  shows "unat (a - b) = unat a - unat b"
  using assms by (simp add: unat_sub word_le_nat_alt)

text \<open>Concrete vectors: a repetition with a literal count evaluates by \<open>simp\<close>.\<close>

lemma replicate_numeral: "replicate (numeral k) x = x # replicate (pred_numeral k) x"
  by (simp add: numeral_eq_Suc)

end
