(* ===== verification/Rle.thy ===== *)
theory Rle
  imports Prelude
begin

text \<open>
  The run length encoded vector \<^verbatim>\<open>til::basic_rle\<close> of \<^verbatim>\<open>src/inc/til/rle.h\<close>: its runs, its
  scanner, its iterator and every operation that reads or edits it. The run length type
  \<^verbatim>\<open>S\<close> of the template is the word length \<open>'w\<close>: lengths wrap around as the unsigned C++
  type does. An iterator into \<^verbatim>\<open>_runs\<close> is an index. The proofs that the edits are correct
  with respect to the plain list the runs stand for are in \<open>Rle_Correct\<close> and \<open>Rle_Replace\<close>.
\<close>

section \<open>Data\<close>

record (overloaded) ('a, 'w) rle_pair =
  run_value :: 'a
  run_length :: "'w word"

record (overloaded) ('a, 'w) basic_rle =
  rle_runs :: "('a, 'w) rle_pair list"
  rle_total_length :: "'w word"

text \<open>
  \<open>Out_of_range\<close> is the \<^verbatim>\<open>std::out_of_range\<close> the class throws, \<open>Contract_violation\<close> a failed
  \<^verbatim>\<open>Expects\<close>.
\<close>

datatype rle_error = Out_of_range | Contract_violation

section \<open>Construction and size\<close>

definition rle_of_runs :: "('a, 'w::len) rle_pair list \<Rightarrow> ('a, 'w) basic_rle" where
  "rle_of_runs rs = \<lparr>rle_runs = rs, rle_total_length = fold (\<lambda>r t. t + run_length r) rs 0\<rparr>"

definition rle_fill :: "'w::len word \<Rightarrow> 'a \<Rightarrow> ('a, 'w) basic_rle" where
  "rle_fill len v =
     \<lparr>rle_runs = (if len \<noteq> 0 then [\<lparr>run_value = v, run_length = len\<rparr>] else []),
      rle_total_length = len\<rparr>"

definition rle_swap ::
  "('a, 'w::len) basic_rle \<times> ('a, 'w) basic_rle \<Rightarrow> ('a, 'w) basic_rle \<times> ('a, 'w) basic_rle" where
  "rle_swap p =
     (let a = fst p; b = snd p in
      (a\<lparr>rle_runs := rle_runs b, rle_total_length := rle_total_length b\<rparr>,
       b\<lparr>rle_runs := rle_runs a, rle_total_length := rle_total_length a\<rparr>))"

definition rle_empty :: "('a, 'w::len) basic_rle \<Rightarrow> bool" where
  "rle_empty r \<longleftrightarrow> rle_total_length r = 0"

definition rle_size :: "('a, 'w::len) basic_rle \<Rightarrow> 'w word" where
  "rle_size r = rle_total_length r"

section \<open>The scanner\<close>

text \<open>
  \<^verbatim>\<open>rle_scanner\<close> keeps its position \<^verbatim>\<open>it\<close> and the accumulated \<^verbatim>\<open>total\<close> between two calls, so
  that a second, larger index continues where the first stopped. The loop walks the runs that are
  left; it returns the iterator, the position in the run, and the new total.
\<close>

record (overloaded) 'w scanner =
  scanner_it :: nat
  scanner_total :: "'w word"

fun scan_loop ::
  "('a, 'w::len) rle_pair list \<Rightarrow> 'w word \<Rightarrow> nat \<Rightarrow> 'w word \<Rightarrow> nat \<times> 'w word \<times> 'w word" where
  "scan_loop [] index it tot = (it, 0, tot)"
| "scan_loop (r # rs) index it tot =
     (let new_total = tot + run_length r in
      if new_total > index then (it, index - tot, tot)
      else scan_loop rs index (Suc it) new_total)"

definition rle_scanner :: "'w::len scanner" where
  "rle_scanner = \<lparr>scanner_it = 0, scanner_total = 0\<rparr>"

definition scan ::
  "('a, 'w::len) rle_pair list \<Rightarrow> 'w word \<Rightarrow> 'w scanner \<Rightarrow> (nat \<times> 'w word) \<times> 'w scanner" where
  "scan runs index sc =
     (case scan_loop (drop (scanner_it sc) runs) index (scanner_it sc) (scanner_total sc) of
        (it, run_pos, tot) \<Rightarrow> ((it, run_pos), \<lparr>scanner_it = it, scanner_total = tot\<rparr>))"

section \<open>Reading\<close>

definition rle_at :: "('a, 'w::len) basic_rle \<Rightarrow> 'w word \<Rightarrow> rle_error + 'a" where
  "rle_at r position =
     (case scan (rle_runs r) position rle_scanner of
        ((it, _), _) \<Rightarrow>
          if it = length (rle_runs r) then Inl Out_of_range
          else Inr (run_value (rle_runs r ! it)))"

definition set_length :: "nat \<Rightarrow> 'w::len word \<Rightarrow> ('a, 'w) rle_pair list \<Rightarrow> ('a, 'w) rle_pair list" where
  "set_length i n rs = rs[i := (rs ! i)\<lparr>run_length := n\<rparr>]"

definition rle_slice ::
  "('a, 'w::len) basic_rle \<Rightarrow> 'w word \<Rightarrow> 'w word \<Rightarrow> ('a, 'w) basic_rle" where
  "rle_slice r start_index end_index0 =
     (let end_index = (if end_index0 > rle_total_length r then rle_total_length r else end_index0) in
      if start_index \<ge> end_index then \<lparr>rle_runs = [], rle_total_length = 0\<rparr>
      else
        case scan (rle_runs r) start_index rle_scanner of
          ((begin_run, start_run_pos), sc) \<Rightarrow>
        (case scan (rle_runs r) (end_index - 1) sc of
          ((end_run, end_run_pos), _) \<Rightarrow>
            (let slice = take (Suc end_run - begin_run) (drop begin_run (rle_runs r));
                 slice = set_length (length slice - 1) (end_run_pos + 1) slice;
                 slice = set_length 0 (run_length (slice ! 0) - start_run_pos) slice
             in \<lparr>rle_runs = slice, rle_total_length = end_index - start_index\<rparr>)))"

section \<open>Compaction and value replacement\<close>

text \<open>
  \<^verbatim>\<open>_compact\<close> joins adjacent runs of the same value in place: \<open>compact_for\<close> is the outer
  \<^verbatim>\<open>for\<close> that looks for the first pair to join, \<open>compact_while\<close> the inner loop that moves the
  remaining runs down behind \<^verbatim>\<open>ref\<close>. The final \<^verbatim>\<open>erase(++ref, end)\<close> is the \<open>take\<close>.
\<close>

function compact_while ::
  "('a, 'w::len) rle_pair list \<Rightarrow> nat \<Rightarrow> nat \<Rightarrow> ('a, 'w) rle_pair list \<times> nat" where
  "compact_while rs ref it =
     (if Suc it < length rs then
        (if run_value (rs ! ref) = run_value (rs ! Suc it)
         then compact_while
                (set_length ref (run_length (rs ! ref) + run_length (rs ! Suc it)) rs) ref (Suc it)
         else compact_while (rs[Suc ref := rs ! Suc it]) (Suc ref) (Suc it))
      else (rs, ref))"
  by pat_completeness auto
termination
  by (relation "measure (\<lambda>(rs, ref, it). length rs - it)") (auto simp: set_length_def)

function compact_for ::
  "('a, 'w::len) rle_pair list \<Rightarrow> nat \<Rightarrow> ('a, 'w) rle_pair list" where
  "compact_for rs it =
     (if Suc it < length rs then
        (if run_value (rs ! it) = run_value (rs ! Suc it)
         then (case compact_while
                 (set_length it (run_length (rs ! it) + run_length (rs ! Suc it)) rs) it (Suc it) of
                 (rs', ref) \<Rightarrow> take (Suc ref) rs')
         else compact_for rs (Suc it))
      else rs)"
  by pat_completeness auto
termination
  by (relation "measure (\<lambda>(rs, it). length rs - it)") auto

declare compact_while.simps [simp del] compact_for.simps [simp del]

definition rle_compact :: "('a, 'w::len) basic_rle \<Rightarrow> ('a, 'w) basic_rle" where
  "rle_compact r =
     (if rle_runs r = [] then r else r\<lparr>rle_runs := compact_for (rle_runs r) 0\<rparr>)"

definition rle_replace_values ::
  "('a, 'w::len) basic_rle \<Rightarrow> 'a \<Rightarrow> 'a \<Rightarrow> ('a, 'w) basic_rle" where
  "rle_replace_values r old_value new_value =
     rle_compact
       (r\<lparr>rle_runs :=
          map (\<lambda>run. if run_value run = old_value then run\<lparr>run_value := new_value\<rparr> else run)
            (rle_runs r)\<rparr>)"

section \<open>Resizing\<close>

definition rle_resize_trailing_extent ::
  "('a, 'w::len) basic_rle \<Rightarrow> 'w word \<Rightarrow> rle_error + ('a, 'w) basic_rle" where
  "rle_resize_trailing_extent r new_size =
     (if new_size = 0 then Inr (r\<lparr>rle_runs := [], rle_total_length := new_size\<rparr>)
      else if new_size < rle_total_length r then
        (case scan (rle_runs r) (new_size - 1) rle_scanner of
           ((run, pos), _) \<Rightarrow>
             Inr (r\<lparr>rle_runs := take (Suc run) (set_length run (pos + 1) (rle_runs r)),
                     rle_total_length := new_size\<rparr>))
      else if new_size > rle_total_length r then
        (if rle_runs r = [] then Inl Contract_violation
         else
           (let back = length (rle_runs r) - 1 in
            Inr (r\<lparr>rle_runs :=
                     set_length back
                       (run_length (rle_runs r ! back) + (new_size - rle_total_length r)) (rle_runs r),
                   rle_total_length := new_size\<rparr>)))
      else Inr (r\<lparr>rle_total_length := new_size\<rparr>))"

section \<open>Replacing a range\<close>

definition check_indices ::
  "('a, 'w::len) basic_rle \<Rightarrow> 'w word \<Rightarrow> 'w word \<Rightarrow> rle_error + 'w word" where
  "check_indices r start_index end_index0 =
     (let end_index = (if end_index0 > rle_total_length r then rle_total_length r else end_index0) in
      if start_index > end_index then Inl Out_of_range else Inr end_index)"

text \<open>The branch of \<^verbatim>\<open>_replace_unchecked\<close> for pure removals, where \<^verbatim>\<open>replacements\<close> is empty.\<close>

definition remove_range ::
  "('a, 'w::len) basic_rle \<Rightarrow> 'w word \<Rightarrow> 'w word \<Rightarrow> nat \<Rightarrow> 'w word \<Rightarrow> nat \<Rightarrow> 'w word
     \<Rightarrow> ('a, 'w) basic_rle" where
  "remove_range r start_index end_index begin_it begin_pos end_it end_pos =
     (let runs = rle_runs r;
          removed = end_index - start_index;
          previous = (if begin_pos \<noteq> 0 then begin_it else begin_it - 1);
          joins = start_index \<noteq> 0 \<and> end_index \<noteq> rle_total_length r
                  \<and> run_value (runs ! previous) = run_value (runs ! end_it);
          runs = (if joins
                  then set_length end_it
                         (run_length (runs ! end_it)
                            - (end_pos - (if begin_pos \<noteq> 0 then begin_pos
                                          else run_length (runs ! previous)))) runs
                  else runs);
          begin_it = (if joins then previous else begin_it);
          begin_pos = (if joins then 0 else begin_pos);
          end_pos = (if joins then 0 else end_pos);
          runs = (if begin_pos \<noteq> 0 then set_length begin_it begin_pos runs else runs);
          begin_it = (if begin_pos \<noteq> 0 then Suc begin_it else begin_it);
          runs = (if end_pos \<noteq> 0
                  then set_length end_it (run_length (runs ! end_it) - end_pos) runs else runs)
      in r\<lparr>rle_runs := take begin_it runs @ drop end_it runs,
           rle_total_length := rle_total_length r - removed\<rparr>)"

text \<open>
  The steps of \<^verbatim>\<open>_replace_unchecked\<close> for a non-empty \<^verbatim>\<open>replacements\<close>, numbered as in the source.
  \<open>join_begin\<close> and \<open>join_end\<close> are [Step1], \<open>split_run\<close> is [Step2] together with [Step3],
  \<open>splice_runs\<close> is [Step4] to [Step6], \<open>add_lengths\<close> is [Step7]. \<open>dv\<close> stands for the value
  \<^verbatim>\<open>T{}\<close> of the default-initialised runs that \<^verbatim>\<open>_runs.insert(begin, n, {})\<close> makes room with.
\<close>

definition join_begin ::
  "('a, 'w::len) rle_pair list \<Rightarrow> 'w word \<Rightarrow> ('a, 'w) rle_pair list \<Rightarrow> nat \<Rightarrow> 'w word
     \<Rightarrow> nat \<times> 'w word \<times> 'w word" where
  "join_begin runs start_index replacements begin_it begin_pos =
     (if start_index \<noteq> 0 then
        (let previous = (if begin_pos \<noteq> 0 then begin_it else begin_it - 1) in
         if run_value (runs ! previous) = run_value (hd replacements)
         then (previous, 0, if begin_pos \<noteq> 0 then begin_pos else run_length (runs ! previous))
         else (begin_it, begin_pos, 0))
      else (begin_it, begin_pos, 0))"

definition join_end ::
  "('a, 'w::len) rle_pair list \<Rightarrow> 'w word \<Rightarrow> 'w word \<Rightarrow> ('a, 'w) rle_pair list \<Rightarrow> nat \<Rightarrow> 'w word
     \<Rightarrow> nat \<times> 'w word \<times> 'w word" where
  "join_end runs end_index tot replacements end_it end_pos =
     (if end_index \<noteq> tot \<and> run_value (runs ! end_it) = run_value (last replacements)
      then (Suc end_it, 0, run_length (runs ! end_it) - end_pos)
      else (end_it, end_pos, 0))"

definition split_run ::
  "('a, 'w::len) rle_pair list \<Rightarrow> nat \<Rightarrow> 'w word \<Rightarrow> nat \<Rightarrow> 'w word
     \<Rightarrow> ('a, 'w) rle_pair list \<times> nat \<times> ('a, 'w) rle_pair option" where
  "split_run runs begin_it begin_pos end_it end_pos =
     (let split = begin_it = end_it \<and> begin_pos \<noteq> 0;
          mid_insertion_trailer =
            (if split
             then Some \<lparr>run_value = run_value (runs ! begin_it),
                        run_length = run_length (runs ! begin_it) - end_pos\<rparr>
             else None);
          end_pos = (if split then 0 else end_pos);
          runs = (if begin_pos \<noteq> 0 then set_length begin_it begin_pos runs else runs);
          begin_it = (if begin_pos \<noteq> 0 then Suc begin_it else begin_it);
          runs = (if end_pos \<noteq> 0
                  then set_length end_it (run_length (runs ! end_it) - end_pos) runs else runs)
      in (runs, begin_it, mid_insertion_trailer))"

fun copy_runs :: "'r list \<Rightarrow> nat \<Rightarrow> 'r list \<Rightarrow> 'r list" where
  "copy_runs [] i rs = rs"
| "copy_runs (x # xs) i rs = copy_runs xs (Suc i) (rs[i := x])"

definition splice_runs ::
  "'a \<Rightarrow> ('a, 'w::len) rle_pair list \<Rightarrow> nat \<Rightarrow> nat \<Rightarrow> ('a, 'w) rle_pair list
     \<Rightarrow> ('a, 'w) rle_pair option \<Rightarrow> ('a, 'w) rle_pair list" where
  "splice_runs dv runs begin_it end_it replacements mid_insertion_trailer =
     (let available_space = (if begin_it < end_it then end_it - begin_it else 0);
          required_space = length replacements + (if mid_insertion_trailer \<noteq> None then 1 else 0);
          begin_index = begin_it;
          n_copied = min available_space (length replacements);
          direct_copy = take n_copied replacements;
          remaining = drop n_copied replacements;
          runs = copy_runs direct_copy begin_it runs;
          begin_it = begin_it + n_copied
      in if available_space \<ge> required_space
         then take begin_it runs @ drop end_it runs
         else case mid_insertion_trailer of
             Some trailer \<Rightarrow>
               (let room = replicate (required_space - available_space)
                             \<lparr>run_value = dv, run_length = 0\<rparr>;
                    runs = take begin_it runs @ room @ drop begin_it runs;
                    runs = copy_runs remaining begin_index runs
                in runs[begin_index + length remaining := trailer])
           | None \<Rightarrow> take begin_it runs @ remaining @ drop begin_it runs)"

definition add_lengths ::
  "('a, 'w::len) rle_pair list \<Rightarrow> nat \<Rightarrow> nat \<Rightarrow> 'w word \<Rightarrow> 'w word \<Rightarrow> ('a, 'w) rle_pair list" where
  "add_lengths runs begin_index required_space begin_additional end_additional =
     (let runs = (if begin_additional \<noteq> 0
                  then set_length begin_index
                         (run_length (runs ! begin_index) + begin_additional) runs
                  else runs);
          end_it = begin_index + required_space - 1
      in if end_additional \<noteq> 0
         then set_length end_it (run_length (runs ! end_it) + end_additional) runs
         else runs)"

definition replace_unchecked ::
  "'a \<Rightarrow> ('a, 'w::len) basic_rle \<Rightarrow> 'w word \<Rightarrow> 'w word \<Rightarrow> ('a, 'w) rle_pair list
     \<Rightarrow> ('a, 'w) basic_rle" where
  "replace_unchecked dv r start_index end_index replacements =
     (let runs = rle_runs r in
      case scan runs start_index rle_scanner of ((begin_it, begin_pos), sc) \<Rightarrow>
      (case scan runs end_index sc of ((end_it, end_pos), _) \<Rightarrow>
       if replacements = []
       then remove_range r start_index end_index begin_it begin_pos end_it end_pos
       else
         (case join_begin runs start_index replacements begin_it begin_pos of
            (begin_it, begin_pos, begin_additional) \<Rightarrow>
         (case join_end runs end_index (rle_total_length r) replacements end_it end_pos of
            (end_it, end_pos, end_additional) \<Rightarrow>
         (case split_run runs begin_it begin_pos end_it end_pos of
            (runs, begin_it, trailer) \<Rightarrow>
           (let required_space = length replacements + (if trailer \<noteq> None then 1 else 0);
                runs = splice_runs dv runs begin_it end_it replacements trailer;
                runs = add_lengths runs begin_it required_space begin_additional end_additional;
                tot = rle_total_length r - (end_index - start_index);
                tot = fold (\<lambda>run t. t + run_length run) replacements tot
            in \<lparr>rle_runs = runs, rle_total_length = tot\<rparr>))))))"

definition rle_replace_runs ::
  "'a \<Rightarrow> ('a, 'w::len) basic_rle \<Rightarrow> 'w word \<Rightarrow> 'w word \<Rightarrow> ('a, 'w) rle_pair list
     \<Rightarrow> rle_error + ('a, 'w) basic_rle" where
  "rle_replace_runs dv r start_index end_index replacements =
     (case check_indices r start_index end_index of
        Inl e \<Rightarrow> Inl e
      | Inr end_index \<Rightarrow> Inr (replace_unchecked dv r start_index end_index replacements))"

definition rle_replace_run ::
  "'a \<Rightarrow> ('a, 'w::len) basic_rle \<Rightarrow> 'w word \<Rightarrow> 'w word \<Rightarrow> ('a, 'w) rle_pair
     \<Rightarrow> rle_error + ('a, 'w) basic_rle" where
  "rle_replace_run dv r start_index end_index replacement =
     rle_replace_runs dv r start_index end_index [replacement]"

definition rle_replace ::
  "'a \<Rightarrow> ('a, 'w::len) basic_rle \<Rightarrow> 'w word \<Rightarrow> 'w word \<Rightarrow> 'a
     \<Rightarrow> rle_error + ('a, 'w) basic_rle" where
  "rle_replace dv r start_index end_index v =
     (case check_indices r start_index end_index of
        Inl e \<Rightarrow> Inl e
      | Inr end_index \<Rightarrow>
          Inr (replace_unchecked dv r start_index end_index
                 [\<lparr>run_value = v, run_length = end_index - start_index\<rparr>]))"

end
