(* ===== verification/Rle_Correct.thy ===== *)
theory Rle_Correct
  imports Rle
begin

text \<open>
  The plain vector a run length encoded one stands for, the class invariant, and the proofs that the
  reading operations, the compaction and the resizing of \<open>Rle\<close> agree with it.
\<close>

section \<open>Abstraction and invariant\<close>

definition expand :: "('a, 'w::len) rle_pair list \<Rightarrow> 'a list" where
  "expand rs = concat (map (\<lambda>r. replicate (unat (run_length r)) (run_value r)) rs)"

text \<open>\<open>rle_wf\<close>: the cached total is the number of encoded elements. \<open>rle_canonical\<close>: no run is empty and
  no two adjacent runs could be joined.\<close>

definition rle_wf :: "('a, 'w::len) basic_rle \<Rightarrow> bool" where
  "rle_wf r \<longleftrightarrow> length (expand (rle_runs r)) = unat (rle_total_length r)"

definition canonical_runs :: "('a, 'w::len) rle_pair list \<Rightarrow> bool" where
  "canonical_runs rs \<longleftrightarrow> list_all (\<lambda>r. run_length r \<noteq> 0) rs \<and> distinct_adj (map run_value rs)"

definition rle_inv :: "('a, 'w::len) basic_rle \<Rightarrow> bool" where
  "rle_inv r \<longleftrightarrow> rle_wf r \<and> canonical_runs (rle_runs r)"

definition rle_list :: "('a, 'w::len) basic_rle \<Rightarrow> 'a list" where
  "rle_list r = expand (rle_runs r)"

lemma expand_Nil [simp]: "expand [] = []"
  by (simp add: expand_def)

lemma expand_Cons [simp]:
  "expand (r # rs) = replicate (unat (run_length r)) (run_value r) @ expand rs"
  by (simp add: expand_def)

lemma expand_append [simp]: "expand (rs @ ss) = expand rs @ expand ss"
  by (simp add: expand_def)

lemma expand_drop_Cons:
  "it < length rs \<Longrightarrow>
     expand (drop it rs) =
       replicate (unat (run_length (rs ! it))) (run_value (rs ! it)) @ expand (drop (Suc it) rs)"
  by (subst Cons_nth_drop_Suc [symmetric]) simp_all

lemma expand_take_Suc:
  "it < length rs \<Longrightarrow>
     expand (take (Suc it) rs) =
       expand (take it rs) @ replicate (unat (run_length (rs ! it))) (run_value (rs ! it))"
  by (simp add: take_Suc_conv_app_nth)

lemma expand_split: "expand rs = expand (take it rs) @ expand (drop it rs)"
  by (simp flip: expand_append)

lemma length_expand_take_le: "length (expand (take it rs)) \<le> length (expand rs)"
  using expand_split [of rs it] by simp

lemma rle_wf_bound: "rle_wf r \<Longrightarrow> length (expand (rle_runs (r :: ('a, 'w::len) basic_rle))) < 2 ^ LENGTH('w)"
  by (simp add: rle_wf_def)

section \<open>The scanner finds the split point of an index\<close>

definition split_point :: "('a, 'w::len) rle_pair list \<Rightarrow> nat \<Rightarrow> nat \<Rightarrow> 'w word \<Rightarrow> bool" where
  "split_point rs n it pos \<longleftrightarrow>
     it \<le> length rs \<and> n = length (expand (take it rs)) + unat pos
     \<and> (it < length rs \<longrightarrow> unat pos < unat (run_length (rs ! it)))
     \<and> (it = length rs \<longrightarrow> pos = 0)"

lemma scan_loop_spec:
  fixes rs :: "('a, 'w::len) rle_pair list"
  assumes "scan_loop rs index it tot = (it', pos, tot')"
    and "unat tot + length (expand rs) < 2 ^ LENGTH('w)" and "tot \<le> index"
  shows "\<exists>k \<le> length rs. it' = it + k \<and> unat tot' = unat tot + length (expand (take k rs))
           \<and> tot' \<le> index
           \<and> (k < length rs \<longrightarrow> unat pos = unat index - unat tot'
                \<and> unat pos < unat (run_length (rs ! k)))
           \<and> (k = length rs \<longrightarrow> pos = 0)"
  using assms
proof (induction rs index it tot rule: scan_loop.induct)
  case (1 index it tot)
  then show ?case by auto
next
  case (2 r rs index it tot)
  have add: "unat (tot + run_length r) = unat tot + unat (run_length r)"
    using "2.prems"(2) by (intro unat_add_no_overflow) simp
  show ?case
  proof (cases "index < tot + run_length r")
    case True
    have "unat (index - tot) = unat index - unat tot"
      using "2.prems"(3) by (intro unat_sub_no_underflow) (simp add: word_le_nat_alt)
    moreover from True add have "unat index < unat tot + unat (run_length r)"
      by (simp add: word_less_nat_alt)
    ultimately show ?thesis
      using True "2.prems" by (intro exI [of _ 0]) (auto simp: Let_def word_le_nat_alt)
  next
    case False
    have "\<exists>k \<le> length rs. it' = Suc it + k
           \<and> unat tot' = unat (tot + run_length r) + length (expand (take k rs)) \<and> tot' \<le> index
           \<and> (k < length rs \<longrightarrow> unat pos = unat index - unat tot'
                \<and> unat pos < unat (run_length (rs ! k)))
           \<and> (k = length rs \<longrightarrow> pos = 0)"
    proof (rule "2.IH" [OF refl False])
      show "scan_loop rs index (Suc it) (tot + run_length r) = (it', pos, tot')"
        using False "2.prems"(1) by (simp add: Let_def)
      show "unat (tot + run_length r) + length (expand rs) < 2 ^ LENGTH('w)"
        using "2.prems"(2) add by simp
      show "tot + run_length r \<le> index"
        using False by simp
    qed
    then obtain k where "k \<le> length rs" and "it' = Suc it + k"
      and "unat tot' = unat (tot + run_length r) + length (expand (take k rs))" and "tot' \<le> index"
      and "k < length rs \<longrightarrow> unat pos = unat index - unat tot' \<and> unat pos < unat (run_length (rs ! k))"
      and "k = length rs \<longrightarrow> pos = 0"
      by blast
    then show ?thesis
      by (intro exI [of _ "Suc k"]) (auto simp: add)
  qed
qed

lemma scan_spec:
  fixes rs :: "('a, 'w::len) rle_pair list"
  assumes scan: "scan rs index sc = ((it, pos), sc')"
    and bound: "length (expand rs) < 2 ^ LENGTH('w)"
    and sc: "scanner_it sc \<le> length rs"
      "unat (scanner_total sc) = length (expand (take (scanner_it sc) rs))"
    and le: "scanner_total sc \<le> index"
  shows "scanner_it sc \<le> it" "it \<le> length rs" "scanner_it sc' = it"
    "unat (scanner_total sc') = length (expand (take it rs))" "scanner_total sc' \<le> index"
    "unat index \<le> length (expand rs) \<Longrightarrow> split_point rs (unat index) it pos"
    "it = length rs \<longleftrightarrow> length (expand rs) \<le> unat index"
proof -
  let ?b = "scanner_it sc"
  obtain tot' where loop: "scan_loop (drop ?b rs) index ?b (scanner_total sc) = (it, pos, tot')"
    and sc': "sc' = \<lparr>scanner_it = it, scanner_total = tot'\<rparr>"
    using scan by (auto simp: scan_def split: prod.splits)
  have total: "length (expand (take ?b rs)) + length (expand (drop ?b rs)) = length (expand rs)"
    using expand_split [of rs ?b] by (metis length_append)
  obtain k where k: "k \<le> length rs - ?b" "it = ?b + k"
    and tot': "unat tot' = unat (scanner_total sc) + length (expand (take k (drop ?b rs)))"
      "tot' \<le> index"
    and inner: "k < length rs - ?b \<Longrightarrow>
      unat pos = unat index - unat tot' \<and> unat pos < unat (run_length (rs ! it))"
    and last: "k = length rs - ?b \<Longrightarrow> pos = 0"
    using scan_loop_spec [OF loop] total bound sc le by auto
  show "?b \<le> it" "it \<le> length rs" "scanner_it sc' = it"
    using k sc sc' by auto
  have takes: "take it rs = take ?b rs @ take k (drop ?b rs)"
    by (simp add: k take_add)
  show total': "unat (scanner_total sc') = length (expand (take it rs))"
    using tot' sc' by (simp add: takes sc)
  show "scanner_total sc' \<le> index"
    using tot' sc' by simp
  have le_index: "length (expand (take it rs)) \<le> unat index"
    using total' tot'(2) sc' by (simp add: word_le_nat_alt)
  have inside: "unat index < length (expand rs)" if "it < length rs"
  proof -
    from that k have "k < length rs - ?b" by simp
    from inner [OF this] have "unat index - unat tot' < unat (run_length (rs ! it))" by simp
    then have "unat index < length (expand (take (Suc it) rs))"
      using that total' sc' le_index by (simp add: expand_take_Suc)
    also have "\<dots> \<le> length (expand rs)" by (rule length_expand_take_le)
    finally show ?thesis .
  qed
  show "it = length rs \<longleftrightarrow> length (expand rs) \<le> unat index"
    using inside le_index \<open>it \<le> length rs\<close> by (cases "it = length rs") auto
  assume index: "unat index \<le> length (expand rs)"
  show "split_point rs (unat index) it pos"
  proof (cases "it < length rs")
    case True
    with k have "k < length rs - ?b" by simp
    from inner [OF this] have "unat pos = unat index - length (expand (take it rs))"
      and "unat pos < unat (run_length (rs ! it))"
      using total' sc' by simp_all
    then show ?thesis
      using True le_index by (auto simp: split_point_def)
  next
    case False
    then have "it = length rs" using \<open>it \<le> length rs\<close> by simp
    then show ?thesis
      using last k sc le_index index by (simp add: split_point_def)
  qed
qed

lemma scan_first_spec:
  fixes rs :: "('a, 'w::len) rle_pair list"
  assumes "scan rs index rle_scanner = ((it, pos), sc')"
    and "length (expand rs) < 2 ^ LENGTH('w)"
  shows "it \<le> length rs" "scanner_it sc' = it"
    "unat (scanner_total sc') = length (expand (take it rs))" "scanner_total sc' \<le> index"
    "unat index \<le> length (expand rs) \<Longrightarrow> split_point rs (unat index) it pos"
    "it = length rs \<longleftrightarrow> length (expand rs) \<le> unat index"
  using scan_spec [OF assms] by (simp_all add: rle_scanner_def)

lemma split_point_take:
  assumes "split_point rs n it pos"
  shows "take n (expand rs) = expand (take it rs) @ replicate (unat pos) (run_value (rs ! it))"
proof (cases "it < length rs")
  case True
  with assms show ?thesis
    by (subst expand_split [of rs it]) (auto simp: split_point_def expand_drop_Cons)
next
  case False
  with assms show ?thesis by (auto simp: split_point_def)
qed

lemma split_point_drop:
  assumes "split_point rs n it pos"
  shows "drop n (expand rs) = drop (unat pos) (expand (drop it rs))"
  using assms by (subst expand_split [of rs it]) (auto simp: split_point_def)

lemma split_point_nth:
  assumes "split_point rs n it pos" and "it < length rs"
  shows "expand rs ! n = run_value (rs ! it)" and "n < length (expand rs)"
proof -
  from assms have "drop n (expand rs) = replicate (unat (run_length (rs ! it)) - unat pos) (run_value (rs ! it))
      @ expand (drop (Suc it) rs)"
    by (simp add: split_point_drop expand_drop_Cons) (simp add: split_point_def)
  moreover from assms have "0 < unat (run_length (rs ! it)) - unat pos"
    by (simp add: split_point_def)
  ultimately have ne: "drop n (expand rs) \<noteq> [] \<and> hd (drop n (expand rs)) = run_value (rs ! it)"
    by auto
  then show "n < length (expand rs)" by simp
  with ne show "expand rs ! n = run_value (rs ! it)"
    by (metis hd_drop_conv_nth)
qed

section \<open>Reading an element\<close>

lemma rle_at_correct:
  assumes "rle_wf r"
  shows "rle_at r i =
    (if unat i < length (rle_list r) then Inr (rle_list r ! unat i) else Inl Out_of_range)"
proof -
  obtain it pos sc where scan: "scan (rle_runs r) i rle_scanner = ((it, pos), sc)"
    by (metis surj_pair)
  note spec = scan_first_spec [OF scan rle_wf_bound [OF assms]]
  show ?thesis
  proof (cases "unat i < length (rle_list r)")
    case True
    then have "split_point (rle_runs r) (unat i) it pos" and "it < length (rle_runs r)"
      using spec by (auto simp: rle_list_def)
    then show ?thesis
      using True split_point_nth(1) by (fastforce simp: rle_at_def scan rle_list_def)
  next
    case False
    then show ?thesis using spec(6) by (simp add: rle_at_def scan rle_list_def)
  qed
qed

section \<open>Changing the length of one run\<close>

lemma length_set_length [simp]: "length (set_length i n rs) = length rs"
  by (simp add: set_length_def)

lemma map_run_value_set_length [simp]:
  "i < length rs \<Longrightarrow> map run_value (set_length i n rs) = map run_value rs"
  by (simp add: set_length_def map_update list_update_same_conv)

lemma set_length_nth [simp]:
  "i < length rs \<Longrightarrow> set_length i n rs ! j = (if i = j then (rs ! i)\<lparr>run_length := n\<rparr> else rs ! j)"
  by (simp add: set_length_def)

lemma take_set_length [simp]: "k \<le> i \<Longrightarrow> take k (set_length i n rs) = take k rs"
  by (simp add: set_length_def)

lemma drop_set_length [simp]: "i < k \<Longrightarrow> drop k (set_length i n rs) = drop k rs"
  by (simp add: set_length_def)

lemma take_Suc_set_length:
  "i < length rs \<Longrightarrow> take (Suc i) (set_length i n rs) = take i rs @ [(rs ! i)\<lparr>run_length := n\<rparr>]"
  by (simp add: set_length_def take_Suc_conv_app_nth)

lemma drop_set_length_same:
  "i < length rs \<Longrightarrow> drop i (set_length i n rs) = (rs ! i)\<lparr>run_length := n\<rparr> # drop (Suc i) rs"
  by (simp add: set_length_def drop_nth_update)

lemma canonical_runs_append:
  "canonical_runs (rs @ ss) \<longleftrightarrow> canonical_runs rs \<and> canonical_runs ss
     \<and> (rs \<noteq> [] \<longrightarrow> ss \<noteq> [] \<longrightarrow> run_value (last rs) \<noteq> run_value (hd ss))"
  by (auto simp: canonical_runs_def distinct_adj_append_iff last_map hd_map)

lemma canonical_runs_Cons:
  "canonical_runs (r # rs) \<longleftrightarrow> run_length r \<noteq> 0 \<and> canonical_runs rs
     \<and> (rs \<noteq> [] \<longrightarrow> run_value r \<noteq> run_value (hd rs))"
  by (auto simp: canonical_runs_def distinct_adj_Cons hd_map)

lemma canonical_runs_Nil [simp]: "canonical_runs []"
  by (simp add: canonical_runs_def)

lemma canonical_runs_take: "canonical_runs rs \<Longrightarrow> canonical_runs (take n rs)"
  using canonical_runs_append [of "take n rs" "drop n rs"] by simp

lemma canonical_runs_drop: "canonical_runs rs \<Longrightarrow> canonical_runs (drop n rs)"
  using canonical_runs_append [of "take n rs" "drop n rs"] by simp

lemma canonical_runs_length:
  "canonical_runs rs \<Longrightarrow> i < length rs \<Longrightarrow> run_length (rs ! i) \<noteq> 0"
  by (simp add: canonical_runs_def list_all_length)

section \<open>Compaction\<close>

text \<open>The trivial way to join adjacent runs, against which the in-place loops are proved.\<close>

fun joined :: "('a, 'w::len) rle_pair list \<Rightarrow> ('a, 'w) rle_pair list" where
  "joined [] = []"
| "joined [r] = [r]"
| "joined (r # s # rs) =
     (if run_value r = run_value s
      then joined (r\<lparr>run_length := run_length r + run_length s\<rparr> # rs)
      else r # joined (s # rs))"

lemma compact_while_joined:
  assumes "compact_while rs ref it = (rs', ref')" and "ref \<le> it" and "it < length rs"
  shows "take (Suc ref') rs' = take ref rs @ joined (rs ! ref # drop (Suc it) rs)"
  using assms
proof (induction rs ref it arbitrary: rs' ref' rule: compact_while.induct)
  case (1 rs ref it)
  show ?case
  proof (cases "Suc it < length rs")
    case True
    then have tail: "drop (Suc it) rs = rs ! Suc it # drop (Suc (Suc it)) rs"
      by (simp add: Cons_nth_drop_Suc)
    show ?thesis
    proof (cases "run_value (rs ! ref) = run_value (rs ! Suc it)")
      case eq: True
      let ?rs = "set_length ref (run_length (rs ! ref) + run_length (rs ! Suc it)) rs"
      have "compact_while ?rs ref (Suc it) = (rs', ref')"
        using True eq "1.prems"(1) by (simp add: compact_while.simps [of rs])
      from "1.IH"(1) [OF True eq this] show ?thesis
        using True eq "1.prems" by (simp add: tail)
    next
      case ne: False
      let ?rs = "rs[Suc ref := rs ! Suc it]"
      have "compact_while ?rs (Suc ref) (Suc it) = (rs', ref')"
        using True ne "1.prems"(1) by (simp add: compact_while.simps [of rs])
      from "1.IH"(2) [OF True ne this] show ?thesis
        using True ne "1.prems" by (simp add: tail take_Suc_conv_app_nth)
    qed
  next
    case False
    with "1.prems" show ?thesis
      by (auto simp: compact_while.simps [of rs] take_Suc_conv_app_nth)
  qed
qed

lemma compact_for_joined:
  assumes "it < length rs"
  shows "compact_for rs it = take it rs @ joined (drop it rs)"
  using assms
proof (induction rs it rule: compact_for.induct)
  case (1 rs it)
  from "1.prems" have head: "drop it rs = rs ! it # drop (Suc it) rs"
    by (simp add: Cons_nth_drop_Suc)
  show ?case
  proof (cases "Suc it < length rs")
    case True
    then have tail: "drop (Suc it) rs = rs ! Suc it # drop (Suc (Suc it)) rs"
      by (simp add: Cons_nth_drop_Suc)
    show ?thesis
    proof (cases "run_value (rs ! it) = run_value (rs ! Suc it)")
      case eq: True
      let ?rs = "set_length it (run_length (rs ! it) + run_length (rs ! Suc it)) rs"
      obtain rs' ref where w: "compact_while ?rs it (Suc it) = (rs', ref)"
        by (metis surj_pair)
      from compact_while_joined [OF this] have
        "take (Suc ref) rs' = take it rs @ joined (?rs ! it # drop (Suc (Suc it)) rs)"
        using True by simp
      with w True eq show ?thesis
        by (simp add: compact_for.simps [of rs] head tail)
    next
      case ne: False
      with True "1.IH" show ?thesis
        by (simp add: compact_for.simps [of rs] head tail take_Suc_conv_app_nth)
    qed
  next
    case False
    with "1.prems" have "drop it rs = [rs ! it]" using head by simp
    with False show ?thesis
      using append_take_drop_id [of it rs] by (simp add: compact_for.simps [of rs])
  qed
qed

lemma rle_compact_joined: "rle_compact r = r\<lparr>rle_runs := joined (rle_runs r)\<rparr>"
  by (cases "rle_runs r") (simp_all add: rle_compact_def compact_for_joined)

lemma expand_joined:
  fixes rs :: "('a, 'w::len) rle_pair list"
  assumes "length (expand rs) < 2 ^ LENGTH('w)"
  shows "expand (joined rs) = expand rs"
  using assms
proof (induction rs rule: joined.induct)
  case (3 r s rs)
  have "unat (run_length r + run_length s) = unat (run_length r) + unat (run_length s)"
    using "3.prems" by (intro unat_add_no_overflow) simp
  with 3 show ?case by (simp add: replicate_add)
qed simp_all

lemma joined_hd: "rs \<noteq> [] \<Longrightarrow> joined rs \<noteq> [] \<and> run_value (hd (joined rs)) = run_value (hd rs)"
  by (induction rs rule: joined.induct) auto

lemma canonical_joined:
  fixes rs :: "('a, 'w::len) rle_pair list"
  assumes "length (expand rs) < 2 ^ LENGTH('w)" and "list_all (\<lambda>r. run_length r \<noteq> 0) rs"
  shows "canonical_runs (joined rs)"
  using assms
proof (induction rs rule: joined.induct)
  case (3 r s rs)
  have add: "unat (run_length r + run_length s) = unat (run_length r) + unat (run_length s)"
    using "3.prems"(1) by (intro unat_add_no_overflow) simp
  have "run_length r + run_length s \<noteq> 0"
    using add "3.prems"(2) by (auto simp: unat_eq_0 simp flip: unat_eq_zero)
  with 3 add joined_hd [of "s # rs"] show ?case
    by (auto simp: canonical_runs_Cons)
qed (simp_all add: canonical_runs_def)

lemma rle_replace_values_correct:
  assumes "rle_wf r"
  shows "rle_list (rle_replace_values r old new) = map (\<lambda>x. if x = old then new else x) (rle_list r)"
    and "rle_wf (rle_replace_values r old new)"
    and "list_all (\<lambda>run. run_length run \<noteq> 0) (rle_runs r) \<Longrightarrow> rle_inv (rle_replace_values r old new)"
proof -
  let ?m = "map (\<lambda>run. if run_value run = old then run\<lparr>run_value := new\<rparr> else run)"
  have expand_m: "expand (?m rs) = map (\<lambda>x. if x = old then new else x) (expand rs)"
    for rs :: "('a, 'b) rle_pair list"
    by (induction rs) simp_all
  have runs: "rle_runs (rle_replace_values r old new) = joined (?m (rle_runs r))"
    and tot: "rle_total_length (rle_replace_values r old new) = rle_total_length r"
    by (simp_all add: rle_replace_values_def rle_compact_joined)
  have bound: "length (expand (?m (rle_runs r))) < 2 ^ LENGTH('b)"
    using rle_wf_bound [OF assms] by (simp add: expand_m)
  show list: "rle_list (rle_replace_values r old new) = map (\<lambda>x. if x = old then new else x) (rle_list r)"
    by (simp add: rle_list_def runs expand_joined [OF bound] expand_m)
  show wf: "rle_wf (rle_replace_values r old new)"
    using assms by (simp add: rle_wf_def tot runs expand_joined [OF bound] expand_m)
  assume "list_all (\<lambda>run. run_length run \<noteq> 0) (rle_runs r)"
  then have "list_all (\<lambda>run. run_length run \<noteq> 0) (?m (rle_runs r))"
    by (auto simp: list_all_iff)
  with wf show "rle_inv (rle_replace_values r old new)"
    by (simp add: rle_inv_def runs canonical_joined [OF bound])
qed

section \<open>Slicing\<close>

lemma unat_Suc_pos:
  fixes p q :: "'w::len word"
  assumes "unat p < unat q"
  shows "unat (p + 1) = Suc (unat p)"
proof -
  have "unat q < 2 ^ LENGTH('w)" by simp
  with assms have "unat p + 1 < 2 ^ LENGTH('w)" by linarith
  then show ?thesis by (simp add: unat_add_no_overflow)
qed

lemma take_Suc_split_point:
  assumes "split_point rs n it pos" and "it < length rs"
  shows "take (Suc n) (expand rs) =
    expand (take it rs) @ replicate (Suc (unat pos)) (run_value (rs ! it))"
  using assms split_point_nth [OF assms]
  by (simp add: take_Suc_conv_app_nth split_point_take replicate_append_same)

text \<open>The list \<^verbatim>\<open>slice\<close> of the source, for the split points of the first and the last element.\<close>

definition slice_runs ::
  "('a, 'w::len) rle_pair list \<Rightarrow> nat \<Rightarrow> 'w word \<Rightarrow> nat \<Rightarrow> 'w word \<Rightarrow> ('a, 'w) rle_pair list" where
  "slice_runs rs b bp e ep =
     (let slice = take (Suc e - b) (drop b rs);
          slice = set_length (length slice - 1) (ep + 1) slice
      in set_length 0 (run_length (slice ! 0) - bp) slice)"

lemma slice_runs_same:
  assumes "b < length rs"
  shows "slice_runs rs b bp b ep = [(rs ! b)\<lparr>run_length := ep + 1 - bp\<rparr>]"
  using assms by (simp add: slice_runs_def set_length_def take_Suc_conv_app_nth hd_drop_conv_nth)

lemma split_point_next:
  assumes "split_point rs t e ep" and "e < length rs"
  shows "unat (ep + 1) = Suc (unat ep)" and "ep + 1 \<noteq> 0"
proof -
  show eq: "unat (ep + 1) = Suc (unat ep)"
    using assms by (intro unat_Suc_pos [of _ "run_length (rs ! e)"]) (simp add: split_point_def)
  show "ep + 1 \<noteq> 0"
  proof
    assume "ep + 1 = 0"
    then have "unat (ep + 1) = 0" by simp
    with eq show False by simp
  qed
qed

lemma split_point_rest:
  assumes "split_point rs s b bp" and "b < length rs"
  shows "unat (run_length (rs ! b) - bp) = unat (run_length (rs ! b)) - unat bp"
    and "run_length (rs ! b) - bp \<noteq> 0"
proof -
  from assms have lt: "unat bp < unat (run_length (rs ! b))" by (simp add: split_point_def)
  then show eq: "unat (run_length (rs ! b) - bp) = unat (run_length (rs ! b)) - unat bp"
    by (intro unat_sub_no_underflow) simp
  show "run_length (rs ! b) - bp \<noteq> 0"
    using lt by auto
qed

lemma take_between:
  assumes "b < e" and "e < length rs"
  shows "take (Suc e - b) (drop b rs) = rs ! b # take (e - Suc b) (drop (Suc b) rs) @ [rs ! e]"
    and "take e rs = take b rs @ rs ! b # take (e - Suc b) (drop (Suc b) rs)"
proof -
  obtain k where e: "e = Suc (b + k)" using assms(1) less_iff_Suc_add by auto
  have drop_b: "drop b rs = rs ! b # drop (Suc b) rs"
    using assms by (simp add: Cons_nth_drop_Suc)
  show "take (Suc e - b) (drop b rs) = rs ! b # take (e - Suc b) (drop (Suc b) rs) @ [rs ! e]"
    using assms by (simp add: drop_b e Suc_diff_le take_Suc_conv_app_nth)
  have "take e rs = take b rs @ take (Suc k) (drop b rs)"
    using take_add [of b "Suc k" rs] by (simp add: e)
  then show "take e rs = take b rs @ rs ! b # take (e - Suc b) (drop (Suc b) rs)"
    by (simp add: drop_b e)
qed

lemma slice_runs_diff:
  assumes "b < e" and "e < length rs"
  shows "slice_runs rs b bp e ep =
    (rs ! b)\<lparr>run_length := run_length (rs ! b) - bp\<rparr> # take (e - Suc b) (drop (Suc b) rs)
      @ [(rs ! e)\<lparr>run_length := ep + 1\<rparr>]"
proof -
  obtain k where e: "e = Suc (b + k)" using assms(1) less_iff_Suc_add by auto
  have "take (Suc (Suc k)) (drop b rs) = rs ! b # take k (drop (Suc b) rs) @ [rs ! e]"
    using take_between(1) [OF assms] by (simp add: e Suc_diff_le)
  then show ?thesis using assms
    by (simp add: slice_runs_def set_length_def Let_def e nth_append min_absorb2 list_update_append
        Suc_diff_le)
qed

lemma slice_runs_expand:
  assumes b: "split_point rs s b bp" and e: "split_point rs t e ep"
    and "b \<le> e" and "e < length rs" and "s \<le> t"
  shows "expand (slice_runs rs b bp e ep) = drop s (take (Suc t) (expand rs))"
proof (cases "b = e")
  case True
  have "unat bp \<le> unat ep" and s: "s = length (expand (take e rs)) + unat bp"
    using assms True by (auto simp: split_point_def)
  then have "unat (ep + 1 - bp) = Suc (unat ep) - unat bp"
    using split_point_next [OF e assms(4)] by (simp add: unat_sub_no_underflow)
  with s show ?thesis
    using assms True
    by (simp add: slice_runs_same take_Suc_split_point [OF e] del: replicate_Suc)
next
  case False
  with assms have "b < e" by simp
  then have s: "s = length (expand (take b rs)) + unat bp" "unat bp \<le> unat (run_length (rs ! b))"
    using b assms(4) by (auto simp: split_point_def)
  from \<open>b < e\<close> assms(4) show ?thesis
    by (simp add: slice_runs_diff take_Suc_split_point [OF e] take_between(2) [of b e] s
        split_point_rest(1) [OF b] split_point_next(1) [OF e])
qed

lemma slice_runs_canonical:
  assumes b: "split_point rs s b bp" and e: "split_point rs t e ep"
    and "b \<le> e" and "e < length rs" and "s \<le> t" and c: "canonical_runs rs"
  shows "canonical_runs (slice_runs rs b bp e ep)"
proof (cases "b = e")
  case True
  have "unat bp \<le> unat ep" using assms True by (auto simp: split_point_def)
  then have "unat (ep + 1 - bp) \<noteq> 0"
    using split_point_next [OF e assms(4)] by (simp add: unat_sub_no_underflow)
  then have "ep + 1 - bp \<noteq> 0" by auto
  with True assms(4) show ?thesis by (simp add: slice_runs_same canonical_runs_Cons)
next
  case False
  with assms have "b < e" by simp
  have "canonical_runs (rs ! b # take (e - Suc b) (drop (Suc b) rs) @ [rs ! e])"
    using canonical_runs_take [OF canonical_runs_drop [OF c], of "Suc e - b" b]
    by (simp add: take_between(1) [OF \<open>b < e\<close> assms(4)])
  moreover have "bp \<noteq> run_length (rs ! b)"
    using split_point_rest(2) [OF b] \<open>b < e\<close> assms(4) by auto
  ultimately show ?thesis using \<open>b < e\<close> assms(4)
    by (auto simp: slice_runs_diff canonical_runs_Cons canonical_runs_append hd_append
        split_point_next(2) [OF e])
qed

lemma rle_slice_correct:
  assumes wf: "rle_wf r"
  shows "rle_list (rle_slice r i j) = take (unat j - unat i) (drop (unat i) (rle_list r))"
    and "rle_wf (rle_slice r i j)"
    and "rle_inv r \<Longrightarrow> rle_inv (rle_slice r i j)"
proof -
  define e where "e = (if j > rle_total_length r then rle_total_length r else j)"
  have n: "length (rle_list r) = unat (rle_total_length r)"
    using wf by (simp add: rle_wf_def rle_list_def)
  have e: "unat e = min (unat j) (length (rle_list r))"
    by (auto simp: e_def n word_less_nat_alt)
  have cut: "take (unat j - unat i) (drop (unat i) (rle_list r)) =
      drop (unat i) (take (unat e) (rle_list r))"
    by (simp add: e drop_take min_def)
  have "rle_list (rle_slice r i j) = drop (unat i) (take (unat e) (rle_list r))
    \<and> rle_wf (rle_slice r i j) \<and> (rle_inv r \<longrightarrow> rle_inv (rle_slice r i j))"
  proof (cases "i \<ge> e")
    case True
    then have "rle_slice r i j = \<lparr>rle_runs = [], rle_total_length = 0\<rparr>"
      by (simp add: rle_slice_def flip: e_def)
    with True show ?thesis
      by (simp add: rle_list_def rle_inv_def rle_wf_def word_le_nat_alt)
  next
    case False
    then have lt: "unat i < unat e" by (simp add: word_le_nat_alt)
    then have pred: "unat (e - 1) = unat e - 1"
      using unat_sub_no_underflow [of 1 e] by simp
    obtain b bp sc where scan1: "scan (rle_runs r) i rle_scanner = ((b, bp), sc)"
      by (metis surj_pair)
    obtain l lp sc' where scan2: "scan (rle_runs r) (e - 1) sc = ((l, lp), sc')"
      by (metis surj_pair)
    note bound = rle_wf_bound [OF wf]
    note s1 = scan_first_spec [OF scan1 bound]
    have len: "unat e \<le> length (expand (rle_runs r))" using e by (simp add: rle_list_def)
    have "scanner_total sc \<le> e - 1"
      using s1(4) lt pred by (simp add: word_le_nat_alt)
    from scan_spec [OF scan2 bound _ _ this] s1 have
      s2: "b \<le> l" "split_point (rle_runs r) (unat (e - 1)) l lp" "l < length (rle_runs r)"
      using lt pred len by auto
    have sp: "split_point (rle_runs r) (unat i) b bp" using s1(5) lt len by simp
    have runs: "rle_runs (rle_slice r i j) = slice_runs (rle_runs r) b bp l lp"
      and tot: "rle_total_length (rle_slice r i j) = e - i"
      using False by (simp_all add: rle_slice_def scan1 scan2 slice_runs_def Let_def flip: e_def)
    have list: "expand (rle_runs (rle_slice r i j)) = drop (unat i) (take (unat e) (rle_list r))"
      using slice_runs_expand [OF sp s2(2,1,3)] lt pred by (simp add: runs rle_list_def)
    moreover have "rle_wf (rle_slice r i j)"
      using lt len by (simp add: rle_wf_def tot list unat_sub_no_underflow rle_list_def)
    moreover have "canonical_runs (rle_runs r) \<Longrightarrow> canonical_runs (rle_runs (rle_slice r i j))"
      using slice_runs_canonical [OF sp s2(2,1,3)] lt pred by (simp add: runs)
    ultimately show ?thesis by (auto simp: rle_list_def rle_inv_def)
  qed
  then show "rle_list (rle_slice r i j) = take (unat j - unat i) (drop (unat i) (rle_list r))"
    and "rle_wf (rle_slice r i j)" and "rle_inv r \<Longrightarrow> rle_inv (rle_slice r i j)"
    using cut by auto
qed

section \<open>Resizing\<close>

lemma canonical_runs_set_length:
  assumes "canonical_runs rs" and "i < length rs" and "n \<noteq> 0"
  shows "canonical_runs (set_length i n rs)"
  using assms
  by (auto simp: canonical_runs_def list_all_length)

lemma last_expand:
  assumes "rs \<noteq> []" and "run_length (last rs) \<noteq> 0"
  shows "expand rs \<noteq> [] \<and> last (expand rs) = run_value (last rs)"
proof -
  have "expand rs = expand (butlast rs) @ replicate (unat (run_length (last rs))) (run_value (last rs))"
    using assms(1) expand_append [of "butlast rs" "[last rs]"] by simp
  moreover have "unat (run_length (last rs)) \<noteq> 0" using assms(2) by (simp add: unat_eq_0)
  ultimately show ?thesis by (cases "unat (run_length (last rs))") auto
qed

text \<open>What resizing does to the plain vector: shrinking truncates, growing repeats the last element.\<close>

lemma rle_resize_shrink:
  assumes wf: "rle_wf r" and le: "unat n \<le> length (rle_list r)"
  shows "\<exists>r'. rle_resize_trailing_extent r n = Inr r' \<and> rle_list r' = take (unat n) (rle_list r)
    \<and> rle_wf r' \<and> (rle_inv r \<longrightarrow> rle_inv r')"
proof -
  have len: "length (rle_list r) = unat (rle_total_length r)"
    using wf by (simp add: rle_wf_def rle_list_def)
  consider "n = 0" | "n \<noteq> 0" "n < rle_total_length r" | "n = rle_total_length r" "n \<noteq> 0"
    using le len by (metis antisym_conv2 word_le_nat_alt)
  then show ?thesis
  proof cases
    case 1
    then show ?thesis
      by (simp add: rle_resize_trailing_extent_def rle_list_def rle_inv_def rle_wf_def)
  next
    case 2
    have pred: "unat (n - 1) = unat n - 1" and pos: "0 < unat n"
      using unat_sub_no_underflow [of 1 n] 2(1) by (simp_all add: unat_gt_0 Suc_leI)
    have lt: "unat n < length (expand (rle_runs r))"
      using 2(2) len by (simp add: word_less_nat_alt rle_list_def)
    obtain l p sc where scan: "scan (rle_runs r) (n - 1) rle_scanner = ((l, p), sc)"
      by (metis surj_pair)
    note s = scan_first_spec [OF scan rle_wf_bound [OF wf]]
    have sp: "split_point (rle_runs r) (unat (n - 1)) l p" "l < length (rle_runs r)"
      using s lt pred by auto
    let ?rs = "take (Suc l) (set_length l (p + 1) (rle_runs r))"
    have res: "rle_resize_trailing_extent r n = Inr (r\<lparr>rle_runs := ?rs, rle_total_length := n\<rparr>)"
      using 2 by (simp add: rle_resize_trailing_extent_def scan)
    have list: "expand ?rs = take (unat n) (rle_list r)"
      using take_Suc_split_point [OF sp] sp split_point_next(1) [OF sp] pred pos
      by (simp add: take_Suc_set_length rle_list_def del: replicate_Suc)
    have "canonical_runs (rle_runs r) \<Longrightarrow> canonical_runs ?rs"
      using sp by (intro canonical_runs_take canonical_runs_set_length split_point_next(2) [OF sp])
    then show ?thesis
      using list lt by (auto simp: res rle_list_def rle_inv_def rle_wf_def)
  next
    case 3
    with wf show ?thesis
      by (simp add: rle_resize_trailing_extent_def rle_list_def rle_inv_def rle_wf_def)
  qed
qed

lemma rle_resize_grow:
  assumes inv: "rle_inv r" and gt: "length (rle_list r) < unat n" and ne: "rle_list r \<noteq> []"
  shows "\<exists>r'. rle_resize_trailing_extent r n = Inr r' \<and> rle_inv r'
    \<and> rle_list r' = rle_list r @ replicate (unat n - length (rle_list r)) (last (rle_list r))"
proof -
  let ?rs = "rle_runs r"
  define b where "b = length ?rs - 1"
  let ?v = "run_value (?rs ! b)" and ?l = "run_length (?rs ! b)"
  let ?n = "?l + (n - rle_total_length r)" and ?k = "unat n - length (rle_list r)"
  have len: "length (rle_list r) = unat (rle_total_length r)" and c: "canonical_runs ?rs"
    using inv by (simp_all add: rle_inv_def rle_wf_def rle_list_def)
  have rs: "?rs \<noteq> []" using ne by (auto simp: rle_list_def)
  then have b: "b < length ?rs" "length ?rs = Suc b" by (simp_all add: b_def)
  have last: "last (rle_list r) = ?v"
    using last_expand [OF rs] canonical_runs_length [OF c b(1)] rs b(2)
    by (simp add: rle_list_def last_conv_nth)
  have split: "rle_list r = expand (take b ?rs) @ replicate (unat ?l) ?v"
    using expand_take_Suc [OF b(1)] b(2) by (simp add: rle_list_def)
  have diff: "unat (n - rle_total_length r) = ?k"
    using gt len by (simp add: unat_sub_no_underflow)
  have "unat ?l \<le> length (rle_list r)" by (simp add: split)
  then have "unat ?l + unat (n - rle_total_length r) \<le> unat n"
    using gt diff by linarith
  also have "unat n < 2 ^ LENGTH('b)" by simp
  finally have sum: "unat ?n = unat ?l + ?k"
    by (simp add: unat_add_no_overflow diff)
  let ?r = "r\<lparr>rle_runs := set_length b ?n ?rs, rle_total_length := n\<rparr>"
  have "n \<noteq> 0" and "rle_total_length r < n"
    using gt len by (auto simp: word_less_nat_alt)
  then have res: "rle_resize_trailing_extent r n = Inr ?r"
    using rs by (auto simp: rle_resize_trailing_extent_def Let_def b_def)
  have "set_length b ?n ?rs = take b ?rs @ [(?rs ! b)\<lparr>run_length := ?n\<rparr>]"
    using take_Suc_set_length [OF b(1), of ?n] b(2) by simp
  then have "rle_list ?r = expand (take b ?rs) @ replicate (unat ?n) ?v"
    by (simp add: rle_list_def)
  also have "\<dots> = rle_list r @ replicate ?k ?v"
    unfolding sum replicate_add by (subst (2) split) simp
  finally have list: "rle_list ?r = rle_list r @ replicate ?k (last (rle_list r))"
    by (simp only: last)
  have "?n \<noteq> 0" using sum canonical_runs_length [OF c b(1)] by (auto simp: unat_eq_0)
  then have "canonical_runs (set_length b ?n ?rs)"
    using c b(1) by (intro canonical_runs_set_length)
  moreover have "length (rle_list ?r) = unat n" using gt by (simp add: list)
  ultimately have "rle_inv ?r"
    by (simp add: rle_inv_def rle_wf_def rle_list_def)
  with res list show ?thesis by blast
qed

lemma rle_resize_empty:
  assumes "rle_inv r" and "rle_list r = []" and "n \<noteq> 0"
  shows "rle_resize_trailing_extent r n = Inl Contract_violation"
proof -
  have "rle_runs r = []"
    using assms last_expand [of "rle_runs r"] canonical_runs_length [of "rle_runs r" "length (rle_runs r) - 1"]
    by (auto simp: rle_inv_def rle_list_def last_conv_nth)
  moreover have "rle_total_length r = 0"
    using assms by (simp add: rle_inv_def rle_wf_def rle_list_def unat_eq_0)
  ultimately show ?thesis
    using assms(3) by (simp add: rle_resize_trailing_extent_def word_gt_0)
qed

end
