(* ===== verification/Range_Store.thy ===== *)
theory Range_Store
  imports Prelude
begin

text \<open>
  The interface between a container that overwrites ranges of a row (\<^verbatim>\<open>til::basic_rle\<close>) and the
  code that uses it (\<^verbatim>\<open>ATTR_ROW\<close>). A client sees a store only through \<open>get_at\<close> (\<^verbatim>\<open>at\<close>) and
  \<open>put_range\<close> (\<^verbatim>\<open>replace\<close>); the laws say what both do to the plain vector \<open>view\<close> the store encodes.
\<close>

text \<open>A client's sequence of range writes, stopping at the first one that throws.\<close>

fun put_all ::
  "('s \<Rightarrow> 'i \<Rightarrow> 'i \<Rightarrow> 'a \<Rightarrow> 'e + 's) \<Rightarrow> ('i \<times> 'i \<times> 'a) list \<Rightarrow> 's \<Rightarrow> 'e + 's" where
  "put_all put [] s = Inr s"
| "put_all put ((i, j, v) # ws) s =
     (case put s i j v of Inl e \<Rightarrow> Inl e | Inr s' \<Rightarrow> put_all put ws s')"

text \<open>What a position holds after the writes: the value of the last write that covers it.\<close>

fun last_written :: "('i \<Rightarrow> nat) \<Rightarrow> ('i \<times> 'i \<times> 'a) list \<Rightarrow> nat \<Rightarrow> 'a \<Rightarrow> 'a" where
  "last_written idx [] k old = old"
| "last_written idx ((i, j, v) # ws) k old =
     last_written idx ws k (if idx i \<le> k \<and> k < idx j then v else old)"

definition overwrite :: "nat \<Rightarrow> nat \<Rightarrow> 'a \<Rightarrow> 'a list \<Rightarrow> 'a list" where
  "overwrite i j v xs =
     take i xs @ replicate (min j (length xs) - i) v @ drop (min j (length xs)) xs"

lemma length_overwrite: "i \<le> j \<Longrightarrow> i \<le> length xs \<Longrightarrow> length (overwrite i j v xs) = length xs"
  by (auto simp: overwrite_def min_def)

lemma nth_overwrite:
  assumes "i \<le> j" and "i \<le> length xs" and "k < length xs"
  shows "overwrite i j v xs ! k = (if i \<le> k \<and> k < j then v else xs ! k)"
  using assms by (auto simp: overwrite_def nth_append min_def)

locale range_store =
  fixes view :: "'s \<Rightarrow> 'a list" and inv :: "'s \<Rightarrow> bool" and idx :: "'i \<Rightarrow> nat" and oob :: 'e
    and get_at :: "'s \<Rightarrow> 'i \<Rightarrow> 'e + 'a" and put_range :: "'s \<Rightarrow> 'i \<Rightarrow> 'i \<Rightarrow> 'a \<Rightarrow> 'e + 's"
  assumes get_view:
      "inv s \<Longrightarrow> get_at s i = (if idx i < length (view s) then Inr (view s ! idx i) else Inl oob)"
    and put_ok: "inv s \<Longrightarrow> idx i \<le> idx j \<Longrightarrow> idx i \<le> length (view s) \<Longrightarrow>
      \<exists>s'. put_range s i j v = Inr s' \<and> inv s' \<and> view s' = overwrite (idx i) (idx j) v (view s)"
    and put_oob: "inv s \<Longrightarrow> idx j < idx i \<or> length (view s) < idx i \<Longrightarrow> put_range s i j v = Inl oob"
begin

lemma put_get:
  assumes "inv s" and "put_range s i j v = Inr s'"
  shows "get_at s' k = (if idx i \<le> idx k \<and> idx k < idx j \<and> idx k < length (view s) then Inr v else get_at s k)"
    and "inv s'" and "length (view s') = length (view s)"
proof -
  have le: "idx i \<le> idx j" "idx i \<le> length (view s)"
    using put_oob [OF assms(1), of j i v] assms(2) by (auto simp: not_less [symmetric])
  from put_ok [OF assms(1) this, of v] assms(2)
  have s': "inv s'" "view s' = overwrite (idx i) (idx j) v (view s)" by auto
  then show "inv s'" and len: "length (view s') = length (view s)"
    using le by (simp_all add: length_overwrite)
  show "get_at s' k = (if idx i \<le> idx k \<and> idx k < idx j \<and> idx k < length (view s) then Inr v else get_at s k)"
    using le by (auto simp: get_view [OF s'(1)] get_view [OF assms(1)] len) (auto simp: s'(2) nth_overwrite)
qed

lemma put_all_get:
  assumes "inv s" and "put_all put_range ws s = Inr s'" and "idx k < length (view s)"
  shows "get_at s' k = Inr (last_written idx ws (idx k) (view s ! idx k))"
    and "inv s'" and "length (view s') = length (view s)"
  using assms
proof (induction ws arbitrary: s)
  case Nil
  { case 1 then show ?case by (simp add: get_view) }
  { case 2 then show ?case by simp }
  { case 3 then show ?case by simp }
next
  case (Cons w ws)
  obtain i j v where w: "w = (i, j, v)" by (metis surj_pair)
  {
    fix s assume s: "inv s" "put_all put_range (w # ws) s = Inr s'" "idx k < length (view s)"
    then obtain t where t: "put_range s i j v = Inr t" "put_all put_range ws t = Inr s'"
      by (auto simp: w split: sum.splits)
    note p = put_get [OF s(1) t(1)]
    have "get_at t k = Inr (view t ! idx k)" using s(3) p by (simp add: get_view)
    with p(1) [of k] s have "view t ! idx k = (if idx i \<le> idx k \<and> idx k < idx j then v else view s ! idx k)"
      by (auto simp: get_view split: if_splits)
    with Cons.IH [OF p(2) t(2)] s(3) p(3)
    have "get_at s' k = Inr (last_written idx (w # ws) (idx k) (view s ! idx k))
      \<and> inv s' \<and> length (view s') = length (view s)" by (simp add: w)
  } note step = this
  { case 1 then show ?case using step by blast }
  { case 2 then show ?case using step by blast }
  { case 3 then show ?case using step by blast }
qed

lemma put_all_ok:
  assumes "inv s" and "\<forall>(i, j, v) \<in> set ws. idx i \<le> idx j \<and> idx i \<le> length (view s)"
  shows "\<exists>s'. put_all put_range ws s = Inr s'"
  using assms
proof (induction ws arbitrary: s)
  case (Cons w ws)
  obtain i j v where w: "w = (i, j, v)" by (metis surj_pair)
  with Cons.prems obtain t where t: "put_range s i j v = Inr t"
    using put_ok [of s i j v] by auto
  with Cons.IH [of t] Cons.prems put_get [OF Cons.prems(1) t] show ?case by (auto simp: w)
qed simp

end

end
