(* ===== verification/Rle_Replace.thy ===== *)
theory Rle_Replace
  imports Rle_Correct Range_Store
begin

text \<open>
  The optimised in-place algorithm of \<^verbatim>\<open>basic_rle::_replace_unchecked\<close> is proved equal to the
  trivial one: on the plain vector, the range \<^verbatim>\<open>[start_index, end_index)\<close> is cut out and the
  expansion of the replacements is put in its place. Each step of the source has one lemma; a step
  lemma states what the runs left of the insertion point and right of it stand for.
\<close>

section \<open>Copying and splicing runs: [Step4] to [Step6]\<close>

lemma copy_runs_eq:
  "i + length xs \<le> length rs \<Longrightarrow> copy_runs xs i rs = take i rs @ xs @ drop (i + length xs) rs"
proof (induction xs arbitrary: i rs)
  case Nil
  then show ?case by simp
next
  case (Cons x xs)
  then have "copy_runs xs (Suc i) (rs[i := x]) =
      take (Suc i) (rs[i := x]) @ xs @ drop (Suc i + length xs) (rs[i := x])"
    by (intro Cons.IH) simp
  with Cons.prems show ?case by (simp add: take_Suc_nth_update)
qed

definition trailer_list :: "'r option \<Rightarrow> 'r list" where
  "trailer_list t = (case t of None \<Rightarrow> [] | Some x \<Rightarrow> [x])"

lemma trailer_list_simps [simp]: "trailer_list None = []" "trailer_list (Some x) = [x]"
  by (simp_all add: trailer_list_def)

lemma splice_runs_eq:
  assumes "b \<le> length rs" and "e \<le> length rs" and "t \<noteq> None \<Longrightarrow> e \<le> b" and "reps \<noteq> []"
  shows "splice_runs dv rs b e reps t = take b rs @ reps @ trailer_list t @ drop (max b e) rs"
proof (cases t)
  case (Some x)
  with assms have "e \<le> b" by simp
  let ?d = "\<lparr>run_value = dv, run_length = 0\<rparr>"
  have room: "replicate (Suc (length reps)) ?d = replicate (length reps) ?d @ [?d]"
    by (simp add: replicate_append_same)
  have "copy_runs reps b (take b rs @ replicate (Suc (length reps)) ?d @ drop b rs)
      = take b rs @ reps @ ?d # drop b rs"
    unfolding room using assms(1) by (subst copy_runs_eq) (simp_all add: min_absorb2)
  with Some assms(1) \<open>e \<le> b\<close> show ?thesis
    by (simp add: splice_runs_def Let_def list_update_append max_absorb1 del: replicate_Suc)
next
  case None
  show ?thesis
  proof (cases "b < e")
    case True
    show ?thesis
    proof (cases "length reps \<le> e - b")
      case fits: True
      then have "b + length reps \<le> length rs" using True assms(2) by simp
      then have "copy_runs reps b rs = take b rs @ reps @ drop (b + length reps) rs"
        by (rule copy_runs_eq)
      with True fits None assms show ?thesis
        by (simp add: splice_runs_def Let_def min_absorb2 max_absorb2)
    next
      case more: False
      have "b + length (take (e - b) reps) \<le> length rs" using True assms(2) by simp
      then have "copy_runs (take (e - b) reps) b rs = take b rs @ take (e - b) reps @ drop e rs"
        using True more by (simp add: copy_runs_eq min_absorb2)
      with True more None assms show ?thesis
        by (simp add: splice_runs_def Let_def min_absorb1 max_absorb2)
    qed
  next
    case False
    with None assms(4) show ?thesis
      by (simp add: splice_runs_def Let_def max_absorb1)
  qed
qed

section \<open>Joining with the neighbours: [Step1]\<close>

lemma split_point_zero:
  assumes "split_point rs 0 b bp" and "canonical_runs rs"
  shows "b = 0 \<and> bp = 0"
proof -
  from assms(1) have "expand (take b rs) = []" and "bp = 0"
    by (auto simp: split_point_def unat_eq_0)
  moreover have "b = 0"
  proof (rule ccontr)
    assume "b \<noteq> 0"
    with assms(1) have "rs ! 0 \<in> set (take b rs)"
      by (auto simp: split_point_def in_set_conv_nth intro!: exI [of _ 0])
    moreover have "0 < length rs" using \<open>b \<noteq> 0\<close> assms(1) by (auto simp: split_point_def)
    ultimately show False
      using \<open>expand (take b rs) = []\<close> canonical_runs_length [OF assms(2), of 0]
      by (auto simp: expand_def unat_eq_0)
  qed
  ultimately show ?thesis by simp
qed

lemma split_point_prev:
  assumes "split_point rs s b 0" and "s \<noteq> 0"
  shows "0 < b" and "b - 1 < length rs"
    and "take s (expand rs) = expand (take (b - 1) rs)
      @ replicate (unat (run_length (rs ! (b - 1)))) (run_value (rs ! (b - 1)))"
proof -
  show "0 < b" using assms by (cases b) (auto simp: split_point_def)
  then show "b - 1 < length rs" using assms by (auto simp: split_point_def)
  with \<open>0 < b\<close> show "take s (expand rs) = expand (take (b - 1) rs)
      @ replicate (unat (run_length (rs ! (b - 1)))) (run_value (rs ! (b - 1)))"
    using split_point_take [OF assms(1)] expand_take_Suc [of "b - 1" rs] by simp
qed

lemma join_begin_spec:
  assumes sp: "split_point rs (unat s) b bp"
    and jb: "join_begin rs s reps b bp = (B, Bp, badd)"
  shows "take (unat s) (expand rs) = expand (take B rs)
      @ replicate (unat Bp) (run_value (rs ! B)) @ replicate (unat badd) (run_value (hd reps))"
    and "B \<le> b" and "Bp \<noteq> 0 \<Longrightarrow> B = b \<and> Bp = bp"
    and "canonical_runs rs \<Longrightarrow> Bp \<noteq> 0 \<Longrightarrow> run_value (rs ! B) \<noteq> run_value (hd reps)"
    and "canonical_runs rs \<Longrightarrow> Bp = 0 \<Longrightarrow> B \<noteq> 0 \<Longrightarrow> run_value (rs ! (B - 1)) \<noteq> run_value (hd reps)"
proof -
  define p where "p = (if bp \<noteq> 0 then b else b - 1)"
  have bp_s: "bp \<noteq> 0 \<Longrightarrow> s \<noteq> 0"
    using sp by (auto simp: split_point_def unat_eq_0)
  consider (joined) "s \<noteq> 0" "run_value (rs ! p) = run_value (hd reps)"
      "B = p" "Bp = 0" "badd = (if bp \<noteq> 0 then bp else run_length (rs ! p))"
    | (apart) "s = 0 \<or> run_value (rs ! p) \<noteq> run_value (hd reps)" "B = b" "Bp = bp" "badd = 0"
  proof (cases "s \<noteq> 0 \<and> run_value (rs ! p) = run_value (hd reps)")
    case True
    with jb have "(p, 0, if bp \<noteq> 0 then bp else run_length (rs ! p)) = (B, Bp, badd)"
      unfolding join_begin_def Let_def p_def [symmetric] by simp
    with True joined show ?thesis by blast
  next
    case False
    with jb have "(b, bp, 0) = (B, Bp, badd)"
      unfolding join_begin_def Let_def p_def [symmetric] by (cases "s = 0") simp_all
    with False apart show ?thesis by blast
  qed
  note cases = this
  have s0: "s \<noteq> 0 \<Longrightarrow> unat s \<noteq> 0" by (simp add: unat_eq_0)
  show "take (unat s) (expand rs) = expand (take B rs)
      @ replicate (unat Bp) (run_value (rs ! B)) @ replicate (unat badd) (run_value (hd reps))"
    using cases
  proof cases
    case joined
    then show ?thesis
      using split_point_take [OF sp] split_point_prev(3) [of rs "unat s" b] sp s0
      by (cases "bp = 0") (simp_all add: p_def)
  next
    case apart
    then show ?thesis using split_point_take [OF sp] by simp
  qed
  show "B \<le> b" and "Bp \<noteq> 0 \<Longrightarrow> B = b \<and> Bp = bp"
    using cases by (cases; simp add: p_def)+
  show "canonical_runs rs \<Longrightarrow> Bp \<noteq> 0 \<Longrightarrow> run_value (rs ! B) \<noteq> run_value (hd reps)"
    using cases bp_s by (cases; simp add: p_def)
  assume c: "canonical_runs rs" and "Bp = 0" and "B \<noteq> 0"
  show "run_value (rs ! (B - 1)) \<noteq> run_value (hd reps)"
    using cases
  proof cases
    case joined
    have "B < length rs"
      using joined sp split_point_prev(2) [of rs "unat s" b] s0
      by (cases "bp = 0") (auto simp: split_point_def p_def)
    then have "run_value (rs ! (B - 1)) \<noteq> run_value (rs ! B)"
      using c \<open>B \<noteq> 0\<close> distinct_adj_nth [of "map run_value rs" "B - 1"]
      by (simp add: canonical_runs_def)
    with joined show ?thesis by simp
  next
    case apart
    have "s \<noteq> 0" using split_point_zero [of rs b bp] sp c apart \<open>B \<noteq> 0\<close> by auto
    with apart \<open>Bp = 0\<close> show ?thesis by (simp add: p_def)
  qed
qed

lemma join_end_spec:
  assumes sp: "split_point rs (unat e) l lp" and tot: "length (expand rs) = unat tot"
    and last: "l = length rs \<longleftrightarrow> length (expand rs) \<le> unat e"
    and je: "join_end rs e tot reps l lp = (E, Ep, eadd)"
  shows "drop (unat e) (expand rs) =
      replicate (unat eadd) (run_value (last reps)) @ drop (unat Ep) (expand (drop E rs))"
    and "l \<le> E" and "E \<le> length rs" and "Ep \<noteq> 0 \<Longrightarrow> E = l \<and> Ep = lp \<and> eadd = 0"
    and "E = l \<Longrightarrow> Ep = lp \<and> eadd = 0"
    and "canonical_runs rs \<Longrightarrow> E < length rs \<Longrightarrow> run_value (rs ! E) \<noteq> run_value (last reps)"
proof -
  have le: "l \<le> length rs" using sp by (simp add: split_point_def)
  have e_tot: "e \<noteq> tot \<Longrightarrow> l < length rs"
    using last tot sp le by (cases "l = length rs") (auto simp: split_point_def word_unat_eq_iff)
  consider (joined) "e \<noteq> tot" "run_value (rs ! l) = run_value (last reps)"
      "E = Suc l" "Ep = 0" "eadd = run_length (rs ! l) - lp"
    | (apart) "e = tot \<or> run_value (rs ! l) \<noteq> run_value (last reps)" "E = l" "Ep = lp" "eadd = 0"
  proof (cases "e \<noteq> tot \<and> run_value (rs ! l) = run_value (last reps)")
    case True
    with je have "(Suc l, 0, run_length (rs ! l) - lp) = (E, Ep, eadd)"
      unfolding join_end_def by simp
    with True joined show ?thesis by blast
  next
    case False
    with je have "(l, lp, 0) = (E, Ep, eadd)"
      unfolding join_end_def by (simp only: if_False)
    with False apart show ?thesis by blast
  qed
  note cases = this
  show "drop (unat e) (expand rs) =
      replicate (unat eadd) (run_value (last reps)) @ drop (unat Ep) (expand (drop E rs))"
    using cases
  proof cases
    case joined
    then have "l < length rs" using e_tot by simp
    moreover have "unat lp < unat (run_length (rs ! l))"
      using sp \<open>l < length rs\<close> by (simp add: split_point_def)
    ultimately show ?thesis
      using joined split_point_rest(1) [OF sp]
      by (simp add: split_point_drop [OF sp] expand_drop_Cons)
  next
    case apart
    then show ?thesis by (simp add: split_point_drop [OF sp])
  qed
  show "l \<le> E" and "E \<le> length rs"
    using cases by (cases; use e_tot le in simp)+
  show "Ep \<noteq> 0 \<Longrightarrow> E = l \<and> Ep = lp \<and> eadd = 0"
    and "E = l \<Longrightarrow> Ep = lp \<and> eadd = 0"
    using cases by (cases; simp)+
  assume c: "canonical_runs rs" and "E < length rs"
  show "run_value (rs ! E) \<noteq> run_value (last reps)"
    using cases
  proof cases
    case joined
    with \<open>E < length rs\<close> c distinct_adj_nth [of "map run_value rs" l] show ?thesis
      by (simp add: canonical_runs_def)
  next
    case apart
    have "e \<noteq> tot"
      using apart \<open>E < length rs\<close> last tot by auto
    with apart show ?thesis by simp
  qed
qed

section \<open>Splitting the runs at both ends: [Step2] and [Step3]\<close>

text \<open>What is left of the runs in front of and behind the range, as plain lists.\<close>

definition head_runs :: "('a, 'w::len) rle_pair list \<Rightarrow> nat \<Rightarrow> 'w word \<Rightarrow> ('a, 'w) rle_pair list" where
  "head_runs rs b bp = take b rs @ (if bp \<noteq> 0 then [(rs ! b)\<lparr>run_length := bp\<rparr>] else [])"

definition tail_runs :: "('a, 'w::len) rle_pair list \<Rightarrow> nat \<Rightarrow> 'w word \<Rightarrow> ('a, 'w) rle_pair list" where
  "tail_runs rs e ep =
     (if e < length rs
      then (rs ! e)\<lparr>run_length := run_length (rs ! e) - ep\<rparr> # drop (Suc e) rs else [])"

lemma expand_head_runs:
  "expand (head_runs rs b bp) = expand (take b rs) @ replicate (unat bp) (run_value (rs ! b))"
  by (simp add: head_runs_def)

lemma expand_tail_runs:
  assumes "e < length rs \<Longrightarrow> unat ep \<le> unat (run_length (rs ! e))"
  shows "expand (tail_runs rs e ep) = drop (unat ep) (expand (drop e rs))"
  using assms
  by (simp add: tail_runs_def expand_drop_Cons unat_sub_no_underflow word_le_nat_alt)

lemma canonical_head_runs:
  assumes "canonical_runs rs" and "b < length rs \<or> bp = 0"
  shows "canonical_runs (head_runs rs b bp)"
proof (cases "bp = 0")
  case True
  then show ?thesis using assms by (simp add: head_runs_def canonical_runs_take)
next
  case False
  with assms have "head_runs rs b bp = take (Suc b) (set_length b bp rs)"
    by (simp add: head_runs_def take_Suc_set_length)
  with False assms show ?thesis
    by (simp add: canonical_runs_take canonical_runs_set_length)
qed

lemma canonical_tail_runs:
  assumes "canonical_runs rs" and "e < length rs \<Longrightarrow> run_length (rs ! e) - ep \<noteq> 0"
  shows "canonical_runs (tail_runs rs e ep)"
proof (cases "e < length rs")
  case True
  then have "tail_runs rs e ep = drop e (set_length e (run_length (rs ! e) - ep) rs)"
    by (simp add: tail_runs_def drop_set_length_same)
  with True assms show ?thesis
    by (simp add: canonical_runs_drop canonical_runs_set_length)
qed (simp add: tail_runs_def)

lemma split_run_spec:
  assumes "split_run rs b bp e ep = (R, B, t)"
    and "b \<le> e" and "e \<le> length rs" and "bp \<noteq> 0 \<Longrightarrow> b < length rs" and "ep \<noteq> 0 \<Longrightarrow> e < length rs"
  shows "length R = length rs" and "B = length (head_runs rs b bp)" and "take B R = head_runs rs b bp"
    and "trailer_list t @ drop (max B e) R = tail_runs rs e ep" and "t \<noteq> None \<longleftrightarrow> b = e \<and> bp \<noteq> 0"
proof -
  have eta: "\<lparr>run_value = run_value r, run_length = n\<rparr> = r\<lparr>run_length := n\<rparr>" for r :: "('a, 'b) rle_pair" and n
    by (cases r) simp
  note defs = split_run_def Let_def head_runs_def tail_runs_def
  show "length R = length rs" and "B = length (head_runs rs b bp)" and "t \<noteq> None \<longleftrightarrow> b = e \<and> bp \<noteq> 0"
    using assms by (auto simp: defs split: if_splits)
  show "take B R = head_runs rs b bp"
    using assms by (cases "bp = 0"; cases "b = e"; cases "ep = 0")
      (auto simp: defs take_Suc_set_length)
  show "trailer_list t @ drop (max B e) R = tail_runs rs e ep"
    using assms
    by (cases "bp = 0"; cases "b = e"; cases "ep = 0")
      (auto simp: defs eta drop_set_length_same max_absorb1 max_absorb2 Cons_nth_drop_Suc)
qed

section \<open>Growing the outer replacements: [Step7]\<close>

definition grow_runs ::
  "'w::len word \<Rightarrow> 'w word \<Rightarrow> ('a, 'w) rle_pair list \<Rightarrow> ('a, 'w) rle_pair list" where
  "grow_runs m n rs =
     (let rs = set_length 0 (run_length (rs ! 0) + m) rs
      in set_length (length rs - 1) (run_length (last rs) + n) rs)"

lemma set_length_id [simp]: "set_length i (run_length (rs ! i)) rs = rs"
  by (simp add: set_length_def)

lemma length_grow_runs [simp]: "length (grow_runs m n rs) = length rs"
  by (simp add: grow_runs_def Let_def)

lemma grow_runs_values [simp]: "rs \<noteq> [] \<Longrightarrow> map run_value (grow_runs m n rs) = map run_value rs"
  by (simp add: grow_runs_def Let_def)

lemma set_length_mid:
  "i < length ys \<Longrightarrow> set_length (length xs + i) n (xs @ ys @ zs) = xs @ set_length i n ys @ zs"
  by (simp add: set_length_def list_update_append nth_append)

lemma add_lengths_eq:
  assumes "reps \<noteq> []" and "n \<noteq> 0 \<Longrightarrow> k = length reps"
  shows "add_lengths (pre @ reps @ post) (length pre) k m n = pre @ grow_runs m n reps @ post"
proof -
  define reps' where "reps' = set_length 0 (run_length (reps ! 0) + m) reps"
  have ne: "reps' \<noteq> []" and len: "length reps' = length reps"
    using assms(1) by (auto simp: reps'_def set_length_def)
  have first: "(if m \<noteq> 0 then set_length (length pre)
        (run_length ((pre @ reps @ post) ! length pre) + m) (pre @ reps @ post) else pre @ reps @ post)
      = pre @ reps' @ post"
    using assms(1) set_length_mid [of 0 reps pre _ post] by (simp add: reps'_def nth_append)
  have last_nth: "last reps' = reps' ! (length reps - 1)"
    using ne len by (simp add: last_conv_nth)
  show ?thesis
  proof (cases "n = 0")
    case True
    then show ?thesis
      unfolding add_lengths_def Let_def first
      by (simp add: grow_runs_def Let_def reps'_def [symmetric] last_nth len)
  next
    case False
    then have "length pre + k - 1 = length pre + (length reps - 1)"
      using assms by (cases reps) auto
    then show ?thesis
      using False assms(1) len set_length_mid [of "length reps - 1" reps' pre _ post]
      unfolding add_lengths_def Let_def first
      by (simp add: grow_runs_def Let_def reps'_def [symmetric] last_nth nth_append)
  qed
qed

lemma expand_set_first:
  fixes rs :: "('a, 'w::len) rle_pair list"
  assumes "rs \<noteq> []" and "unat m + length (expand rs) < 2 ^ LENGTH('w)"
  shows "expand (set_length 0 (run_length (rs ! 0) + m) rs)
    = replicate (unat m) (run_value (hd rs)) @ expand rs"
  using assms
  by (cases rs) (simp_all add: set_length_def unat_add_no_overflow replicate_add add.commute)

lemma expand_set_last:
  fixes rs :: "('a, 'w::len) rle_pair list"
  assumes "rs \<noteq> []" and "length (expand rs) + unat n < 2 ^ LENGTH('w)"
  shows "expand (set_length (length rs - 1) (run_length (last rs) + n) rs)
    = expand rs @ replicate (unat n) (run_value (last rs))"
  using assms
  by (cases rs rule: rev_cases)
    (simp_all add: set_length_def list_update_append unat_add_no_overflow replicate_add)

lemma expand_grow_runs:
  fixes rs :: "('a, 'w::len) rle_pair list"
  assumes "rs \<noteq> []" and "unat m + length (expand rs) + unat n < 2 ^ LENGTH('w)"
  shows "expand (grow_runs m n rs) = replicate (unat m) (run_value (hd rs)) @ expand rs
    @ replicate (unat n) (run_value (last rs))"
proof -
  let ?rs = "set_length 0 (run_length (rs ! 0) + m) rs"
  have "expand ?rs = replicate (unat m) (run_value (hd rs)) @ expand rs"
    using assms by (intro expand_set_first) auto
  moreover have "map run_value ?rs = map run_value rs" using assms(1) by simp
  then have "run_value (last ?rs) = run_value (last rs)"
    using assms(1) by (metis last_map length_0_conv length_set_length)
  moreover have "?rs \<noteq> []" using assms(1) by (metis length_0_conv length_set_length)
  ultimately show ?thesis
    using assms(2) expand_set_last [of ?rs n] by (simp add: grow_runs_def Let_def)
qed

lemma grow_nonzero:
  fixes a m :: "'w::len word"
  assumes "a \<noteq> 0" and "unat a + unat m < 2 ^ LENGTH('w)"
  shows "a + m \<noteq> 0"
  using unat_add_no_overflow [OF assms(2)] assms(1) by (metis add_is_0 unat_eq_0)

lemma length_run_le: "i < length rs \<Longrightarrow> unat (run_length (rs ! i)) \<le> length (expand rs)"
  using expand_split [of rs i] by (simp add: expand_drop_Cons)

lemma canonical_grow_runs:
  fixes rs :: "('a, 'w::len) rle_pair list"
  assumes c: "canonical_runs rs" and ne: "rs \<noteq> []"
    and bound: "unat m + length (expand rs) + unat n < 2 ^ LENGTH('w)"
  shows "canonical_runs (grow_runs m n rs)"
proof -
  let ?rs = "set_length 0 (run_length (rs ! 0) + m) rs"
  have "run_length (rs ! 0) + m \<noteq> 0"
    using c ne bound length_run_le [of 0 rs] canonical_runs_length [OF c, of 0]
    by (intro grow_nonzero) auto
  then have 1: "canonical_runs ?rs" using c ne by (intro canonical_runs_set_length) auto
  have ne': "?rs \<noteq> []"
    using ne by (metis length_0_conv length_set_length)
  have ex: "expand ?rs = replicate (unat m) (run_value (hd rs)) @ expand rs"
    using ne bound by (intro expand_set_first) simp_all
  have "run_length (?rs ! (length rs - 1)) + n \<noteq> 0"
    using ne bound ex length_run_le [of "length rs - 1" ?rs] canonical_runs_length [OF 1, of "length rs - 1"]
    by (intro grow_nonzero) (auto simp del: set_length_nth)
  with 1 ne ne' show ?thesis
    by (auto simp: grow_runs_def Let_def last_conv_nth simp del: set_length_nth intro!: canonical_runs_set_length)
qed

section \<open>The whole replacement\<close>

lemma replace_steps_runs:
  assumes b: "split_point rs (unat s) b bp" and l: "split_point rs (unat e) l lp" and "b \<le> l"
    and jb: "join_begin rs s reps b bp = (B, Bp, m)"
    and je: "join_end rs e tot reps l lp = (E, Ep, n)"
    and last: "l = length rs \<longleftrightarrow> length (expand rs) \<le> unat e" and tot: "length (expand rs) = unat tot"
    and sr: "split_run rs B Bp E Ep = (R, B', t)" and ne: "reps \<noteq> []"
  shows "add_lengths (splice_runs dv R B' E reps t) B' (length reps + (if t \<noteq> None then 1 else 0)) m n
    = head_runs rs B Bp @ grow_runs m n reps @ tail_runs rs E Ep"
proof -
  note B = join_begin_spec [OF b jb] and E = join_end_spec [OF l tot last je]
  have "B \<le> E" using B(2) E(2) \<open>b \<le> l\<close> by simp
  moreover have "Bp \<noteq> 0 \<Longrightarrow> B < length rs" and "Ep \<noteq> 0 \<Longrightarrow> E < length rs"
    using B(3) E(4) b l by (auto simp: split_point_def le_less)
  ultimately have S: "length R = length rs" "B' = length (head_runs rs B Bp)" "take B' R = head_runs rs B Bp"
    "trailer_list t @ drop (max B' E) R = tail_runs rs E Ep" "t \<noteq> None \<longleftrightarrow> B = E \<and> Bp \<noteq> 0"
    using split_run_spec [OF sr _ E(3)] by blast+
  have "B' \<le> length R" and "t \<noteq> None \<Longrightarrow> E \<le> B'"
    using S \<open>Bp \<noteq> 0 \<Longrightarrow> B < length rs\<close> \<open>B \<le> E\<close> E(3) by (auto simp: head_runs_def)
  then have "splice_runs dv R B' E reps t = take B' R @ reps @ trailer_list t @ drop (max B' E) R"
    using S(1) E(3) ne by (intro splice_runs_eq) auto
  then have spliced: "splice_runs dv R B' E reps t = head_runs rs B Bp @ reps @ tail_runs rs E Ep"
    by (simp only: S(3,4))
  have "n \<noteq> 0 \<Longrightarrow> t = None"
    using S(5) E(2,5) B(2,3) \<open>b \<le> l\<close> by (cases "E = l") auto
  then show ?thesis
    unfolding spliced unfolding S(2) using ne by (intro add_lengths_eq) auto
qed

lemma replace_steps_correct:
  fixes rs :: "('a, 'w::len) rle_pair list"
  assumes b: "split_point rs (unat s) b bp" and l: "split_point rs (unat e) l lp"
    and jb: "join_begin rs s reps b bp = (B, Bp, m)"
    and je: "join_end rs e tot reps l lp = (E, Ep, n)"
    and last: "l = length rs \<longleftrightarrow> length (expand rs) \<le> unat e" and tot: "length (expand rs) = unat tot"
    and ne: "reps \<noteq> []"
    and bound: "unat s + length (expand reps) + (length (expand rs) - unat e) < 2 ^ LENGTH('w)"
    and rs': "rs' = head_runs rs B Bp @ grow_runs m n reps @ tail_runs rs E Ep"
  shows "expand rs' = take (unat s) (expand rs) @ expand reps @ drop (unat e) (expand rs)"
    and "canonical_runs rs \<Longrightarrow> canonical_runs reps \<Longrightarrow> canonical_runs rs'"
proof -
  note B = join_begin_spec [OF b jb] and E = join_end_spec [OF l tot last je]
  have "length (take (unat s) (expand rs)) \<le> unat s" by simp
  then have "unat m \<le> unat s" unfolding B(1) by simp
  moreover have "length (drop (unat e) (expand rs)) = length (expand rs) - unat e" by simp
  then have "unat n \<le> length (expand rs) - unat e" unfolding E(1) by simp
  ultimately have mn: "unat m + length (expand reps) + unat n < 2 ^ LENGTH('w)" using bound by linarith
  have "E < length rs \<Longrightarrow> unat Ep \<le> unat (run_length (rs ! E))"
    using E(4) l by (cases "Ep = 0") (auto simp: split_point_def)
  then have tail: "expand (tail_runs rs E Ep) = drop (unat Ep) (expand (drop E rs))"
    by (rule expand_tail_runs)
  show "expand rs' = take (unat s) (expand rs) @ expand reps @ drop (unat e) (expand rs)"
    using B(1) E(1) by (simp add: rs' expand_grow_runs [OF ne mn] expand_head_runs tail)
  assume c: "canonical_runs rs" and cr: "canonical_runs reps"
  have vals: "run_value (hd (grow_runs m n reps)) = run_value (hd reps)"
    "run_value (last (grow_runs m n reps)) = run_value (last reps)" "grow_runs m n reps \<noteq> []"
    using grow_runs_values [OF ne, of m n] ne
    by (metis hd_map length_0_conv length_grow_runs, metis last_map length_0_conv length_grow_runs,
        metis length_0_conv length_grow_runs)
  have "B < length rs \<or> Bp = 0" using B(3) b by (auto simp: split_point_def le_less)
  then have 1: "canonical_runs (head_runs rs B Bp)" using c by (rule canonical_head_runs [rotated])
  have "E < length rs \<Longrightarrow> run_length (rs ! E) - Ep \<noteq> 0"
    using E(4) split_point_rest(2) [OF l] canonical_runs_length [OF c, of E] by (cases "Ep = 0") auto
  then have 2: "canonical_runs (tail_runs rs E Ep)" using c by (rule canonical_tail_runs [rotated])
  have "B \<le> length rs" using B(2) b by (simp add: split_point_def)
  then have 3: "head_runs rs B Bp \<noteq> [] \<Longrightarrow> run_value (last (head_runs rs B Bp)) \<noteq> run_value (hd reps)"
    using B(4,5) [OF c] by (cases "Bp = 0") (auto simp: head_runs_def last_conv_nth)
  have 4: "tail_runs rs E Ep \<noteq> [] \<Longrightarrow> run_value (last reps) \<noteq> run_value (hd (tail_runs rs E Ep))"
    using E(6) [OF c] by (auto simp: tail_runs_def split: if_splits)
  show "canonical_runs rs'"
    using 1 2 3 4 canonical_grow_runs [OF cr ne mn] vals by (simp add: rs' canonical_runs_append)
qed

section \<open>Pure removals\<close>

text \<open>The run behind the range takes over \<open>q\<close> elements of the equal run in front of it.\<close>

lemma merged_run_length:
  fixes n ep q :: "'w::len word"
  assumes "unat ep \<le> unat n" and "unat n - unat ep + unat q < 2 ^ LENGTH('w)"
  shows "unat (n - (ep - q)) = unat n - unat ep + unat q"
proof -
  have "n - (ep - q) = (n - ep) + q" by simp
  also have "unat \<dots> = unat (n - ep) + unat q"
    using assms by (intro unat_add_no_overflow) (simp add: unat_sub_no_underflow)
  finally show ?thesis using assms(1) by (simp add: unat_sub_no_underflow)
qed

lemma remove_joined:
  fixes rs :: "('a, 'w::len) rle_pair list"
  assumes b: "split_point rs (unat s) b bp" and l: "split_point rs (unat e) l lp" and lt: "l < length rs"
    and se: "unat s \<le> unat e" "length (expand rs) < 2 ^ LENGTH('w)"
    and jb: "join_begin rs s [rs ! l] b bp = (p, 0, q)"
    and rs': "rs' = take p rs @ (rs ! l)\<lparr>run_length := run_length (rs ! l) - (lp - q)\<rparr> # drop (Suc l) rs"
  shows "expand rs' = take (unat s) (expand rs) @ drop (unat e) (expand rs)"
    and "canonical_runs rs \<Longrightarrow> canonical_runs rs'"
proof -
  note B = join_begin_spec [OF b jb]
  have lp: "unat lp < unat (run_length (rs ! l))" using l lt by (simp add: split_point_def)
  have "length (take (unat s) (expand rs)) \<le> unat s" by simp
  then have "unat q \<le> unat s" unfolding B(1) by simp
  moreover have tail: "drop (unat e) (expand rs) =
      replicate (unat (run_length (rs ! l)) - unat lp) (run_value (rs ! l)) @ expand (drop (Suc l) rs)"
    using lp lt by (simp add: split_point_drop [OF l] expand_drop_Cons)
  then have "unat (run_length (rs ! l)) - unat lp \<le> length (expand rs) - unat e"
    by (metis le_add1 length_append length_drop length_replicate)
  moreover have "unat e \<le> length (expand rs)"
    using split_point_nth(2) [OF l lt] by simp
  ultimately have m: "unat (run_length (rs ! l) - (lp - q)) = unat (run_length (rs ! l)) - unat lp + unat q"
    using se lp by (intro merged_run_length) linarith+
  then show "expand rs' = take (unat s) (expand rs) @ drop (unat e) (expand rs)"
    unfolding B(1) tail rs' by (simp add: replicate_add add.commute)
  assume c: "canonical_runs rs"
  have "unat (run_length (rs ! l) - (lp - q)) \<noteq> 0" using m lp by simp
  then have "canonical_runs (drop l (set_length l (run_length (rs ! l) - (lp - q)) rs))"
    using c lt by (intro canonical_runs_drop canonical_runs_set_length) (auto simp: unat_eq_0)
  moreover have "p \<le> length rs" using B(2) b by (simp add: split_point_def)
  ultimately show "canonical_runs rs'"
    using B(5) [OF c] c lt
    by (auto simp: rs' drop_set_length_same canonical_runs_append canonical_runs_take last_conv_nth)
qed

lemma remove_apart:
  assumes b: "split_point rs (unat s) b bp" and l: "split_point rs (unat e) l lp"
    and rs': "rs' = head_runs rs b bp @ tail_runs rs l lp"
    and apart: "s \<noteq> 0 \<Longrightarrow> l < length rs \<Longrightarrow>
      run_value (rs ! (if bp \<noteq> 0 then b else b - 1)) \<noteq> run_value (rs ! l)"
  shows "expand rs' = take (unat s) (expand rs) @ drop (unat e) (expand rs)"
    and "canonical_runs rs \<Longrightarrow> canonical_runs rs'"
proof -
  have "l < length rs \<Longrightarrow> unat lp \<le> unat (run_length (rs ! l))"
    using l by (auto simp: split_point_def)
  then show "expand rs' = take (unat s) (expand rs) @ drop (unat e) (expand rs)"
    by (simp add: rs' expand_head_runs expand_tail_runs split_point_take [OF b] split_point_drop [OF l])
  assume c: "canonical_runs rs"
  have bl: "b \<le> length rs" and blt: "b < length rs \<or> bp = 0" using b by (auto simp: split_point_def)
  have "head_runs rs b bp \<noteq> [] \<Longrightarrow> s \<noteq> 0"
    using split_point_zero [of rs b bp] b c by (auto simp: head_runs_def)
  then have "head_runs rs b bp \<noteq> [] \<Longrightarrow> tail_runs rs l lp \<noteq> [] \<Longrightarrow>
      run_value (last (head_runs rs b bp)) \<noteq> run_value (hd (tail_runs rs l lp))"
    using apart bl by (cases "bp = 0") (auto simp: head_runs_def tail_runs_def last_conv_nth split: if_splits)
  moreover have "canonical_runs (tail_runs rs l lp)"
    using split_point_rest(2) [OF l] by (intro canonical_tail_runs c)
  ultimately show "canonical_runs rs'"
    using canonical_head_runs [OF c blt] by (simp add: rs' canonical_runs_append)
qed

lemma remove_range_correct:
  assumes wf: "rle_wf r" and rs: "rs = rle_runs r"
    and b: "split_point rs (unat s) b bp" and l: "split_point rs (unat e) l lp" and bl: "b \<le> l"
    and last: "l = length rs \<longleftrightarrow> length (expand rs) \<le> unat e" and se: "unat s \<le> unat e"
    and r': "r' = remove_range r s e b bp l lp"
  shows "expand (rle_runs r') = take (unat s) (expand rs) @ drop (unat e) (expand rs)"
    and "canonical_runs rs \<Longrightarrow> canonical_runs (rle_runs r')"
    and "rle_total_length r' = rle_total_length r - (e - s)"
proof -
  define p where "p = (if bp \<noteq> 0 then b else b - 1)"
  have bound: "length (expand rs) < 2 ^ LENGTH('b)" using rle_wf_bound [OF wf] rs by simp
  have e_tot: "e \<noteq> rle_total_length r \<longleftrightarrow> l < length rs"
    using last wf rs l by (auto simp: rle_wf_def split_point_def word_unat_eq_iff)
  show "rle_total_length r' = rle_total_length r - (e - s)"
    by (simp add: r' remove_range_def Let_def)
  consider (joined) "s \<noteq> 0" "l < length rs" "run_value (rs ! p) = run_value (rs ! l)"
    | (apart) "s \<noteq> 0 \<Longrightarrow> l < length rs \<Longrightarrow> run_value (rs ! p) \<noteq> run_value (rs ! l)" by blast
  then have "expand (rle_runs r') = take (unat s) (expand rs) @ drop (unat e) (expand rs)
    \<and> (canonical_runs rs \<longrightarrow> canonical_runs (rle_runs r'))"
  proof cases
    case joined
    let ?q = "if bp \<noteq> 0 then bp else run_length (rs ! p)"
    have "join_begin rs s [rs ! l] b bp = (p, 0, ?q)"
      using joined by (simp add: join_begin_def p_def [symmetric] Let_def)
    moreover have "p \<le> l" using bl by (auto simp: p_def)
    then have "rle_runs r' = take p rs @ (rs ! l)\<lparr>run_length := run_length (rs ! l) - (lp - ?q)\<rparr> # drop (Suc l) rs"
      using joined e_tot unfolding r' remove_range_def Let_def rs [symmetric] p_def [symmetric]
      by (simp add: drop_set_length_same)
    ultimately show ?thesis
      using remove_joined [OF b l joined(2) se bound] by blast
  next
    case apart
    have "bp \<noteq> 0 \<Longrightarrow> s \<noteq> 0" using b by (auto simp: split_point_def unat_eq_0)
    then have "bp \<noteq> 0 \<Longrightarrow> b < l"
      using apart b bl by (cases "b = l") (auto simp: p_def split_point_def)
    moreover have no_join:
      "(s \<noteq> 0 \<and> e \<noteq> rle_total_length r \<and> run_value (rs ! p) = run_value (rs ! l)) = False"
      using apart e_tot by blast
    moreover have "lp \<noteq> 0 \<Longrightarrow> l < length rs" and "b \<le> length rs" and "l \<le> length rs"
      using b l by (auto simp: split_point_def)
    ultimately have "rle_runs r' = head_runs rs b bp @ tail_runs rs l lp"
      using bl unfolding r' remove_range_def Let_def rs [symmetric] p_def [symmetric] no_join if_False
      by (cases "bp = 0"; cases "lp = 0")
        (simp_all add: head_runs_def tail_runs_def drop_set_length_same take_Suc_set_length Cons_nth_drop_Suc)
    then show ?thesis
      using remove_apart [OF b l] apart by (simp add: p_def)
  qed
  then show "expand (rle_runs r') = take (unat s) (expand rs) @ drop (unat e) (expand rs)"
    and "canonical_runs rs \<Longrightarrow> canonical_runs (rle_runs r')" by blast+
qed

section \<open>\<open>_replace_unchecked\<close> and the public operations\<close>

lemma unat_fold_lengths:
  fixes t :: "'w::len word"
  assumes "unat t + length (expand rs) < 2 ^ LENGTH('w)"
  shows "unat (fold (\<lambda>run t. t + run_length run) rs t) = unat t + length (expand rs)"
  using assms
proof (induction rs arbitrary: t)
  case (Cons r rs)
  then have "unat (t + run_length r) = unat t + unat (run_length r)"
    by (intro unat_add_no_overflow) simp
  with Cons show ?case by simp
qed simp

lemma replace_unchecked_correct:
  fixes r :: "('a, 'w::len) basic_rle"
  assumes wf: "rle_wf r" and se: "unat s \<le> unat e" and en: "unat e \<le> length (rle_list r)"
    and bound: "unat s + length (expand reps) + (length (rle_list r) - unat e) < 2 ^ LENGTH('w)"
  shows "rle_list (replace_unchecked dv r s e reps)
      = take (unat s) (rle_list r) @ expand reps @ drop (unat e) (rle_list r)"
    and "rle_wf (replace_unchecked dv r s e reps)"
    and "rle_inv r \<Longrightarrow> canonical_runs reps \<Longrightarrow> rle_inv (replace_unchecked dv r s e reps)"
proof -
  define rs where "rs = rle_runs r"
  define r' where "r' = replace_unchecked dv r s e reps"
  have tot: "length (expand rs) = unat (rle_total_length r)" using wf by (simp add: rle_wf_def rs_def)
  then have lim: "length (expand rs) < 2 ^ LENGTH('w)" by simp
  have en': "unat e \<le> length (expand rs)" using en by (simp add: rle_list_def rs_def)
  obtain b bp sc where scan1: "scan rs s rle_scanner = ((b, bp), sc)" by (metis surj_pair)
  obtain l lp sc' where scan2: "scan rs e sc = ((l, lp), sc')" by (metis surj_pair)
  note s1 = scan_first_spec [OF scan1 lim]
  have "scanner_total sc \<le> e" using s1(4) se by (simp add: word_le_nat_alt)
  then have bl: "b \<le> l" and l: "split_point rs (unat e) l lp"
    and last: "l = length rs \<longleftrightarrow> length (expand rs) \<le> unat e"
    using scan_spec [OF scan2 lim] s1(1-3) en' by auto
  have b: "split_point rs (unat s) b bp" using s1(5) se en' by simp
  have left: "unat (rle_total_length r - (e - s)) = length (expand rs) - (unat e - unat s)"
    using se en' tot by (simp add: unat_sub_no_underflow)
  have "expand (rle_runs r') = take (unat s) (expand rs) @ expand reps @ drop (unat e) (expand rs)
    \<and> unat (rle_total_length r') = length (expand rs) - (unat e - unat s) + length (expand reps)
    \<and> (canonical_runs rs \<longrightarrow> canonical_runs reps \<longrightarrow> canonical_runs (rle_runs r'))"
  proof (cases "reps = []")
    case True
    then have "r' = remove_range r s e b bp l lp"
      by (simp add: r'_def replace_unchecked_def scan1 scan2 Let_def flip: rs_def)
    from remove_range_correct [OF wf rs_def b l bl last se this] True left show ?thesis by simp
  next
    case False
    obtain B Bp m where jb: "join_begin rs s reps b bp = (B, Bp, m)" by (metis surj_pair)
    obtain E Ep n where je: "join_end rs e (rle_total_length r) reps l lp = (E, Ep, n)" by (metis surj_pair)
    obtain R B' t where sr: "split_run rs B Bp E Ep = (R, B', t)" by (metis surj_pair)
    have r': "r' = \<lparr>rle_runs = head_runs rs B Bp @ grow_runs m n reps @ tail_runs rs E Ep,
        rle_total_length = fold (\<lambda>run t. t + run_length run) reps (rle_total_length r - (e - s))\<rparr>"
      using False replace_steps_runs [OF b l bl jb je last tot sr False]
      by (simp add: r'_def replace_unchecked_def scan1 scan2 Let_def jb je sr flip: rs_def)
    have "unat (rle_total_length r') = length (expand rs) - (unat e - unat s) + length (expand reps)"
      using bound se en' unfolding r' by (simp add: unat_fold_lengths left rle_list_def flip: rs_def)
    with replace_steps_correct [OF b l jb je last tot False] bound show ?thesis
      by (simp add: r' rle_list_def flip: rs_def)
  qed
  then show "rle_list (replace_unchecked dv r s e reps)
      = take (unat s) (rle_list r) @ expand reps @ drop (unat e) (rle_list r)"
    and "rle_wf (replace_unchecked dv r s e reps)"
    and "rle_inv r \<Longrightarrow> canonical_runs reps \<Longrightarrow> rle_inv (replace_unchecked dv r s e reps)"
    using se en' by (auto simp: rle_list_def rle_wf_def rle_inv_def rs_def r'_def)
qed

lemma check_indices_eq:
  assumes "rle_wf r"
  shows "check_indices r s e =
    (if unat s \<le> min (unat e) (length (rle_list r))
     then Inr (if e > rle_total_length r then rle_total_length r else e) else Inl Out_of_range)"
  using assms
  by (auto simp: check_indices_def Let_def rle_wf_def rle_list_def word_less_nat_alt)

lemma check_indices_end:
  assumes "rle_wf r" and "check_indices r s e = Inr e'"
  shows "unat e' = min (unat e) (length (rle_list r))" and "unat s \<le> unat e'"
    and "unat e' \<le> length (rle_list r)"
  using assms
  by (auto simp: check_indices_def Let_def rle_wf_def rle_list_def word_less_nat_alt split: if_splits)

lemma rle_replace_runs_ok:
  fixes r :: "('a, 'w::len) basic_rle"
  assumes wf: "rle_wf r" and s: "unat s \<le> min (unat e) (length (rle_list r))"
    and bound: "unat s + length (expand reps) + (length (rle_list r) - unat e) < 2 ^ LENGTH('w)"
  shows "\<exists>r'. rle_replace_runs dv r s e reps = Inr r'
    \<and> rle_list r' = take (unat s) (rle_list r) @ expand reps @ drop (unat e) (rle_list r)
    \<and> rle_wf r' \<and> (rle_inv r \<longrightarrow> canonical_runs reps \<longrightarrow> rle_inv r')"
proof -
  obtain e' where e': "check_indices r s e = Inr e'"
    using s by (simp add: check_indices_eq [OF wf])
  note c = check_indices_end [OF wf e']
  have "unat s + length (expand reps) + (length (rle_list r) - unat e') < 2 ^ LENGTH('w)"
    using bound c by (simp add: min_def split: if_splits)
  from replace_unchecked_correct [OF wf c(2,3) this] show ?thesis
    using e' c(1) by (simp add: rle_replace_runs_def drop_all min_def)
qed

lemma rle_replace_ok:
  fixes r :: "('a, 'w::len) basic_rle"
  assumes wf: "rle_wf r" and s: "unat s \<le> min (unat e) (length (rle_list r))"
  shows "\<exists>r'. rle_replace dv r s e v = Inr r' \<and> rle_wf r'
    \<and> rle_list r' = overwrite (unat s) (unat e) v (rle_list r)
    \<and> (rle_inv r \<longrightarrow> unat s < min (unat e) (length (rle_list r)) \<longrightarrow> rle_inv r')"
proof -
  obtain e' where e': "check_indices r s e = Inr e'"
    using s by (simp add: check_indices_eq [OF wf])
  note c = check_indices_end [OF wf e']
  let ?run = "\<lparr>run_value = v, run_length = e' - s\<rparr>"
  have ex: "expand [?run] = replicate (unat e' - unat s) v"
    using c(2) by (simp add: unat_sub_no_underflow)
  have "length (rle_list r) < 2 ^ LENGTH('w)"
    using rle_wf_bound [OF wf] by (simp add: rle_list_def)
  then have "unat s + length (expand [?run]) + (length (rle_list r) - unat e') < 2 ^ LENGTH('w)"
    unfolding ex using c by simp
  note ok = replace_unchecked_correct [OF wf c(2,3) this]
  have "unat s < unat e' \<Longrightarrow> canonical_runs [?run]"
    using c(2) by (auto simp: canonical_runs_Cons)
  with ok e' c(1) show ?thesis
    by (auto simp: rle_replace_def ex overwrite_def simp del: expand_Cons)
qed

lemma rle_replace_oob:
  assumes "rle_wf r" and "unat e < unat s \<or> length (rle_list r) < unat s"
  shows "rle_replace dv r s e v = Inl Out_of_range"
  using assms(2) by (auto simp: rle_replace_def check_indices_eq [OF assms(1)])

interpretation rle_store: range_store rle_list rle_wf unat Out_of_range rle_at "rle_replace dv" for dv
  by unfold_locales (use rle_at_correct rle_replace_ok rle_replace_oob in \<open>fastforce+\<close>)

end
