(* ===== verification/Rle_Iterator.thy ===== *)
theory Rle_Iterator
  imports Rle_Correct
begin

text \<open>
  \<^verbatim>\<open>details::rle_iterator\<close> of \<^verbatim>\<open>src/inc/til/rle.h\<close>: a random access iterator over the encoded
  elements, kept as a run iterator \<^verbatim>\<open>_it\<close> (an index into the runs) and a position \<^verbatim>\<open>_pos\<close> inside
  that run. A step that would dereference \<^verbatim>\<open>end()\<close> or move in front of \<^verbatim>\<open>begin()\<close> has the value
  \<open>None\<close>; \<^verbatim>\<open>difference_type\<close> values are integers.
\<close>

section \<open>The operators\<close>

record (overloaded) 'w rle_iterator =
  it_run :: nat
  it_pos :: "'w word"

definition rle_iter_begin :: "('a, 'w::len) basic_rle \<Rightarrow> 'w rle_iterator" where
  "rle_iter_begin r = \<lparr>it_run = 0, it_pos = 0\<rparr>"

definition rle_iter_end :: "('a, 'w::len) basic_rle \<Rightarrow> 'w rle_iterator" where
  "rle_iter_end r = \<lparr>it_run = length (rle_runs r), it_pos = 0\<rparr>"

definition iter_deref :: "('a, 'w::len) rle_pair list \<Rightarrow> 'w rle_iterator \<Rightarrow> 'a option" where
  "iter_deref rs i = (if it_run i < length rs then Some (run_value (rs ! it_run i)) else None)"

definition iter_incr :: "('a, 'w::len) rle_pair list \<Rightarrow> 'w rle_iterator \<Rightarrow> 'w rle_iterator option" where
  "iter_incr rs i =
     (if it_run i < length rs then
        (let pos = it_pos i + 1 in
         if pos = run_length (rs ! it_run i) then Some \<lparr>it_run = Suc (it_run i), it_pos = 0\<rparr>
         else Some (i\<lparr>it_pos := pos\<rparr>))
      else None)"

text \<open>The postfix forms return what they computed in \<^verbatim>\<open>tmp\<close> and leave \<^verbatim>\<open>*this\<close>: (result, \<^verbatim>\<open>*this\<close>).\<close>

definition iter_post_incr ::
  "('a, 'w::len) rle_pair list \<Rightarrow> 'w rle_iterator \<Rightarrow> ('w rle_iterator \<times> 'w rle_iterator) option" where
  "iter_post_incr rs i = map_option (\<lambda>tmp. (tmp, i)) (iter_incr rs i)"

definition iter_decr :: "('a, 'w::len) rle_pair list \<Rightarrow> 'w rle_iterator \<Rightarrow> 'w rle_iterator option" where
  "iter_decr rs i =
     (if it_pos i = 0 then
        (if it_run i = 0 \<or> length rs < it_run i then None
         else Some \<lparr>it_run = it_run i - 1, it_pos = run_length (rs ! (it_run i - 1)) - 1\<rparr>)
      else Some (i\<lparr>it_pos := it_pos i - 1\<rparr>))"

definition iter_post_decr ::
  "('a, 'w::len) rle_pair list \<Rightarrow> 'w rle_iterator \<Rightarrow> ('w rle_iterator \<times> 'w rle_iterator) option" where
  "iter_post_decr rs i = map_option (\<lambda>tmp. (tmp, i)) (iter_decr rs i)"

function iter_forward ::
  "('a, 'w::len) rle_pair list \<Rightarrow> 'w rle_iterator \<Rightarrow> int \<Rightarrow> 'w rle_iterator option" where
  "iter_forward rs i move =
     (if move > 0 then
        if it_run i < length rs then
          (let space = uint (run_length (rs ! it_run i)) - uint (it_pos i) in
           if move < space then Some (i\<lparr>it_pos := it_pos i + word_of_int move\<rparr>)
           else iter_forward rs \<lparr>it_run = Suc (it_run i), it_pos = 0\<rparr> (move - space))
        else None
      else Some i)"
  by pat_completeness auto
termination
  by (relation "measure (\<lambda>(rs, i, move). length rs - it_run i)") auto

function iter_backward ::
  "('a, 'w::len) rle_pair list \<Rightarrow> 'w rle_iterator \<Rightarrow> int \<Rightarrow> 'w rle_iterator option" where
  "iter_backward rs i move =
     (if move > 0 then
        (let space = uint (it_pos i) in
         if move \<le> space then Some (i\<lparr>it_pos := it_pos i - word_of_int move\<rparr>)
         else if it_run i = 0 \<or> length rs < it_run i then None
         else iter_backward rs
                \<lparr>it_run = it_run i - 1, it_pos = run_length (rs ! (it_run i - 1)) - 1\<rparr>
                (move - (space + 1)))
      else Some i)"
  by pat_completeness auto
termination
  by (relation "measure (\<lambda>(rs, i, move). it_run i)") auto

declare iter_forward.simps [simp del] iter_backward.simps [simp del]

definition iter_add ::
  "('a, 'w::len) rle_pair list \<Rightarrow> 'w rle_iterator \<Rightarrow> int \<Rightarrow> 'w rle_iterator option" where
  "iter_add rs i move = (if move \<ge> 0 then iter_forward rs i move else iter_backward rs i (- move))"

definition iter_sub ::
  "('a, 'w::len) rle_pair list \<Rightarrow> 'w rle_iterator \<Rightarrow> int \<Rightarrow> 'w rle_iterator option" where
  "iter_sub rs i offset = iter_add rs i (- offset)"

definition iter_nth :: "('a, 'w::len) rle_pair list \<Rightarrow> 'w rle_iterator \<Rightarrow> int \<Rightarrow> 'a option" where
  "iter_nth rs i offset = Option.bind (iter_add rs i offset) (iter_deref rs)"

definition iter_less :: "'w::len rle_iterator \<Rightarrow> 'w rle_iterator \<Rightarrow> bool" where
  "iter_less a b \<longleftrightarrow> it_run a < it_run b \<or> (it_run a = it_run b \<and> it_pos a < it_pos b)"

definition iter_distance ::
  "('a, 'w::len) rle_pair list \<Rightarrow> 'w rle_iterator \<Rightarrow> 'w rle_iterator \<Rightarrow> int" where
  "iter_distance rs this right =
     (let negative = iter_less this right;
          lower = (if negative then this else right);
          upper = (if negative then right else this);
          between = take (it_run upper - it_run lower) (drop (it_run lower) rs);
          distance = sum_list (map (\<lambda>run. uint (run_length run)) between);
          distance = distance - uint (it_pos lower);
          distance = distance + uint (it_pos upper)
      in if negative then - distance else distance)"

section \<open>An iterator is a position of the encoded vector\<close>

abbreviation nonempty_runs :: "('a, 'w::len) rle_pair list \<Rightarrow> bool" where
  "nonempty_runs rs \<equiv> list_all (\<lambda>run. run_length run \<noteq> 0) rs"

definition iter_at :: "('a, 'w::len) rle_pair list \<Rightarrow> 'w rle_iterator \<Rightarrow> nat \<Rightarrow> bool" where
  "iter_at rs i n \<longleftrightarrow> split_point rs n (it_run i) (it_pos i)"

lemma iter_at_le: "iter_at rs i n \<Longrightarrow> n \<le> length (expand rs)"
  using split_point_nth(2) [of rs n "it_run i" "it_pos i"]
  by (cases "it_run i = length rs") (auto simp: iter_at_def split_point_def)

lemma iter_at_deref:
  assumes "iter_at rs i n"
  shows "iter_deref rs i = (if n < length (expand rs) then Some (expand rs ! n) else None)"
proof (cases "it_run i < length rs")
  case True
  with assms split_point_nth [of rs n "it_run i" "it_pos i"] show ?thesis
    by (simp add: iter_deref_def iter_at_def)
next
  case False
  with assms have "n = length (expand rs)" by (auto simp: iter_at_def split_point_def)
  with False show ?thesis by (simp add: iter_deref_def)
qed

lemma iter_at_next_run:
  assumes "nonempty_runs rs" and "k < length rs" and "n = length (expand (take (Suc k) rs))"
  shows "iter_at rs \<lparr>it_run = Suc k, it_pos = 0\<rparr> n"
  using assms by (auto simp: iter_at_def split_point_def list_all_length unat_gt_0)

lemma unat_add_move:
  fixes p :: "'w::len word"
  assumes "0 \<le> move" and "unat p + nat move < 2 ^ LENGTH('w)"
  shows "unat (p + word_of_int move) = unat p + nat move"
proof -
  obtain m where m: "move = int m" using nonneg_int_cases [OF assms(1)] .
  then have "unat (word_of_int move :: 'w word) = m"
    using assms(2) by (simp add: unat_of_nat)
  with assms(2) m show ?thesis by (simp add: unat_add_no_overflow)
qed

lemma iter_forward_at:
  assumes "iter_at rs i n" and "nonempty_runs rs" and "0 \<le> move" and "int n + move \<le> int (length (expand rs))"
  shows "\<exists>j. iter_forward rs i move = Some j \<and> iter_at rs j (n + nat move)"
  using assms
proof (induction rs i move arbitrary: n rule: iter_forward.induct)
  case (1 rs i move)
  let ?k = "it_run i" and ?p = "it_pos i"
  show ?case
  proof (cases "move = 0")
    case True
    with "1.prems" show ?thesis by (simp add: iter_forward.simps)
  next
    case False
    have k: "?k < length rs"
      using "1.prems" False iter_at_le [OF "1.prems"(1)] by (auto simp: iter_at_def split_point_def le_less)
    have n: "n = length (expand (take ?k rs)) + unat ?p" and p: "unat ?p < unat (run_length (rs ! ?k))"
      using "1.prems"(1) k by (auto simp: iter_at_def split_point_def)
    define space where "space = uint (run_length (rs ! ?k)) - uint ?p"
    have space: "space = int (unat (run_length (rs ! ?k))) - int (unat ?p)"
      by (simp add: space_def)
    have unfold: "iter_forward rs i move =
        (if move < space then Some (i\<lparr>it_pos := ?p + word_of_int move\<rparr>)
         else iter_forward rs \<lparr>it_run = Suc ?k, it_pos = 0\<rparr> (move - space))"
      using False "1.prems"(3) k by (subst iter_forward.simps) (simp add: space_def)
    show ?thesis
    proof (cases "move < space")
      case True
      then have lt: "unat ?p + nat move < unat (run_length (rs ! ?k))" using space "1.prems"(3) by linarith
      moreover have "unat (run_length (rs ! ?k)) < 2 ^ LENGTH('b)" by simp
      ultimately have "unat (?p + word_of_int move) = unat ?p + nat move"
        using "1.prems"(3) by (intro unat_add_move) linarith+
      with True lt k n show ?thesis
        by (simp add: unfold iter_at_def split_point_def)
    next
      case more: False
      have "nat space = unat (run_length (rs ! ?k)) - unat ?p" using space p by linarith
      then have at: "iter_at rs \<lparr>it_run = Suc ?k, it_pos = 0\<rparr> (n + nat space)"
        using "1.prems"(2) k n p by (intro iter_at_next_run) (simp_all add: expand_take_Suc)
      have "int (n + nat space) + (move - space) \<le> int (length (expand rs))"
        using "1.prems"(4) space p by linarith
      from "1.IH" [OF _ k space_def more at "1.prems"(2) _ this] False more "1.prems"(3)
      obtain j where "iter_forward rs \<lparr>it_run = Suc ?k, it_pos = 0\<rparr> (move - space) = Some j"
        "iter_at rs j (n + nat space + nat (move - space))" by auto
      moreover have "n + nat space + nat (move - space) = n + nat move"
        using more space p by linarith
      ultimately show ?thesis using more by (simp add: unfold)
    qed
  qed
qed

text \<open>The last element of the run in front of a run boundary.\<close>

lemma iter_at_prev_run:
  assumes "iter_at rs i n" and "nonempty_runs rs" and "unat (it_pos i) < n"
  shows "it_run i \<noteq> 0" and "\<not> length rs < it_run i"
    and "iter_at rs \<lparr>it_run = it_run i - 1, it_pos = run_length (rs ! (it_run i - 1)) - 1\<rparr>
      (n - unat (it_pos i) - 1)"
proof -
  let ?k = "it_run i - 1"
  show k: "it_run i \<noteq> 0"
  proof
    assume "it_run i = 0"
    with assms(1,3) show False by (auto simp: iter_at_def split_point_def)
  qed
  show "\<not> length rs < it_run i"
    using assms(1) by (simp add: iter_at_def split_point_def)
  with k have lt: "?k < length rs" by simp
  then have pos: "0 < unat (run_length (rs ! ?k))"
    using assms(2) by (simp add: list_all_length unat_gt_0)
  then have "unat (run_length (rs ! ?k) - 1) = unat (run_length (rs ! ?k)) - 1"
    using unat_sub_no_underflow [of 1 "run_length (rs ! ?k)"] by simp
  moreover have "n = length (expand (take (Suc ?k) rs)) + unat (it_pos i)"
    using assms(1) k by (simp add: iter_at_def split_point_def)
  ultimately show "iter_at rs \<lparr>it_run = ?k, it_pos = run_length (rs ! ?k) - 1\<rparr> (n - unat (it_pos i) - 1)"
    using lt pos by (simp add: iter_at_def split_point_def expand_take_Suc)
qed

lemma iter_at_back:
  fixes i :: "'w::len rle_iterator"
  assumes "iter_at rs i n" and "0 \<le> move" and "move \<le> int (unat (it_pos i))"
  shows "iter_at rs (i\<lparr>it_pos := it_pos i - word_of_int move\<rparr>) (n - nat move)"
proof -
  obtain m where m: "move = int m" using nonneg_int_cases [OF assms(2)] .
  have le: "m \<le> unat (it_pos i)" using m assms(3) by linarith
  moreover have "unat (it_pos i) < 2 ^ LENGTH('w)" by simp
  ultimately have "m < 2 ^ LENGTH('w)" by linarith
  with m have "unat (word_of_int move :: 'w word) = m" by (simp add: unat_of_nat)
  then have "unat (it_pos i - word_of_int move) = unat (it_pos i) - m"
    using le by (simp add: unat_sub_no_underflow)
  note this le
  with assms(1) m show ?thesis
    by (auto simp: iter_at_def split_point_def)
qed

lemma iter_backward_at:
  assumes "iter_at rs i n" and "nonempty_runs rs" and "0 \<le> move" and "move \<le> int n"
  shows "\<exists>j. iter_backward rs i move = Some j \<and> iter_at rs j (n - nat move)"
  using assms
proof (induction rs i move arbitrary: n rule: iter_backward.induct)
  case (1 rs i move)
  define space where "space = uint (it_pos i)"
  have space: "space = int (unat (it_pos i))" by (simp add: space_def)
  consider "move = 0" | "0 < move" "move \<le> space" | "0 < move" "\<not> move \<le> space" using "1.prems"(3) by linarith
  then show ?case
  proof cases
    case 1
    with "1.prems" show ?thesis by (simp add: iter_backward.simps)
  next
    case 2
    then have "iter_backward rs i move = Some (i\<lparr>it_pos := it_pos i - word_of_int move\<rparr>)"
      by (subst iter_backward.simps) (simp add: space_def)
    then show ?thesis using iter_at_back [OF "1.prems"(1,3)] 2 space by simp
  next
    case 3
    have "unat (it_pos i) < n" using 3 space "1.prems"(4) by linarith
    note prev = iter_at_prev_run [OF "1.prems"(1,2) this]
    have unfold: "iter_backward rs i move = iter_backward rs
        \<lparr>it_run = it_run i - 1, it_pos = run_length (rs ! (it_run i - 1)) - 1\<rparr> (move - (space + 1))"
      using 3 prev(1,2) by (subst iter_backward.simps) (simp add: space_def)
    have guard: "\<not> (it_run i = 0 \<or> length rs < it_run i)" using prev(1,2) by simp
    have "0 \<le> move - (space + 1)" and "move - (space + 1) \<le> int (n - unat (it_pos i) - 1)"
      using 3 space "1.prems"(4) by linarith+
    from "1.IH" [OF 3(1) space_def 3(2) guard prev(3) "1.prems"(2) this]
    obtain j where "iter_backward rs i move = Some j"
      "iter_at rs j (n - unat (it_pos i) - 1 - nat (move - (space + 1)))" using unfold by auto
    moreover have "n - unat (it_pos i) - 1 - nat (move - (space + 1)) = n - nat move"
      using 3 space "1.prems"(4) by linarith
    ultimately show ?thesis by simp
  qed
qed

lemma iter_incr_at:
  assumes "iter_at rs i n" and "nonempty_runs rs" and "n < length (expand rs)"
  shows "\<exists>j. iter_incr rs i = Some j \<and> iter_at rs j (Suc n)"
proof -
  have k: "it_run i < length rs"
    using assms by (auto simp: iter_at_def split_point_def le_less)
  have p: "unat (it_pos i) < unat (run_length (rs ! it_run i))"
    using assms(1) k by (simp add: iter_at_def split_point_def)
  note suc = unat_Suc_pos [OF p]
  have n: "n = length (expand (take (it_run i) rs)) + unat (it_pos i)"
    using assms(1) by (simp add: iter_at_def split_point_def)
  show ?thesis
  proof (cases "it_pos i + 1 = run_length (rs ! it_run i)")
    case True
    then have "iter_at rs \<lparr>it_run = Suc (it_run i), it_pos = 0\<rparr> (Suc n)"
      using assms(2) k n suc by (intro iter_at_next_run) (auto simp: expand_take_Suc)
    with True k show ?thesis by (simp add: iter_incr_def)
  next
    case False
    then have "unat (it_pos i + 1) \<noteq> unat (run_length (rs ! it_run i))" by (simp add: word_unat_eq_iff)
    with p suc have "unat (it_pos i + 1) < unat (run_length (rs ! it_run i))" by simp
    with False k n suc show ?thesis by (simp add: iter_incr_def Let_def iter_at_def split_point_def)
  qed
qed

lemma iter_decr_at:
  assumes "iter_at rs i n" and "nonempty_runs rs" and "0 < n"
  shows "\<exists>j. iter_decr rs i = Some j \<and> iter_at rs j (n - 1)"
proof (cases "it_pos i = 0")
  case True
  then show ?thesis
    using iter_at_prev_run [OF assms(1,2)] assms(3) by (simp add: iter_decr_def)
next
  case False
  then have "0 < unat (it_pos i)" by (simp add: unat_gt_0)
  then have "1 \<le> int (unat (it_pos i))" by linarith
  then show ?thesis
    using False iter_at_back [OF assms(1), of 1] by (simp add: iter_decr_def)
qed

lemma iter_add_at:
  assumes "iter_at rs i n" and "nonempty_runs rs"
    and "0 \<le> int n + move" and "int n + move \<le> int (length (expand rs))"
  shows "\<exists>j. iter_add rs i move = Some j \<and> iter_at rs j (nat (int n + move))"
proof (cases "0 \<le> move")
  case True
  then have "n + nat move = nat (int n + move)" by linarith
  then show ?thesis
    using True iter_forward_at [OF assms(1,2) True assms(4)] by (simp add: iter_add_def)
next
  case False
  then have "n - nat (- move) = nat (int n + move)" and "0 \<le> - move" and "- move \<le> int n"
    using assms(3) by linarith+
  then show ?thesis
    using False iter_backward_at [OF assms(1,2), of "- move"] by (simp add: iter_add_def)
qed

lemma expand_take_mono: "j \<le> k \<Longrightarrow> length (expand (take j rs)) \<le> length (expand (take k rs))"
  using length_expand_take_le [of j "take k rs"] by (simp add: min_absorb1)

lemma iter_less_at:
  assumes "iter_at rs i m" and "iter_at rs j n"
  shows "iter_less i j \<longleftrightarrow> m < n"
proof -
  have before: "a < b" if x: "iter_at rs x a" and y: "iter_at rs y b" and "it_run x < it_run y" for x y a b
  proof -
    have k: "it_run x < length rs" using y \<open>it_run x < it_run y\<close> by (simp add: iter_at_def split_point_def)
    have "a < length (expand (take (Suc (it_run x)) rs))"
      using x k by (simp add: iter_at_def split_point_def expand_take_Suc)
    also have "\<dots> \<le> length (expand (take (it_run y) rs))"
      using \<open>it_run x < it_run y\<close> by (intro expand_take_mono) simp
    also have "\<dots> \<le> b" using y by (simp add: iter_at_def split_point_def)
    finally show ?thesis .
  qed
  consider "it_run i < it_run j" | "it_run j < it_run i" | "it_run i = it_run j" by linarith
  then show ?thesis
  proof cases
    case 3
    then have "m < n \<longleftrightarrow> unat (it_pos i) < unat (it_pos j)"
      using assms by (auto simp: iter_at_def split_point_def)
    with 3 show ?thesis by (simp add: iter_less_def word_less_nat_alt)
  qed (use before [OF assms] before [OF assms(2,1)] in \<open>auto simp: iter_less_def\<close>)
qed

lemma sum_lengths: "sum_list (map (\<lambda>run. uint (run_length run)) rs) = int (length (expand rs))"
  by (induction rs) simp_all

lemma iter_distance_ordered:
  assumes "iter_at rs i m" and "iter_at rs j n" and "it_run i \<le> it_run j"
  shows "sum_list (map (\<lambda>run. uint (run_length run)) (take (it_run j - it_run i) (drop (it_run i) rs)))
    - uint (it_pos i) + uint (it_pos j) = int n - int m"
proof -
  have "take (it_run j) rs = take (it_run i) rs @ take (it_run j - it_run i) (drop (it_run i) rs)"
    using assms(3) take_add [of "it_run i" "it_run j - it_run i" rs] by simp
  then have "length (expand (take (it_run j) rs)) = length (expand (take (it_run i) rs))
      + length (expand (take (it_run j - it_run i) (drop (it_run i) rs)))" by simp
  moreover have "m = length (expand (take (it_run i) rs)) + unat (it_pos i)"
    "n = length (expand (take (it_run j) rs)) + unat (it_pos j)"
    using assms(1,2) by (simp_all add: iter_at_def split_point_def)
  ultimately show ?thesis
    unfolding sum_lengths unfolding uint_nat by linarith
qed

lemma iter_distance_at:
  assumes "iter_at rs i m" and "iter_at rs j n"
  shows "iter_distance rs i j = int m - int n"
proof (cases "iter_less i j")
  case True
  then have "it_run i \<le> it_run j" by (auto simp: iter_less_def)
  with True iter_distance_ordered [OF assms] show ?thesis
    by (simp add: iter_distance_def Let_def)
next
  case False
  then have "it_run j \<le> it_run i" by (auto simp: iter_less_def)
  with False iter_distance_ordered [OF assms(2,1)] show ?thesis
    by (simp add: iter_distance_def Let_def)
qed

end
