(* ===== verification/Rle_Spec.thy ===== *)
theory Rle_Spec
  imports Rle_Replace Rle_Iterator
begin

text \<open>
  What \<^verbatim>\<open>til::basic_rle\<close> promises its users, over the plain vector \<open>rle_list r\<close> it encodes: each
  public operation is the obvious operation on that vector, the cached length stays right and the
  runs stay compact. The lemmas of \<open>Rle_Correct\<close>, \<open>Rle_Replace\<close> and \<open>Rle_Iterator\<close> carry the proofs.
\<close>

text \<open>The row used in the witnesses: the vector 1 1 1 1 5 5, with 16-bit lengths as in \<^verbatim>\<open>ATTR_ROW\<close>.\<close>

definition sample_rle :: "(nat, 16) basic_rle" where
  "sample_rle = \<lparr>rle_runs = [\<lparr>run_value = 1, run_length = 4\<rparr>, \<lparr>run_value = 5, run_length = 2\<rparr>],
                 rle_total_length = 6\<rparr>"

lemma sample_rle_facts:
  "rle_list sample_rle = [1, 1, 1, 1, 5, 5]" "rle_inv sample_rle" "rle_wf sample_rle"
  by (simp_all add: sample_rle_def rle_list_def rle_inv_def rle_wf_def canonical_runs_Cons
      replicate_numeral)

text \<open>C14: \<^verbatim>\<open>replace(start, end, runs)\<close> on an in-range start succeeds, and the in-place algorithm with its
  joins, mid-run splits and shifted copies is the trivial one on the encoded vector: the elements from
  start to end are cut out and the expansion of the new runs takes their place. The cached length stays
  exact, and compact runs stay compact when the new runs are.\<close>

theorem rle_replace_runs_correct:
  fixes r :: "('a, 'w::len) basic_rle"
  assumes "rle_wf r" and "unat s \<le> min (unat e) (length (rle_list r))"
    and "unat s + length (expand reps) + (length (rle_list r) - unat e) < 2 ^ LENGTH('w)"
  shows "\<exists>r'. rle_replace_runs dv r s e reps = Inr r'
    \<and> rle_list r' = take (unat s) (rle_list r) @ expand reps @ drop (unat e) (rle_list r)
    \<and> rle_wf r' \<and> (rle_inv r \<longrightarrow> canonical_runs reps \<longrightarrow> rle_inv r')"
  using assms by (rule rle_replace_runs_ok)

theorem rle_replace_runs_correct_witness:
  "\<exists>r'. rle_replace_runs 0 sample_rle 1 3 [\<lparr>run_value = 7, run_length = 1\<rparr>] = Inr r'
    \<and> rle_list r' = [1, 7, 1, 5, 5] \<and> rle_inv r'"
  using rle_replace_runs_correct [of sample_rle 1 3 "[\<lparr>run_value = 7, run_length = 1\<rparr>]" 0]
  by (auto simp: sample_rle_facts canonical_runs_Cons replicate_numeral)

text \<open>C15: \<^verbatim>\<open>replace(start, end, value)\<close> throws \<^verbatim>\<open>out_of_range\<close> exactly when start lies behind end or behind
  the last element; otherwise it overwrites start to end (end capped at the length) with the value and
  leaves all other elements and the length alone. A non-empty range keeps the runs compact.\<close>

theorem rle_replace_correct:
  assumes "rle_wf r"
  shows "if unat s \<le> min (unat e) (length (rle_list r))
    then \<exists>r'. rle_replace dv r s e v = Inr r' \<and> rle_wf r'
      \<and> rle_list r' = overwrite (unat s) (unat e) v (rle_list r)
      \<and> length (rle_list r') = length (rle_list r)
      \<and> (rle_inv r \<longrightarrow> unat s < min (unat e) (length (rle_list r)) \<longrightarrow> rle_inv r')
    else rle_replace dv r s e v = Inl Out_of_range"
proof (cases "unat s \<le> min (unat e) (length (rle_list r))")
  case True
  with rle_replace_ok [OF assms True, of dv v] show ?thesis by (auto simp: length_overwrite)
next
  case False
  with rle_replace_oob [OF assms, of e s] show ?thesis by auto
qed

theorem rle_replace_correct_witness:
  "\<exists>r'. rle_replace 0 sample_rle 3 9 5 = Inr r' \<and> rle_list r' = [1, 1, 1, 5, 5, 5] \<and> rle_inv r'"
  using rle_replace_correct [of sample_rle 3 9 0 5]
  by (auto simp: sample_rle_facts overwrite_def replicate_numeral)

text \<open>C27: \<^verbatim>\<open>slice(start, end)\<close> encodes the sub-vector from start to end (both capped), never throws, and
  its runs are compact if the original's were.\<close>

theorem rle_slice_spec:
  assumes "rle_inv r"
  shows "rle_list (rle_slice r i j) = take (unat j - unat i) (drop (unat i) (rle_list r))
    \<and> rle_inv (rle_slice r i j)"
  using assms rle_slice_correct [of r] by (simp add: rle_inv_def)

theorem rle_slice_spec_witness:
  "rle_list (rle_slice sample_rle 3 5) = [1, 5] \<and> rle_inv (rle_slice sample_rle 3 5)"
  using rle_slice_spec [of sample_rle 3 5] by (simp add: sample_rle_facts replicate_numeral)

text \<open>C28: \<^verbatim>\<open>resize_trailing_extent(n)\<close> on a non-empty vector succeeds with exactly n elements: a prefix when
  shrinking, the vector continued with its last element when growing. It keeps the invariant.\<close>

theorem rle_resize_spec:
  assumes "rle_inv r" and "rle_list r \<noteq> []"
  shows "\<exists>r'. rle_resize_trailing_extent r n = Inr r' \<and> rle_inv r'
    \<and> rle_list r' = take (unat n) (rle_list r)
        @ replicate (unat n - length (rle_list r)) (last (rle_list r))"
proof (cases "unat n \<le> length (rle_list r)")
  case True
  with rle_resize_shrink [of r n] assms show ?thesis by (auto simp: rle_inv_def)
next
  case False
  with rle_resize_grow [OF assms(1), of n] assms(2) show ?thesis by auto
qed

theorem rle_resize_spec_witness:
  "\<exists>r'. rle_resize_trailing_extent sample_rle 8 = Inr r' \<and> rle_inv r'
    \<and> rle_list r' = [1, 1, 1, 1, 5, 5, 5, 5]"
  using rle_resize_spec [of sample_rle 8] by (simp add: sample_rle_facts replicate_numeral)

text \<open>C29: \<^verbatim>\<open>replace_values(old, new)\<close> maps every occurrence of old to new and joins the runs that become
  equal, so that the result is compact again; \<^verbatim>\<open>at(i)\<close> then reads the mapped element and throws exactly
  behind the end.\<close>

theorem rle_replace_values_spec:
  assumes "rle_inv r"
  shows "rle_inv (rle_replace_values r old new)
    \<and> rle_at (rle_replace_values r old new) i =
        (if unat i < length (rle_list r)
         then Inr (if rle_list r ! unat i = old then new else rle_list r ! unat i)
         else Inl Out_of_range)"
  using assms rle_replace_values_correct [of r old new]
  by (auto simp: rle_inv_def canonical_runs_def rle_at_correct)

theorem rle_replace_values_spec_witness:
  "rle_inv (rle_replace_values sample_rle 5 1) \<and> rle_at (rle_replace_values sample_rle 5 1) 5 = Inr 1"
  using rle_replace_values_spec [of sample_rle 5 1 5] by (simp add: sample_rle_facts replicate_numeral)

text \<open>C30: the iterator's arithmetic agrees with the encoded vector. From an iterator at element m, adding
  any in-range distance (run by run, forwards or backwards) arrives at the element that far away and
  dereferences to it, and subtracting the two iterators gives the distance back.\<close>

theorem rle_iterator_arithmetic:
  assumes "nonempty_runs rs" and "iter_at rs i m"
    and "0 \<le> int m + move" and "int m + move < int (length (expand rs))"
  shows "\<exists>j. iter_add rs i move = Some j \<and> iter_distance rs j i = move
    \<and> iter_deref rs j = Some (expand rs ! nat (int m + move)) \<and> (iter_less i j \<longleftrightarrow> 0 < move)"
proof -
  obtain j where j: "iter_add rs i move = Some j" "iter_at rs j (nat (int m + move))"
    using iter_add_at [OF assms(2,1,3)] assms(4) by auto
  then show ?thesis
    using assms iter_distance_at [OF j(2) assms(2)] iter_less_at [OF assms(2) j(2)] iter_at_deref [OF j(2)]
    by auto
qed

theorem rle_iterator_arithmetic_witness:
  "\<exists>j. iter_add (rle_runs sample_rle) (rle_iter_begin sample_rle) 4 = Some j
    \<and> iter_distance (rle_runs sample_rle) j (rle_iter_begin sample_rle) = 4
    \<and> iter_deref (rle_runs sample_rle) j = Some 5"
  using rle_iterator_arithmetic [of "rle_runs sample_rle" "rle_iter_begin sample_rle" 0 4]
  by (auto simp: sample_rle_def iter_at_def split_point_def rle_iter_begin_def replicate_numeral)

text \<open>C36: postfix increment does not have its standard meaning: it returns the advanced position and
  leaves the iterator itself where it was.\<close>

theorem rle_iterator_post_increment:
  assumes "nonempty_runs rs" and "iter_at rs i m" and "m < length (expand rs)"
  shows "\<exists>j. iter_post_incr rs i = Some (j, i) \<and> iter_at rs j (Suc m)"
  using iter_incr_at [OF assms(2,1,3)] by (auto simp: iter_post_incr_def)

theorem rle_iterator_post_increment_witness:
  "\<exists>j. iter_post_incr (rle_runs sample_rle) (rle_iter_begin sample_rle)
      = Some (j, rle_iter_begin sample_rle) \<and> iter_at (rle_runs sample_rle) j 1"
  using rle_iterator_post_increment [of "rle_runs sample_rle" "rle_iter_begin sample_rle" 0]
  by (simp add: sample_rle_def iter_at_def split_point_def rle_iter_begin_def replicate_numeral)

end
