(* ===== verification/Utils.thy ===== *)
theory Utils
  imports Prelude
begin

text \<open>
  The string helpers of \<^verbatim>\<open>types/utils.cpp\<close> and the small numeric helpers of
  \<^verbatim>\<open>types/inc/utils.hpp\<close>: digit conversion, splitting at a delimiter, the clean-up of pasted
  text and byte order swaps. Index loops over a string are recursive functions over the same indices;
  each is proved against a plain recursion over the characters.
\<close>

unbundle bit_operations_syntax

section \<open>Literals\<close>

definition wide :: "string \<Rightarrow> wstring" where
  "wide = map of_char"

section \<open>Numbers in strings\<close>

definition isNumber :: "wchar \<Rightarrow> bool" where
  "isNumber wch \<longleftrightarrow> wch \<ge> 0x30 \<and> wch \<le> 0x39"

definition HexToUint :: "wchar \<Rightarrow> bool \<times> 32 word" where
  "HexToUint wch =
     (if wch \<ge> 0x30 \<and> wch \<le> 0x39 then (True, ucast wch - 0x30)
      else if wch \<ge> 0x41 \<and> wch \<le> 0x46 then (True, (ucast wch - 0x41) + 10)
      else if wch \<ge> 0x61 \<and> wch \<le> 0x66 then (True, (ucast wch - 0x61) + 10)
      else (False, 0))"

fun string_to_uint_loop :: "wstring \<Rightarrow> 32 word \<Rightarrow> 32 word option" where
  "string_to_uint_loop [] result = Some result"
| "string_to_uint_loop (wch # wstr) result =
     (if isNumber wch then string_to_uint_loop wstr (result * 10 + (ucast wch - 0x30)) else None)"

definition StringToUint :: "wstring \<Rightarrow> 32 word option" where
  "StringToUint wstr = (if length wstr < 1 then None else string_to_uint_loop wstr 0)"

section \<open>Splitting\<close>

text \<open>\<^verbatim>\<open>std::wstring_view::find(ch, pos)\<close>.\<close>

definition wstr_find :: "wchar \<Rightarrow> wstring \<Rightarrow> nat \<Rightarrow> nat option" where
  "wstr_find ch wstr pos =
     (let n = pos + length (takeWhile (\<lambda>c. c \<noteq> ch) (drop pos wstr))
      in if n < length wstr then Some n else None)"

function split_loop :: "wstring \<Rightarrow> wchar \<Rightarrow> nat \<Rightarrow> wstring list" where
  "split_loop wstr delimiter current =
     (if current < length wstr then
        (case wstr_find delimiter wstr current of
           None \<Rightarrow> [drop current wstr]
         | Some nextDelimiter \<Rightarrow>
             (let len = nextDelimiter - current;
                  part = take len (drop current wstr);
                  current' = current + (len + 1)
              in if current' \<ge> length wstr then [part, []]
                 else part # split_loop wstr delimiter current'))
      else [])"
  by pat_completeness auto
termination
  by (relation "measure (\<lambda>(wstr, delimiter, current). length wstr - current)") auto

declare split_loop.simps [simp del]

definition SplitString :: "wstring \<Rightarrow> wchar \<Rightarrow> wstring list" where
  "SplitString wstr delimiter = split_loop wstr delimiter 0"

section \<open>Pasted text\<close>

type_synonym FilterOption = "32 word"

definition CarriageReturnNewline :: FilterOption where "CarriageReturnNewline = 1"
definition ControlCodes :: FilterOption where "ControlCodes = 2"

definition is_flag_set :: "32 word \<Rightarrow> 32 word \<Rightarrow> bool" where
  "is_flag_set val flag \<longleftrightarrow> val AND flag \<noteq> 0"

definition isControlCode :: "wchar \<Rightarrow> bool" where
  "isControlCode c =
     (if c \<ge> 0x20 \<and> c < 0x7f then False
      else if c > 0x9f then False
      else c \<noteq> 0x09 \<and> c \<noteq> 0x0a \<and> c \<noteq> 0x0d)"

function paste_loop ::
  "wstring \<Rightarrow> FilterOption \<Rightarrow> nat \<Rightarrow> nat \<Rightarrow> wstring \<Rightarrow> nat \<times> wstring" where
  "paste_loop wstr option pos start filtered =
     (if pos < length wstr then
        (let c = wstr ! pos in
         if is_flag_set option CarriageReturnNewline \<and> c = 0x0a then
           (let filtered = filtered @ take (pos - start) (drop start wstr);
                filtered = (if \<not> (pos > 0 \<and> wstr ! (pos - 1) = 0x0d) then filtered @ [0x0d] else filtered)
            in paste_loop wstr option (pos + 1) (pos + 1) filtered)
         else if is_flag_set option ControlCodes \<and> isControlCode c then
           paste_loop wstr option (pos + 1) (pos + 1) (filtered @ take (pos - start) (drop start wstr))
         else paste_loop wstr option (pos + 1) start filtered)
      else (start, filtered))"
  by pat_completeness auto
termination
  by (relation "measure (\<lambda>(wstr, option, pos, start, filtered). length wstr - pos)") auto

declare paste_loop.simps [simp del]

definition FilterStringForPaste :: "wstring \<Rightarrow> FilterOption \<Rightarrow> wstring" where
  "FilterStringForPaste wstr option =
     (case paste_loop wstr option 0 0 [] of
        (start, filtered) \<Rightarrow> if start = 0 then wstr else filtered @ drop start wstr)"

section \<open>Small numeric helpers\<close>

text \<open>\<open>val\<close> is a \<^verbatim>\<open>long\<close> and \<open>mn\<close> a \<^verbatim>\<open>short\<close>.\<close>

definition ClampToShortMax :: "int \<Rightarrow> int \<Rightarrow> int" where
  "ClampToShortMax val mn =
     to_short (if val < mn then mn else if 32767 < val then 32767 else val)"

definition EndianSwap16 :: "16 word \<Rightarrow> 16 word" where
  "EndianSwap16 val = (drop_bit 8 (val AND 0xFF00)) OR (push_bit 8 (val AND 0x00FF))"

definition EndianSwap32 :: "32 word \<Rightarrow> 32 word" where
  "EndianSwap32 val =
     (drop_bit 24 (val AND 0xFF000000)) OR (drop_bit 8 (val AND 0x00FF0000)) OR
     (push_bit 8 (val AND 0x0000FF00)) OR (push_bit 24 (val AND 0x000000FF))"

section \<open>Digit strings\<close>

definition digits_value :: "wstring \<Rightarrow> nat" where
  "digits_value = foldl (\<lambda>n c. n * 10 + (unat c - 0x30)) 0"

lemma digit_word:
  assumes "isNumber c"
  shows "(ucast c :: 32 word) - 0x30 = word_of_nat (unat c - 0x30)"
proof -
  have le: "0x30 \<le> unat c" using assms by (simp add: isNumber_def word_le_nat_alt)
  have "word_of_nat (unat c - 0x30) = (word_of_nat (unat c) - word_of_nat 0x30 :: 32 word)"
    using le by (rule of_nat_diff)
  then show ?thesis by (simp add: unsigned_ucast_eq)
qed

lemma string_to_uint_loop_eq:
  "string_to_uint_loop wstr (word_of_nat n) =
     (if list_all isNumber wstr
      then Some (word_of_nat (foldl (\<lambda>n c. n * 10 + (unat c - 0x30)) n wstr)) else None)"
proof (induction wstr arbitrary: n)
  case (Cons c wstr)
  show ?case
    using Cons.IH [of "n * 10 + (unat c - 0x30)"] digit_word [of c] by simp
qed simp

lemma StringToUint_eq:
  "StringToUint wstr =
     (if wstr \<noteq> [] \<and> list_all isNumber wstr then Some (word_of_nat (digits_value wstr)) else None)"
  using string_to_uint_loop_eq [of wstr 0]
  by (cases wstr) (simp_all add: StringToUint_def digits_value_def)

section \<open>Splitting, by characters\<close>

fun join :: "wchar \<Rightarrow> wstring list \<Rightarrow> wstring" where
  "join d [] = []"
| "join d [p] = p"
| "join d (p # q # ps) = p @ d # join d (q # ps)"

fun split_chars :: "wchar \<Rightarrow> wstring \<Rightarrow> wstring list" where
  "split_chars d [] = [[]]"
| "split_chars d (c # cs) =
     (if c = d then [] # split_chars d cs
      else (case split_chars d cs of [] \<Rightarrow> [] | p # ps \<Rightarrow> (c # p) # ps))"

lemma split_chars_not_Nil [simp]: "split_chars d cs \<noteq> []"
  by (induction cs) (auto split: list.splits)

lemma join_split_chars: "join d (split_chars d cs) = cs"
proof (induction cs)
  case (Cons c cs)
  obtain p ps where "split_chars d cs = p # ps" by (cases "split_chars d cs") auto
  with Cons show ?case by (cases ps) auto
qed simp

lemma split_chars_parts: "\<forall>p \<in> set (split_chars d cs). d \<notin> set p"
proof (induction cs)
  case (Cons c cs)
  then show ?case by (cases "split_chars d cs") auto
qed simp

lemma join_Cons: "ps \<noteq> [] \<Longrightarrow> join d (p # ps) = p @ d # join d ps"
  by (cases ps) auto

lemma split_chars_no_delimiter: "d \<notin> set cs \<Longrightarrow> split_chars d cs = [cs]"
  by (induction cs) auto

lemma split_chars_delimiter: "d \<notin> set p \<Longrightarrow> split_chars d (p @ d # cs) = p # split_chars d cs"
  by (induction p) auto

text \<open>The parts are determined by joining back and by not containing the delimiter.\<close>

lemma split_chars_join:
  "\<lbrakk>ps \<noteq> []; \<forall>p \<in> set ps. d \<notin> set p\<rbrakk> \<Longrightarrow> split_chars d (join d ps) = ps"
  by (induction d ps rule: join.induct) (auto simp: split_chars_no_delimiter split_chars_delimiter)

lemma wstr_find_None: "wstr_find ch wstr pos = None \<longleftrightarrow> ch \<notin> set (drop pos wstr)"
proof (cases "ch \<in> set (drop pos wstr)")
  case True
  then have "length (takeWhile (\<lambda>c. c \<noteq> ch) (drop pos wstr)) < length (drop pos wstr)"
    by (metis (mono_tags, lifting) length_takeWhile_le le_neq_implies_less set_takeWhileD takeWhile_eq_take
        take_all_iff order_refl)
  with True show ?thesis by (auto simp: wstr_find_def Let_def)
next
  case False
  then have "takeWhile (\<lambda>c. c \<noteq> ch) (drop pos wstr) = drop pos wstr"
    by (auto simp: takeWhile_eq_all_conv)
  then have "wstr_find ch wstr pos = None" unfolding wstr_find_def Let_def by (simp only:) simp
  with False show ?thesis by simp
qed

lemma wstr_find_Some:
  assumes "wstr_find ch wstr pos = Some n"
  shows "pos \<le> n" "n < length wstr" "wstr ! n = ch" "ch \<notin> set (take (n - pos) (drop pos wstr))"
proof -
  let ?p = "takeWhile (\<lambda>c. c \<noteq> ch) (drop pos wstr)"
  have n: "n = pos + length ?p" "n < length wstr"
    using assms by (auto simp: wstr_find_def Let_def split: if_splits)
  then show "pos \<le> n" "n < length wstr" by simp_all
  have "length ?p < length (drop pos wstr)" using n by simp
  from nth_length_takeWhile [OF this] show "wstr ! n = ch" using n by simp
  have "take (n - pos) (drop pos wstr) = ?p" using n by (simp add: takeWhile_eq_take [symmetric])
  then show "ch \<notin> set (take (n - pos) (drop pos wstr))" by (auto dest: set_takeWhileD)
qed

lemma split_loop_eq:
  "current < length wstr \<Longrightarrow> split_loop wstr d current = split_chars d (drop current wstr)"
proof (induction wstr d current rule: split_loop.induct)
  case (1 wstr d current)
  show ?case
  proof (cases "wstr_find d wstr current")
    case None
    then have "d \<notin> set (drop current wstr)" using wstr_find_None by metis
    then have "split_chars d (drop current wstr) = [drop current wstr]"
      by (rule split_chars_no_delimiter)
    moreover have "split_loop wstr d current = [drop current wstr]"
      using None 1(2) by (subst split_loop.simps) simp
    ultimately show ?thesis by simp
  next
    case (Some n)
    let ?part = "take (n - current) (drop current wstr)"
    note n = wstr_find_Some [OF Some]
    have "drop current wstr = ?part @ drop (n - current) (drop current wstr)"
      by (rule append_take_drop_id [symmetric])
    also have "drop (n - current) (drop current wstr) = d # drop (Suc n) wstr"
      using n(1,3) Cons_nth_drop_Suc [OF n(2)] by simp
    finally have eq: "split_chars d (drop current wstr) = ?part # split_chars d (drop (Suc n) wstr)"
      using split_chars_delimiter [OF n(4)] by metis
    have cur: "current + (n - current + 1) = Suc n" using n by simp
    show ?thesis
    proof (cases "Suc n < length wstr")
      case True
      then show ?thesis
        using 1 Some cur eq by (simp add: split_loop.simps [of wstr d current])
    next
      case False
      then have "split_loop wstr d current = [?part, []]"
        using 1(2) Some cur by (simp add: split_loop.simps [of wstr d current])
      moreover have "drop (Suc n) wstr = []" using False by simp
      ultimately show ?thesis using eq by simp
    qed
  qed
qed

lemma SplitString_eq: "SplitString wstr d = (if wstr = [] then [] else split_chars d wstr)"
  by (simp add: SplitString_def split_loop_eq split_loop.simps [of "[]"])

section \<open>Pasted text, by characters\<close>

fun paste_chars :: "FilterOption \<Rightarrow> wchar option \<Rightarrow> wstring \<Rightarrow> wstring" where
  "paste_chars option prev [] = []"
| "paste_chars option prev (c # cs) =
     (if is_flag_set option CarriageReturnNewline \<and> c = 0x0a
      then (if prev = Some 0x0d then [] else [0x0d])
      else if is_flag_set option ControlCodes \<and> isControlCode c then []
      else [c]) @ paste_chars option (Some c) cs"

definition prev_char :: "wstring \<Rightarrow> nat \<Rightarrow> wchar option" where
  "prev_char wstr pos = (if pos > 0 then Some (wstr ! (pos - 1)) else None)"

lemma paste_loop_eq:
  assumes "start \<le> pos" "pos \<le> length wstr"
  shows "(case paste_loop wstr option pos start filtered of (b, f) \<Rightarrow> f @ drop b wstr) =
     filtered @ take (pos - start) (drop start wstr) @ paste_chars option (prev_char wstr pos) (drop pos wstr)"
  using assms
proof (induction wstr option pos start filtered rule: paste_loop.induct)
  case (1 wstr option pos start filtered)
  show ?case
  proof (cases "pos < length wstr")
    case False
    with 1(4,5) have "pos = length wstr" by simp
    moreover have "paste_loop wstr option (length wstr) start filtered = (start, filtered)"
      by (subst paste_loop.simps) simp
    ultimately show ?thesis by simp
  next
    case True
    have d: "drop pos wstr = wstr ! pos # drop (Suc pos) wstr" using True by (simp add: Cons_nth_drop_Suc)
    have p: "prev_char wstr (Suc pos) = Some (wstr ! pos)" by (simp add: prev_char_def)
    have q: "prev_char wstr pos = Some 0x0d \<longleftrightarrow> 0 < pos \<and> wstr ! (pos - Suc 0) = 0x0d"
      by (simp add: prev_char_def)
    have t: "take (Suc pos - start) (drop start wstr) = take (pos - start) (drop start wstr) @ [wstr ! pos]"
      using 1(4) True by (simp add: Suc_diff_le take_Suc_conv_app_nth)
    consider (lf) "is_flag_set option CarriageReturnNewline \<and> wstr ! pos = 0x0a"
      | (control) "\<not> (is_flag_set option CarriageReturnNewline \<and> wstr ! pos = 0x0a)"
          "is_flag_set option ControlCodes \<and> isControlCode (wstr ! pos)"
      | (other) "\<not> (is_flag_set option CarriageReturnNewline \<and> wstr ! pos = 0x0a)"
          "\<not> (is_flag_set option ControlCodes \<and> isControlCode (wstr ! pos))"
      by blast
    then show ?thesis
    proof cases
      case lf
      show ?thesis
        using 1(1) [OF True refl lf refl refl] True lf
        by (subst paste_loop.simps) (simp add: d p q Let_def)
    next
      case control
      show ?thesis
        using 1(2) [OF True refl control] True control
        by (subst paste_loop.simps) (simp only: d p q Let_def, simp add: p)
    next
      case other
      show ?thesis
        using 1(3) [OF True refl other] 1(4) True other t
        by (subst paste_loop.simps) (simp only: d p q Let_def, simp add: p)
    qed
  qed
qed

lemma paste_loop_begin:
  "fst (paste_loop wstr option pos start filtered) = 0 \<Longrightarrow>
   start = 0 \<and> snd (paste_loop wstr option pos start filtered) = filtered"
proof (induction wstr option pos start filtered rule: paste_loop.induct)
  case (1 wstr option pos start filtered)
  then show ?case
    by (auto simp: paste_loop.simps [of wstr option pos] Let_def split: if_splits)
qed

lemma FilterStringForPaste_eq: "FilterStringForPaste wstr option = paste_chars option None wstr"
proof -
  obtain b f where bf: "paste_loop wstr option 0 0 [] = (b, f)" by fastforce
  have eq: "f @ drop b wstr = paste_chars option None wstr"
    using paste_loop_eq [of 0 0 wstr option "[]"] bf by (simp add: prev_char_def)
  moreover have "f = []" if "b = 0" using paste_loop_begin [of wstr option 0 0 "[]"] bf that by simp
  ultimately show ?thesis using bf by (auto simp: FilterStringForPaste_def)
qed

lemma paste_chars_set:
  "c \<in> set (paste_chars option prev wstr) \<Longrightarrow>
   (is_flag_set option CarriageReturnNewline \<longrightarrow> c \<noteq> 0x0a) \<and>
   (is_flag_set option ControlCodes \<longrightarrow> \<not> isControlCode c) \<and>
   (c \<in> set wstr \<or> c = 0x0d \<and> is_flag_set option CarriageReturnNewline \<and> 0x0a \<in> set wstr)"
proof (induction option prev wstr rule: paste_chars.induct)
  case (2 option prev d cs)
  have cr: "\<not> isControlCode 0x0d" by (simp add: isControlCode_def)
  from 2(2) consider "c \<in> set (paste_chars option (Some d) cs)"
    | "is_flag_set option CarriageReturnNewline" "d = 0x0a" "c = 0x0d"
    | "\<not> (is_flag_set option CarriageReturnNewline \<and> d = 0x0a)"
      "\<not> (is_flag_set option ControlCodes \<and> isControlCode d)" "c = d"
    by (auto split: if_splits)
  then show ?case
  proof cases
    case 1
    then show ?thesis using 2(1) by auto
  qed (use cr in auto)
qed simp

lemma paste_chars_clean:
  "\<lbrakk>is_flag_set option CarriageReturnNewline \<Longrightarrow> 0x0a \<notin> set wstr;
    is_flag_set option ControlCodes \<Longrightarrow> \<forall>c \<in> set wstr. \<not> isControlCode c\<rbrakk> \<Longrightarrow>
   paste_chars option prev wstr = wstr"
  by (induction option prev wstr rule: paste_chars.induct) auto

section \<open>Byte order\<close>

lemma EndianSwap16_involution: "EndianSwap16 (EndianSwap16 v) = v"
proof (rule bit_word_eqI)
  fix n :: nat
  assume "n < LENGTH(16)"
  then have "n \<in> set [0,1,2,3,4,5,6,7,8,9,10,11,12,13,14,15]" by (simp, presburger)
  then show "bit (EndianSwap16 (EndianSwap16 v)) n = bit v n"
    by (simp only: list.set insert_iff empty_iff simp_thms) (elim disjE; simp add: EndianSwap16_def bit_simps)
qed

lemma EndianSwap32_involution: "EndianSwap32 (EndianSwap32 v) = v"
proof (rule bit_word_eqI)
  fix n :: nat
  assume "n < LENGTH(32)"
  then have "n \<in> set [0,1,2,3,4,5,6,7,8,9,10,11,12,13,14,15,16,17,18,19,20,21,22,23,24,25,26,27,28,29,30,31]"
    by (simp, presburger)
  then show "bit (EndianSwap32 (EndianSwap32 v)) n = bit v n"
    by (simp only: list.set insert_iff empty_iff simp_thms) (elim disjE; simp add: EndianSwap32_def bit_simps)
qed

end
