(* ===== verification/Color_Tables.thy ===== *)
theory Color_Tables
  imports Prelude
begin

text \<open>
  The colour type \<^verbatim>\<open>til::color\<close> of \<^verbatim>\<open>inc/til/color.h\<close>, the constant tables of
  \<^verbatim>\<open>types/colorTable.cpp\<close>, and the sorted lookup of \<^verbatim>\<open>inc/til/static_map.h\<close>: the binary
  search agrees with an association list, for every table whose keys ascend.
\<close>

unbundle bit_operations_syntax

section \<open>Colours\<close>

record til_color =
  color_r :: "8 word"
  color_g :: "8 word"
  color_b :: "8 word"
  color_a :: "8 word"

type_synonym COLORREF = "32 word"

definition color_rgba :: "8 word \<Rightarrow> 8 word \<Rightarrow> 8 word \<Rightarrow> 8 word \<Rightarrow> til_color" where
  "color_rgba r g b a = \<lparr>color_r = r, color_g = g, color_b = b, color_a = a\<rparr>"

definition color_rgb :: "8 word \<Rightarrow> 8 word \<Rightarrow> 8 word \<Rightarrow> til_color" where
  "color_rgb r g b = \<lparr>color_r = r, color_g = g, color_b = b, color_a = 255\<rparr>"

text \<open>The other view of the union, on a little-endian machine.\<close>

definition abgr :: "til_color \<Rightarrow> 32 word" where
  "abgr c = ucast (color_r c) OR push_bit 8 (ucast (color_g c)) OR
            push_bit 16 (ucast (color_b c)) OR push_bit 24 (ucast (color_a c))"

definition color_of_abgr :: "32 word \<Rightarrow> til_color" where
  "color_of_abgr w =
     \<lparr>color_r = ucast w, color_g = ucast (drop_bit 8 w), color_b = ucast (drop_bit 16 w),
      color_a = ucast (drop_bit 24 w)\<rparr>"

definition color_of_COLORREF :: "COLORREF \<Rightarrow> til_color" where
  "color_of_COLORREF c = color_of_abgr (c OR 0xFF000000)"

definition COLORREF_of_color :: "til_color \<Rightarrow> COLORREF" where
  "COLORREF_of_color c = abgr c AND 0x00FFFFFF"

definition with_alpha :: "til_color \<Rightarrow> 8 word \<Rightarrow> til_color" where
  "with_alpha c alpha = color_rgba (color_r c) (color_g c) (color_b c) alpha"

definition color_eq :: "til_color \<Rightarrow> til_color \<Rightarrow> bool" where
  "color_eq c d \<longleftrightarrow> abgr c = abgr d"

section \<open>Tables\<close>

definition campbellColorTable :: "til_color list" where
  "campbellColorTable =
     [
      color_rgb 0x0C 0x0C 0x0C, color_rgb 0xC5 0x0F 0x1F, color_rgb 0x13 0xA1 0x0E,
      color_rgb 0xC1 0x9C 0x00, color_rgb 0x00 0x37 0xDA, color_rgb 0x88 0x17 0x98,
      color_rgb 0x3A 0x96 0xDD, color_rgb 0xCC 0xCC 0xCC, color_rgb 0x76 0x76 0x76,
      color_rgb 0xE7 0x48 0x56, color_rgb 0x16 0xC6 0x0C, color_rgb 0xF9 0xF1 0xA5,
      color_rgb 0x3B 0x78 0xFF, color_rgb 0xB4 0x00 0x9E, color_rgb 0x61 0xD6 0xD6,
      color_rgb 0xF2 0xF2 0xF2]"

definition standardXterm256ColorTable :: "til_color list" where
  "standardXterm256ColorTable =
     [
      color_rgb 0x00 0x00 0x00, color_rgb 0x80 0x00 0x00, color_rgb 0x00 0x80 0x00,
      color_rgb 0x80 0x80 0x00, color_rgb 0x00 0x00 0x80, color_rgb 0x80 0x00 0x80,
      color_rgb 0x00 0x80 0x80, color_rgb 0xC0 0xC0 0xC0, color_rgb 0x80 0x80 0x80,
      color_rgb 0xFF 0x00 0x00, color_rgb 0x00 0xFF 0x00, color_rgb 0xFF 0xFF 0x00,
      color_rgb 0x00 0x00 0xFF, color_rgb 0xFF 0x00 0xFF, color_rgb 0x00 0xFF 0xFF,
      color_rgb 0xFF 0xFF 0xFF, color_rgb 0x00 0x00 0x00, color_rgb 0x00 0x00 0x5F,
      color_rgb 0x00 0x00 0x87, color_rgb 0x00 0x00 0xAF, color_rgb 0x00 0x00 0xD7,
      color_rgb 0x00 0x00 0xFF, color_rgb 0x00 0x5F 0x00, color_rgb 0x00 0x5F 0x5F,
      color_rgb 0x00 0x5F 0x87, color_rgb 0x00 0x5F 0xAF, color_rgb 0x00 0x5F 0xD7,
      color_rgb 0x00 0x5F 0xFF, color_rgb 0x00 0x87 0x00, color_rgb 0x00 0x87 0x5F,
      color_rgb 0x00 0x87 0x87, color_rgb 0x00 0x87 0xAF, color_rgb 0x00 0x87 0xD7,
      color_rgb 0x00 0x87 0xFF, color_rgb 0x00 0xAF 0x00, color_rgb 0x00 0xAF 0x5F,
      color_rgb 0x00 0xAF 0x87, color_rgb 0x00 0xAF 0xAF, color_rgb 0x00 0xAF 0xD7,
      color_rgb 0x00 0xAF 0xFF, color_rgb 0x00 0xD7 0x00, color_rgb 0x00 0xD7 0x5F,
      color_rgb 0x00 0xD7 0x87, color_rgb 0x00 0xD7 0xAF, color_rgb 0x00 0xD7 0xD7,
      color_rgb 0x00 0xD7 0xFF, color_rgb 0x00 0xFF 0x00, color_rgb 0x00 0xFF 0x5F,
      color_rgb 0x00 0xFF 0x87, color_rgb 0x00 0xFF 0xAF, color_rgb 0x00 0xFF 0xD7,
      color_rgb 0x00 0xFF 0xFF, color_rgb 0x5F 0x00 0x00, color_rgb 0x5F 0x00 0x5F,
      color_rgb 0x5F 0x00 0x87, color_rgb 0x5F 0x00 0xAF, color_rgb 0x5F 0x00 0xD7,
      color_rgb 0x5F 0x00 0xFF, color_rgb 0x5F 0x5F 0x00, color_rgb 0x5F 0x5F 0x5F,
      color_rgb 0x5F 0x5F 0x87, color_rgb 0x5F 0x5F 0xAF, color_rgb 0x5F 0x5F 0xD7,
      color_rgb 0x5F 0x5F 0xFF, color_rgb 0x5F 0x87 0x00, color_rgb 0x5F 0x87 0x5F,
      color_rgb 0x5F 0x87 0x87, color_rgb 0x5F 0x87 0xAF, color_rgb 0x5F 0x87 0xD7,
      color_rgb 0x5F 0x87 0xFF, color_rgb 0x5F 0xAF 0x00, color_rgb 0x5F 0xAF 0x5F,
      color_rgb 0x5F 0xAF 0x87, color_rgb 0x5F 0xAF 0xAF, color_rgb 0x5F 0xAF 0xD7,
      color_rgb 0x5F 0xAF 0xFF, color_rgb 0x5F 0xD7 0x00, color_rgb 0x5F 0xD7 0x5F,
      color_rgb 0x5F 0xD7 0x87, color_rgb 0x5F 0xD7 0xAF, color_rgb 0x5F 0xD7 0xD7,
      color_rgb 0x5F 0xD7 0xFF, color_rgb 0x5F 0xFF 0x00, color_rgb 0x5F 0xFF 0x5F,
      color_rgb 0x5F 0xFF 0x87, color_rgb 0x5F 0xFF 0xAF, color_rgb 0x5F 0xFF 0xD7,
      color_rgb 0x5F 0xFF 0xFF, color_rgb 0x87 0x00 0x00, color_rgb 0x87 0x00 0x5F,
      color_rgb 0x87 0x00 0x87, color_rgb 0x87 0x00 0xAF, color_rgb 0x87 0x00 0xD7,
      color_rgb 0x87 0x00 0xFF, color_rgb 0x87 0x5F 0x00, color_rgb 0x87 0x5F 0x5F,
      color_rgb 0x87 0x5F 0x87, color_rgb 0x87 0x5F 0xAF, color_rgb 0x87 0x5F 0xD7,
      color_rgb 0x87 0x5F 0xFF, color_rgb 0x87 0x87 0x00, color_rgb 0x87 0x87 0x5F,
      color_rgb 0x87 0x87 0x87, color_rgb 0x87 0x87 0xAF, color_rgb 0x87 0x87 0xD7,
      color_rgb 0x87 0x87 0xFF, color_rgb 0x87 0xAF 0x00, color_rgb 0x87 0xAF 0x5F,
      color_rgb 0x87 0xAF 0x87, color_rgb 0x87 0xAF 0xAF, color_rgb 0x87 0xAF 0xD7,
      color_rgb 0x87 0xAF 0xFF, color_rgb 0x87 0xD7 0x00, color_rgb 0x87 0xD7 0x5F,
      color_rgb 0x87 0xD7 0x87, color_rgb 0x87 0xD7 0xAF, color_rgb 0x87 0xD7 0xD7,
      color_rgb 0x87 0xD7 0xFF, color_rgb 0x87 0xFF 0x00, color_rgb 0x87 0xFF 0x5F,
      color_rgb 0x87 0xFF 0x87, color_rgb 0x87 0xFF 0xAF, color_rgb 0x87 0xFF 0xD7,
      color_rgb 0x87 0xFF 0xFF, color_rgb 0xAF 0x00 0x00, color_rgb 0xAF 0x00 0x5F,
      color_rgb 0xAF 0x00 0x87, color_rgb 0xAF 0x00 0xAF, color_rgb 0xAF 0x00 0xD7,
      color_rgb 0xAF 0x00 0xFF, color_rgb 0xAF 0x5F 0x00, color_rgb 0xAF 0x5F 0x5F,
      color_rgb 0xAF 0x5F 0x87, color_rgb 0xAF 0x5F 0xAF, color_rgb 0xAF 0x5F 0xD7,
      color_rgb 0xAF 0x5F 0xFF, color_rgb 0xAF 0x87 0x00, color_rgb 0xAF 0x87 0x5F,
      color_rgb 0xAF 0x87 0x87, color_rgb 0xAF 0x87 0xAF, color_rgb 0xAF 0x87 0xD7,
      color_rgb 0xAF 0x87 0xFF, color_rgb 0xAF 0xAF 0x00, color_rgb 0xAF 0xAF 0x5F,
      color_rgb 0xAF 0xAF 0x87, color_rgb 0xAF 0xAF 0xAF, color_rgb 0xAF 0xAF 0xD7,
      color_rgb 0xAF 0xAF 0xFF, color_rgb 0xAF 0xD7 0x00, color_rgb 0xAF 0xD7 0x5F,
      color_rgb 0xAF 0xD7 0x87, color_rgb 0xAF 0xD7 0xAF, color_rgb 0xAF 0xD7 0xD7,
      color_rgb 0xAF 0xD7 0xFF, color_rgb 0xAF 0xFF 0x00, color_rgb 0xAF 0xFF 0x5F,
      color_rgb 0xAF 0xFF 0x87, color_rgb 0xAF 0xFF 0xAF, color_rgb 0xAF 0xFF 0xD7,
      color_rgb 0xAF 0xFF 0xFF, color_rgb 0xD7 0x00 0x00, color_rgb 0xD7 0x00 0x5F,
      color_rgb 0xD7 0x00 0x87, color_rgb 0xD7 0x00 0xAF, color_rgb 0xD7 0x00 0xD7,
      color_rgb 0xD7 0x00 0xFF, color_rgb 0xD7 0x5F 0x00, color_rgb 0xD7 0x5F 0x5F,
      color_rgb 0xD7 0x5F 0x87, color_rgb 0xD7 0x5F 0xAF, color_rgb 0xD7 0x5F 0xD7,
      color_rgb 0xD7 0x5F 0xFF, color_rgb 0xD7 0x87 0x00, color_rgb 0xD7 0x87 0x5F,
      color_rgb 0xD7 0x87 0x87, color_rgb 0xD7 0x87 0xAF, color_rgb 0xD7 0x87 0xD7,
      color_rgb 0xD7 0x87 0xFF, color_rgb 0xD7 0xAF 0x00, color_rgb 0xD7 0xAF 0x5F,
      color_rgb 0xD7 0xAF 0x87, color_rgb 0xD7 0xAF 0xAF, color_rgb 0xD7 0xAF 0xD7,
      color_rgb 0xD7 0xAF 0xFF, color_rgb 0xD7 0xD7 0x00, color_rgb 0xD7 0xD7 0x5F,
      color_rgb 0xD7 0xD7 0x87, color_rgb 0xD7 0xD7 0xAF, color_rgb 0xD7 0xD7 0xD7,
      color_rgb 0xD7 0xD7 0xFF, color_rgb 0xD7 0xFF 0x00, color_rgb 0xD7 0xFF 0x5F,
      color_rgb 0xD7 0xFF 0x87, color_rgb 0xD7 0xFF 0xAF, color_rgb 0xD7 0xFF 0xD7,
      color_rgb 0xD7 0xFF 0xFF, color_rgb 0xFF 0x00 0x00, color_rgb 0xFF 0x00 0x5F,
      color_rgb 0xFF 0x00 0x87, color_rgb 0xFF 0x00 0xAF, color_rgb 0xFF 0x00 0xD7,
      color_rgb 0xFF 0x00 0xFF, color_rgb 0xFF 0x5F 0x00, color_rgb 0xFF 0x5F 0x5F,
      color_rgb 0xFF 0x5F 0x87, color_rgb 0xFF 0x5F 0xAF, color_rgb 0xFF 0x5F 0xD7,
      color_rgb 0xFF 0x5F 0xFF, color_rgb 0xFF 0x87 0x00, color_rgb 0xFF 0x87 0x5F,
      color_rgb 0xFF 0x87 0x87, color_rgb 0xFF 0x87 0xAF, color_rgb 0xFF 0x87 0xD7,
      color_rgb 0xFF 0x87 0xFF, color_rgb 0xFF 0xAF 0x00, color_rgb 0xFF 0xAF 0x5F,
      color_rgb 0xFF 0xAF 0x87, color_rgb 0xFF 0xAF 0xAF, color_rgb 0xFF 0xAF 0xD7,
      color_rgb 0xFF 0xAF 0xFF, color_rgb 0xFF 0xD7 0x00, color_rgb 0xFF 0xD7 0x5F,
      color_rgb 0xFF 0xD7 0x87, color_rgb 0xFF 0xD7 0xAF, color_rgb 0xFF 0xD7 0xD7,
      color_rgb 0xFF 0xD7 0xFF, color_rgb 0xFF 0xFF 0x00, color_rgb 0xFF 0xFF 0x5F,
      color_rgb 0xFF 0xFF 0x87, color_rgb 0xFF 0xFF 0xAF, color_rgb 0xFF 0xFF 0xD7,
      color_rgb 0xFF 0xFF 0xFF, color_rgb 0x08 0x08 0x08, color_rgb 0x12 0x12 0x12,
      color_rgb 0x1C 0x1C 0x1C, color_rgb 0x26 0x26 0x26, color_rgb 0x30 0x30 0x30,
      color_rgb 0x3A 0x3A 0x3A, color_rgb 0x44 0x44 0x44, color_rgb 0x4E 0x4E 0x4E,
      color_rgb 0x58 0x58 0x58, color_rgb 0x62 0x62 0x62, color_rgb 0x6C 0x6C 0x6C,
      color_rgb 0x76 0x76 0x76, color_rgb 0x80 0x80 0x80, color_rgb 0x8A 0x8A 0x8A,
      color_rgb 0x94 0x94 0x94, color_rgb 0x9E 0x9E 0x9E, color_rgb 0xA8 0xA8 0xA8,
      color_rgb 0xB2 0xB2 0xB2, color_rgb 0xBC 0xBC 0xBC, color_rgb 0xC6 0xC6 0xC6,
      color_rgb 0xD0 0xD0 0xD0, color_rgb 0xDA 0xDA 0xDA, color_rgb 0xE4 0xE4 0xE4,
      color_rgb 0xEE 0xEE 0xEE]"

definition xorgAppVariantColorTable :: "(string \<times> til_color list) list" where
  "xorgAppVariantColorTable =
     [
      (''antiquewhite'', [color_rgb 250 235 215, color_rgb 255 239 219, color_rgb 238 223 204, color_rgb 205 192 176, color_rgb 139 131 120]),
      (''aquamarine'', [color_rgb 127 255 212, color_rgb 127 255 212, color_rgb 118 238 198, color_rgb 102 205 170, color_rgb 69 139 116]),
      (''azure'', [color_rgb 240 255 255, color_rgb 240 255 255, color_rgb 224 238 238, color_rgb 193 205 205, color_rgb 131 139 139]),
      (''bisque'', [color_rgb 255 228 196, color_rgb 255 228 196, color_rgb 238 213 183, color_rgb 205 183 158, color_rgb 139 125 107]),
      (''blue'', [color_rgb 0 0 255, color_rgb 0 0 255, color_rgb 0 0 238, color_rgb 0 0 205, color_rgb 0 0 139]),
      (''brown'', [color_rgb 165 42 42, color_rgb 255 64 64, color_rgb 238 59 59, color_rgb 205 51 51, color_rgb 139 35 35]),
      (''burlywood'', [color_rgb 222 184 135, color_rgb 255 211 155, color_rgb 238 197 145, color_rgb 205 170 125, color_rgb 139 115 85]),
      (''cadetblue'', [color_rgb 95 158 160, color_rgb 152 245 255, color_rgb 142 229 238, color_rgb 122 197 205, color_rgb 83 134 139]),
      (''chartreuse'', [color_rgb 127 255 0, color_rgb 127 255 0, color_rgb 118 238 0, color_rgb 102 205 0, color_rgb 69 139 0]),
      (''chocolate'', [color_rgb 210 105 30, color_rgb 255 127 36, color_rgb 238 118 33, color_rgb 205 102 29, color_rgb 139 69 19]),
      (''coral'', [color_rgb 255 127 80, color_rgb 255 114 86, color_rgb 238 106 80, color_rgb 205 91 69, color_rgb 139 62 47]),
      (''cornsilk'', [color_rgb 255 248 220, color_rgb 255 248 220, color_rgb 238 232 205, color_rgb 205 200 177, color_rgb 139 136 120]),
      (''cyan'', [color_rgb 0 255 255, color_rgb 0 255 255, color_rgb 0 238 238, color_rgb 0 205 205, color_rgb 0 139 139]),
      (''darkgoldenrod'', [color_rgb 184 134 11, color_rgb 255 185 15, color_rgb 238 173 14, color_rgb 205 149 12, color_rgb 139 101 8]),
      (''darkolivegreen'', [color_rgb 85 107 47, color_rgb 202 255 112, color_rgb 188 238 104, color_rgb 162 205 90, color_rgb 110 139 61]),
      (''darkorange'', [color_rgb 255 140 0, color_rgb 255 127 0, color_rgb 238 118 0, color_rgb 205 102 0, color_rgb 139 69 0]),
      (''darkorchid'', [color_rgb 153 50 204, color_rgb 191 62 255, color_rgb 178 58 238, color_rgb 154 50 205, color_rgb 104 34 139]),
      (''darkseagreen'', [color_rgb 143 188 143, color_rgb 193 255 193, color_rgb 180 238 180, color_rgb 155 205 155, color_rgb 105 139 105]),
      (''darkslategray'', [color_rgb 47 79 79, color_rgb 151 255 255, color_rgb 141 238 238, color_rgb 121 205 205, color_rgb 82 139 139]),
      (''deeppink'', [color_rgb 255 20 147, color_rgb 255 20 147, color_rgb 238 18 137, color_rgb 205 16 118, color_rgb 139 10 80]),
      (''deepskyblue'', [color_rgb 0 191 255, color_rgb 0 191 255, color_rgb 0 178 238, color_rgb 0 154 205, color_rgb 0 104 139]),
      (''dodgerblue'', [color_rgb 30 144 255, color_rgb 30 144 255, color_rgb 28 134 238, color_rgb 24 116 205, color_rgb 16 78 139]),
      (''firebrick'', [color_rgb 178 34 34, color_rgb 255 48 48, color_rgb 238 44 44, color_rgb 205 38 38, color_rgb 139 26 26]),
      (''gold'', [color_rgb 255 215 0, color_rgb 255 215 0, color_rgb 238 201 0, color_rgb 205 173 0, color_rgb 139 117 0]),
      (''goldenrod'', [color_rgb 218 165 32, color_rgb 255 193 37, color_rgb 238 180 34, color_rgb 205 155 29, color_rgb 139 105 20]),
      (''green'', [color_rgb 0 255 0, color_rgb 0 255 0, color_rgb 0 238 0, color_rgb 0 205 0, color_rgb 0 139 0]),
      (''honeydew'', [color_rgb 240 255 240, color_rgb 240 255 240, color_rgb 224 238 224, color_rgb 193 205 193, color_rgb 131 139 131]),
      (''hotpink'', [color_rgb 255 105 180, color_rgb 255 110 180, color_rgb 238 106 167, color_rgb 205 96 144, color_rgb 139 58 98]),
      (''indianred'', [color_rgb 205 92 92, color_rgb 255 106 106, color_rgb 238 99 99, color_rgb 205 85 85, color_rgb 139 58 58]),
      (''ivory'', [color_rgb 255 255 240, color_rgb 255 255 240, color_rgb 238 238 224, color_rgb 205 205 193, color_rgb 139 139 131]),
      (''khaki'', [color_rgb 240 230 140, color_rgb 255 246 143, color_rgb 238 230 133, color_rgb 205 198 115, color_rgb 139 134 78]),
      (''lavenderblush'', [color_rgb 255 240 245, color_rgb 255 240 245, color_rgb 238 224 229, color_rgb 205 193 197, color_rgb 139 131 134]),
      (''lemonchiffon'', [color_rgb 255 250 205, color_rgb 255 250 205, color_rgb 238 233 191, color_rgb 205 201 165, color_rgb 139 137 112]),
      (''lightblue'', [color_rgb 173 216 230, color_rgb 191 239 255, color_rgb 178 223 238, color_rgb 154 192 205, color_rgb 104 131 139]),
      (''lightcyan'', [color_rgb 224 255 255, color_rgb 224 255 255, color_rgb 209 238 238, color_rgb 180 205 205, color_rgb 122 139 139]),
      (''lightgoldenrod'', [color_rgb 238 221 130, color_rgb 255 236 139, color_rgb 238 220 130, color_rgb 205 190 112, color_rgb 139 129 76]),
      (''lightpink'', [color_rgb 255 182 193, color_rgb 255 174 185, color_rgb 238 162 173, color_rgb 205 140 149, color_rgb 139 95 101]),
      (''lightsalmon'', [color_rgb 255 160 122, color_rgb 255 160 122, color_rgb 238 149 114, color_rgb 205 129 98, color_rgb 139 87 66]),
      (''lightskyblue'', [color_rgb 135 206 250, color_rgb 176 226 255, color_rgb 164 211 238, color_rgb 141 182 205, color_rgb 96 123 139]),
      (''lightsteelblue'', [color_rgb 176 196 222, color_rgb 202 225 255, color_rgb 188 210 238, color_rgb 162 181 205, color_rgb 110 123 139]),
      (''lightyellow'', [color_rgb 255 255 224, color_rgb 255 255 224, color_rgb 238 238 209, color_rgb 205 205 180, color_rgb 139 139 122]),
      (''magenta'', [color_rgb 255 0 255, color_rgb 255 0 255, color_rgb 238 0 238, color_rgb 205 0 205, color_rgb 139 0 139]),
      (''maroon'', [color_rgb 176 48 96, color_rgb 255 52 179, color_rgb 238 48 167, color_rgb 205 41 144, color_rgb 139 28 98]),
      (''mediumorchid'', [color_rgb 186 85 211, color_rgb 224 102 255, color_rgb 209 95 238, color_rgb 180 82 205, color_rgb 122 55 139]),
      (''mediumpurple'', [color_rgb 147 112 219, color_rgb 171 130 255, color_rgb 159 121 238, color_rgb 137 104 205, color_rgb 93 71 139]),
      (''mistyrose'', [color_rgb 255 228 225, color_rgb 255 228 225, color_rgb 238 213 210, color_rgb 205 183 181, color_rgb 139 125 123]),
      (''navajowhite'', [color_rgb 255 222 173, color_rgb 255 222 173, color_rgb 238 207 161, color_rgb 205 179 139, color_rgb 139 121 94]),
      (''olivedrab'', [color_rgb 107 142 35, color_rgb 192 255 62, color_rgb 179 238 58, color_rgb 154 205 50, color_rgb 105 139 34]),
      (''orange'', [color_rgb 255 165 0, color_rgb 255 165 0, color_rgb 238 154 0, color_rgb 205 133 0, color_rgb 139 90 0]),
      (''orangered'', [color_rgb 255 69 0, color_rgb 255 69 0, color_rgb 238 64 0, color_rgb 205 55 0, color_rgb 139 37 0]),
      (''orchid'', [color_rgb 218 112 214, color_rgb 255 131 250, color_rgb 238 122 233, color_rgb 205 105 201, color_rgb 139 71 137]),
      (''palegreen'', [color_rgb 152 251 152, color_rgb 154 255 154, color_rgb 144 238 144, color_rgb 124 205 124, color_rgb 84 139 84]),
      (''paleturquoise'', [color_rgb 175 238 238, color_rgb 187 255 255, color_rgb 174 238 238, color_rgb 150 205 205, color_rgb 102 139 139]),
      (''palevioletred'', [color_rgb 219 112 147, color_rgb 255 130 171, color_rgb 238 121 159, color_rgb 205 104 137, color_rgb 139 71 93]),
      (''peachpuff'', [color_rgb 255 218 185, color_rgb 255 218 185, color_rgb 238 203 173, color_rgb 205 175 149, color_rgb 139 119 101]),
      (''pink'', [color_rgb 255 192 203, color_rgb 255 181 197, color_rgb 238 169 184, color_rgb 205 145 158, color_rgb 139 99 108]),
      (''plum'', [color_rgb 221 160 221, color_rgb 255 187 255, color_rgb 238 174 238, color_rgb 205 150 205, color_rgb 139 102 139]),
      (''purple'', [color_rgb 160 32 240, color_rgb 155 48 255, color_rgb 145 44 238, color_rgb 125 38 205, color_rgb 85 26 139]),
      (''red'', [color_rgb 255 0 0, color_rgb 255 0 0, color_rgb 238 0 0, color_rgb 205 0 0, color_rgb 139 0 0]),
      (''rosybrown'', [color_rgb 188 143 143, color_rgb 255 193 193, color_rgb 238 180 180, color_rgb 205 155 155, color_rgb 139 105 105]),
      (''royalblue'', [color_rgb 65 105 225, color_rgb 72 118 255, color_rgb 67 110 238, color_rgb 58 95 205, color_rgb 39 64 139]),
      (''salmon'', [color_rgb 250 128 114, color_rgb 255 140 105, color_rgb 238 130 98, color_rgb 205 112 84, color_rgb 139 76 57]),
      (''seagreen'', [color_rgb 46 139 87, color_rgb 84 255 159, color_rgb 78 238 148, color_rgb 67 205 128, color_rgb 46 139 87]),
      (''seashell'', [color_rgb 255 245 238, color_rgb 255 245 238, color_rgb 238 229 222, color_rgb 205 197 191, color_rgb 139 134 130]),
      (''sienna'', [color_rgb 160 82 45, color_rgb 255 130 71, color_rgb 238 121 66, color_rgb 205 104 57, color_rgb 139 71 38]),
      (''skyblue'', [color_rgb 135 206 235, color_rgb 135 206 255, color_rgb 126 192 238, color_rgb 108 166 205, color_rgb 74 112 139]),
      (''slateblue'', [color_rgb 106 90 205, color_rgb 131 111 255, color_rgb 122 103 238, color_rgb 105 89 205, color_rgb 71 60 139]),
      (''slategray'', [color_rgb 112 128 144, color_rgb 198 226 255, color_rgb 185 211 238, color_rgb 159 182 205, color_rgb 108 123 139]),
      (''snow'', [color_rgb 255 250 250, color_rgb 255 250 250, color_rgb 238 233 233, color_rgb 205 201 201, color_rgb 139 137 137]),
      (''springgreen'', [color_rgb 0 255 127, color_rgb 0 255 127, color_rgb 0 238 118, color_rgb 0 205 102, color_rgb 0 139 69]),
      (''steelblue'', [color_rgb 70 130 180, color_rgb 99 184 255, color_rgb 92 172 238, color_rgb 79 148 205, color_rgb 54 100 139]),
      (''tan'', [color_rgb 210 180 140, color_rgb 255 165 79, color_rgb 238 154 73, color_rgb 205 133 63, color_rgb 139 90 43]),
      (''thistle'', [color_rgb 216 191 216, color_rgb 255 225 255, color_rgb 238 210 238, color_rgb 205 181 205, color_rgb 139 123 139]),
      (''tomato'', [color_rgb 255 99 71, color_rgb 255 99 71, color_rgb 238 92 66, color_rgb 205 79 57, color_rgb 139 54 38]),
      (''turquoise'', [color_rgb 64 224 208, color_rgb 0 245 255, color_rgb 0 229 238, color_rgb 0 197 205, color_rgb 0 134 139]),
      (''violetred'', [color_rgb 208 32 144, color_rgb 255 62 150, color_rgb 238 58 140, color_rgb 205 50 120, color_rgb 139 34 82]),
      (''wheat'', [color_rgb 245 222 179, color_rgb 255 231 186, color_rgb 238 216 174, color_rgb 205 186 150, color_rgb 139 126 102]),
      (''yellow'', [color_rgb 255 255 0, color_rgb 255 255 0, color_rgb 238 238 0, color_rgb 205 205 0, color_rgb 139 139 0])]"

definition xorgAppColorTable :: "(string \<times> til_color) list" where
  "xorgAppColorTable =
     [
      (''aliceblue'', color_rgb 240 248 255), (''aqua'', color_rgb 0 255 255),
      (''beige'', color_rgb 245 245 220), (''black'', color_rgb 0 0 0),
      (''blanchedalmond'', color_rgb 255 235 205), (''blueviolet'', color_rgb 138 43 226),
      (''cornflowerblue'', color_rgb 100 149 237), (''crimson'', color_rgb 220 20 60),
      (''darkblue'', color_rgb 0 0 139), (''darkcyan'', color_rgb 0 139 139),
      (''darkgray'', color_rgb 169 169 169), (''darkgreen'', color_rgb 0 100 0),
      (''darkgrey'', color_rgb 169 169 169), (''darkkhaki'', color_rgb 189 183 107),
      (''darkmagenta'', color_rgb 139 0 139), (''darkred'', color_rgb 139 0 0),
      (''darksalmon'', color_rgb 233 150 122), (''darkslateblue'', color_rgb 72 61 139),
      (''darkslategrey'', color_rgb 47 79 79), (''darkturquoise'', color_rgb 0 206 209),
      (''darkviolet'', color_rgb 148 0 211), (''dimgray'', color_rgb 105 105 105),
      (''dimgrey'', color_rgb 105 105 105), (''floralwhite'', color_rgb 255 250 240),
      (''forestgreen'', color_rgb 34 139 34), (''fuchsia'', color_rgb 255 0 255),
      (''gainsboro'', color_rgb 220 220 220), (''ghostwhite'', color_rgb 248 248 255),
      (''gray'', color_rgb 190 190 190), (''greenyellow'', color_rgb 173 255 47),
      (''grey'', color_rgb 190 190 190), (''indigo'', color_rgb 75 0 130),
      (''lavender'', color_rgb 230 230 250), (''lawngreen'', color_rgb 124 252 0),
      (''lightcoral'', color_rgb 240 128 128), (''lightgoldenrodyellow'', color_rgb 250 250 210),
      (''lightgray'', color_rgb 211 211 211), (''lightgreen'', color_rgb 144 238 144),
      (''lightgrey'', color_rgb 211 211 211), (''lightseagreen'', color_rgb 32 178 170),
      (''lightslateblue'', color_rgb 132 112 255), (''lightslategray'', color_rgb 119 136 153),
      (''lightslategrey'', color_rgb 119 136 153), (''lime'', color_rgb 0 255 0),
      (''limegreen'', color_rgb 50 205 50), (''linen'', color_rgb 250 240 230),
      (''mediumaquamarine'', color_rgb 102 205 170), (''mediumblue'', color_rgb 0 0 205),
      (''mediumseagreen'', color_rgb 60 179 113), (''mediumslateblue'', color_rgb 123 104 238),
      (''mediumspringgreen'', color_rgb 0 250 154), (''mediumturquoise'', color_rgb 72 209 204),
      (''mediumvioletred'', color_rgb 199 21 133), (''midnightblue'', color_rgb 25 25 112),
      (''mintcream'', color_rgb 245 255 250), (''moccasin'', color_rgb 255 228 181),
      (''navy'', color_rgb 0 0 128), (''navyblue'', color_rgb 0 0 128),
      (''oldlace'', color_rgb 253 245 230), (''olive'', color_rgb 128 128 0),
      (''palegoldenrod'', color_rgb 238 232 170), (''papayawhip'', color_rgb 255 239 213),
      (''peru'', color_rgb 205 133 63), (''powderblue'', color_rgb 176 224 230),
      (''rebeccapurple'', color_rgb 102 51 153), (''saddlebrown'', color_rgb 139 69 19),
      (''sandybrown'', color_rgb 244 164 96), (''silver'', color_rgb 192 192 192),
      (''slategrey'', color_rgb 112 128 144), (''teal'', color_rgb 0 128 128),
      (''violet'', color_rgb 238 130 238), (''webgray'', color_rgb 128 128 128),
      (''webgreen'', color_rgb 0 128 0), (''webgrey'', color_rgb 128 128 128),
      (''webmaroon'', color_rgb 128 0 0), (''webpurple'', color_rgb 128 0 128),
      (''white'', color_rgb 255 255 255), (''whitesmoke'', color_rgb 245 245 245),
      (''x11gray'', color_rgb 190 190 190), (''x11green'', color_rgb 0 255 0),
      (''x11grey'', color_rgb 190 190 190), (''x11maroon'', color_rgb 176 48 96),
      (''x11purple'', color_rgb 160 32 240), (''yellowgreen'', color_rgb 154 205 50)]"

section \<open>Sorted lookup\<close>

text \<open>\<^verbatim>\<open>std::partition_point\<close>, halving the range.\<close>

function partition_point :: "('a \<Rightarrow> bool) \<Rightarrow> 'a list \<Rightarrow> nat \<Rightarrow> nat \<Rightarrow> nat" where
  "partition_point pred xs first count =
     (if 0 < count then
        (let half = count div 2; mid = first + half in
         if pred (xs ! mid) then partition_point pred xs (mid + 1) (count - (half + 1))
         else partition_point pred xs first half)
      else first)"
  by pat_completeness auto
termination
  by (relation "measure (\<lambda>(pred, xs, first, count). count)") auto

declare partition_point.simps [simp del]

text \<open>\<^verbatim>\<open>std::less<std::string_view>\<close>.\<close>

fun str_less :: "string \<Rightarrow> string \<Rightarrow> bool" where
  "str_less xs [] = False"
| "str_less [] (y # ys) = True"
| "str_less (x # xs) (y # ys) =
     ((of_char x :: nat) < of_char y \<or> (x = y \<and> str_less xs ys))"

definition static_map_find :: "(string \<times> 'v) list \<Rightarrow> string \<Rightarrow> nat option" where
  "static_map_find table key =
     (let iter = partition_point (\<lambda>p. str_less (fst p) key) table 0 (length table)
      in if iter = length table \<or> str_less key (fst (table ! iter)) then None else Some iter)"

definition static_map_at :: "(string \<times> 'v) list \<Rightarrow> string \<Rightarrow> 'v option" where
  "static_map_at table key =
     (case static_map_find table key of None \<Rightarrow> None | Some iter \<Rightarrow> Some (snd (table ! iter)))"

lemma str_less_irrefl [simp]: "\<not> str_less xs xs"
  by (induction xs) auto

lemma str_less_trans: "str_less xs ys \<Longrightarrow> str_less ys zs \<Longrightarrow> str_less xs zs"
proof (induction xs zs arbitrary: ys rule: str_less.induct)
  case (2 z zs)
  then show ?case by (cases ys) auto
next
  case (3 x xs z zs)
  then show ?case by (cases ys) auto
qed simp

lemma str_less_total: "str_less xs ys \<or> xs = ys \<or> str_less ys xs"
proof (induction xs ys rule: str_less.induct)
  case (1 xs)
  then show ?case by (cases xs) auto
next
  case (3 x xs y ys)
  then show ?case
    by (cases "(of_char x :: nat)" "of_char y :: nat" rule: linorder_cases) (auto simp: of_char_eq_iff)
qed simp

definition keys_ascend :: "(string \<times> 'v) list \<Rightarrow> bool" where
  "keys_ascend table \<longleftrightarrow> sorted_wrt str_less (map fst table)"

definition splits_at :: "('a \<Rightarrow> bool) \<Rightarrow> 'a list \<Rightarrow> nat \<Rightarrow> nat \<Rightarrow> bool" where
  "splits_at pred xs m n \<longleftrightarrow>
     m \<le> n \<and> n \<le> length xs \<and> (\<forall>i < m. pred (xs ! i)) \<and> (\<forall>i \<in> {n..<length xs}. \<not> pred (xs ! i))"

lemma partition_point_spec:
  assumes "\<forall>j < length xs. \<forall>i < j. pred (xs ! j) \<longrightarrow> pred (xs ! i)"
  shows "splits_at pred xs first (first + count) \<Longrightarrow>
         splits_at pred xs (partition_point pred xs first count) (partition_point pred xs first count)"
  using assms
proof (induction pred xs first count rule: partition_point.induct)
  case (1 pred xs first count)
  show ?case
  proof (cases "0 < count")
    case False
    then have "partition_point pred xs first count = first" by (subst partition_point.simps) simp
    with 1(3) False show ?thesis by simp
  next
    case True
    let ?mid = "first + count div 2"
    have mid: "?mid < first + count" "?mid < length xs" using True 1(3) by (auto simp: splits_at_def)
    show ?thesis
    proof (cases "pred (xs ! ?mid)")
      case p: True
      have "\<forall>i < ?mid + 1. pred (xs ! i)" using p 1(4) mid by (metis Suc_eq_plus1 less_Suc_eq)
      then have "splits_at pred xs (?mid + 1) (?mid + 1 + (count - (count div 2 + 1)))"
        using 1(3) True mid by (auto simp: splits_at_def)
      with 1(1) [OF True refl refl p] 1(4) True p show ?thesis
        by (subst (1 2) partition_point.simps) (simp add: Let_def)
    next
      case p: False
      have "\<forall>i \<in> {?mid..<length xs}. \<not> pred (xs ! i)" using p 1(4) mid
        by (metis atLeastLessThan_iff le_neq_implies_less)
      then have "splits_at pred xs first (first + count div 2)"
        using 1(3) mid by (auto simp: splits_at_def)
      with 1(2) [OF True refl refl p] 1(4) True p show ?thesis
        by (subst (1 2) partition_point.simps) (simp add: Let_def)
    qed
  qed
qed

lemma keys_ascend_nth:
  "\<lbrakk>keys_ascend table; i < j; j < length table\<rbrakk> \<Longrightarrow> str_less (fst (table ! i)) (fst (table ! j))"
  by (auto simp: keys_ascend_def sorted_wrt_iff_nth_less)

lemma keys_ascend_distinct: "keys_ascend table \<Longrightarrow> distinct (map fst table)"
  by (auto simp: distinct_conv_nth keys_ascend_nth) (metis keys_ascend_nth linorder_neqE_nat str_less_irrefl)

lemma static_map_find_point:
  assumes "keys_ascend table"
  shows "splits_at (\<lambda>p. str_less (fst p) key) table
           (partition_point (\<lambda>p. str_less (fst p) key) table 0 (length table))
           (partition_point (\<lambda>p. str_less (fst p) key) table 0 (length table))"
proof (rule partition_point_spec)
  show "\<forall>j < length table. \<forall>i < j. str_less (fst (table ! j)) key \<longrightarrow> str_less (fst (table ! i)) key"
    using assms keys_ascend_nth str_less_trans by blast
  show "splits_at (\<lambda>p. str_less (fst p) key) table 0 (0 + length table)" by (simp add: splits_at_def)
qed

lemma static_map_at_map_of:
  assumes asc: "keys_ascend table"
  shows "static_map_at table key = map_of table key"
proof -
  define n where "n = partition_point (\<lambda>p. str_less (fst p) key) table 0 (length table)"
  have sp: "n \<le> length table" "\<forall>i < n. str_less (fst (table ! i)) key"
    "\<forall>i \<in> {n..<length table}. \<not> str_less (fst (table ! i)) key"
    using static_map_find_point [OF asc, of key] by (simp_all add: splits_at_def n_def)
  show ?thesis
  proof (cases "n < length table \<and> fst (table ! n) = key")
    case True
    then have "map_of table key = Some (snd (table ! n))"
      using map_of_is_SomeI [OF keys_ascend_distinct [OF asc]] by (metis nth_mem prod.collapse)
    with True show ?thesis by (simp add: static_map_at_def static_map_find_def n_def [symmetric])
  next
    case False
    have none: "fst (table ! i) \<noteq> key" if "i < length table" for i
    proof (cases "i < n")
      case i: False
      show ?thesis
      proof (cases "i = n")
        case ne: False
        then have "str_less (fst (table ! n)) (fst (table ! i))" using asc i that by (intro keys_ascend_nth) auto
        then show ?thesis using sp(3) i that by auto
      qed (use False that in auto)
    qed (use sp(2) in force)
    then have "map_of table key = None" by (fastforce simp: map_of_eq_None_iff in_set_conv_nth)
    moreover have "n = length table \<or> str_less key (fst (table ! n))"
      using sp(1,3) none [of n] str_less_total [of key "fst (table ! n)"] by (cases "n = length table") auto
    ultimately show ?thesis by (simp add: static_map_at_def static_map_find_def n_def [symmetric])
  qed
qed

lemma sorted_wrt_successively: "successively str_less ks \<Longrightarrow> sorted_wrt str_less ks"
  by (subst (asm) successively_conv_sorted_wrt) (auto intro!: transpI elim: str_less_trans)

lemma xorgAppColorTable_ascends: "keys_ascend xorgAppColorTable"
  unfolding keys_ascend_def by (rule sorted_wrt_successively) code_simp

lemma xorgAppVariantColorTable_ascends: "keys_ascend xorgAppVariantColorTable"
  unfolding keys_ascend_def by (rule sorted_wrt_successively) code_simp

end
