(* ===== verification/Colors.thy ===== *)
theory Colors
  imports Utils Color_Tables
begin

text \<open>
  Colour parsing and printing: the table initialisers and the X11 colour names of
  \<^verbatim>\<open>types/colorTable.cpp\<close>, and the \<^verbatim>\<open>#RRGGBB\<close> and XParseColor formats of
  \<^verbatim>\<open>types/utils.cpp\<close>. The lemmas give the accepted inputs and the value of each format, and the
  round trip from a colour to its text and back.
\<close>

section \<open>Colour tables\<close>

datatype color_error = E_INVALIDARG | Stoul_invalid_argument | Stoul_out_of_range

definition InitializeCampbellColorTable :: "COLORREF list \<Rightarrow> color_error + COLORREF list" where
  "InitializeCampbellColorTable table =
     (if length table < 16 then Inl E_INVALIDARG
      else Inr (map COLORREF_of_color campbellColorTable @ drop 16 table))"

definition SwapANSIColorOrderForConhost :: "COLORREF list \<Rightarrow> color_error + COLORREF list" where
  "SwapANSIColorOrderForConhost table =
     (if length table < 16 then Inl E_INVALIDARG
      else (let table = table[1 := table ! 4, 4 := table ! 1];
                table = table[3 := table ! 6, 6 := table ! 3];
                table = table[9 := table ! 12, 12 := table ! 9];
                table = table[11 := table ! 14, 14 := table ! 11]
            in Inr table))"

definition InitializeCampbellColorTableForConhost :: "COLORREF list \<Rightarrow> color_error + COLORREF list" where
  "InitializeCampbellColorTableForConhost table =
     (if length table < 16 then Inl E_INVALIDARG
      else (case InitializeCampbellColorTable table of
              Inl e \<Rightarrow> Inl e
            | Inr table \<Rightarrow> SwapANSIColorOrderForConhost table))"

definition Initialize256ColorTable :: "COLORREF list \<Rightarrow> color_error + COLORREF list" where
  "Initialize256ColorTable table =
     (if length table < 256 then Inl E_INVALIDARG
      else Inr (map COLORREF_of_color standardXterm256ColorTable @ drop 256 table))"

definition SetColorTableAlpha :: "COLORREF list \<Rightarrow> 8 word \<Rightarrow> COLORREF list" where
  "SetColorTableAlpha table newAlpha =
     (let shiftedAlpha = push_bit 24 (ucast newAlpha) in
      map (\<lambda>color. (color AND NOT 0xff000000) OR (shiftedAlpha AND 0xff000000)) table)"

section \<open>X11 colour names\<close>

text \<open>\<^verbatim>\<open>iswspace\<close> and \<^verbatim>\<open>towlower\<close>, which the code applies to values up to 127 only.\<close>

definition iswspace :: "wchar \<Rightarrow> bool" where
  "iswspace c \<longleftrightarrow> c = 0x20 \<or> (0x09 \<le> c \<and> c \<le> 0x0d)"

definition towlower :: "wchar \<Rightarrow> wchar" where
  "towlower c = (if 0x41 \<le> c \<and> c \<le> 0x5a then c + 0x20 else c)"

fun xorg_scan :: "wstring \<Rightarrow> string \<Rightarrow> size_t \<Rightarrow> bool \<Rightarrow> (string \<times> size_t \<times> bool) option" where
  "xorg_scan [] ss variantIndex foundVariant = Some (ss, variantIndex, foundVariant)"
| "xorg_scan (c # wstr) ss variantIndex foundVariant =
     (if c > 127 then None
      else if c \<ge> 0x30 \<and> c \<le> 0x39
      then xorg_scan wstr ss (variantIndex * 10 + (ucast c - 0x30)) True
      else if iswspace c then xorg_scan wstr ss variantIndex foundVariant
      else if foundVariant then None
      else xorg_scan wstr (ss @ [char_of (unat (towlower c))]) variantIndex foundVariant)"

definition ColorFromXOrgAppColorName :: "wstring \<Rightarrow> til_color option" where
  "ColorFromXOrgAppColorName wstr =
     (case xorg_scan wstr [] 0 False of
        None \<Rightarrow> None
      | Some (name, variantIndex, foundVariant) \<Rightarrow>
          (let variant = (case static_map_at xorgAppVariantColorTable name of
                            Some colors \<Rightarrow> if unat variantIndex < length colors
                                            then Some (colors ! unat variantIndex) else None
                          | None \<Rightarrow> None)
           in case variant of
                Some color \<Rightarrow> Some color
              | None \<Rightarrow>
                  if (name = ''gray'' \<or> name = ''grey'') \<and> foundVariant then
                    (if variantIndex > 100 then None
                     else let v = (variantIndex * 255 + 50) div 100;
                              component = (if v > 255 then 255 else ucast v)
                          in Some (color_rgb component component component))
                  else static_map_at xorgAppColorTable name))"

section \<open>XParseColor specifications\<close>

text \<open>
  \<open>rest\<close> is the text from the iterator \<^verbatim>\<open>curr\<close> on. The loop over the digits of one component
  returns the text behind it, its value, its digit count and \<^verbatim>\<open>foundColor\<close>; \<open>None\<close> is the early return.
\<close>

fun parse_component ::
  "bool \<Rightarrow> nat \<Rightarrow> nat \<Rightarrow> nat \<Rightarrow> wstring \<Rightarrow> 32 word \<Rightarrow> nat \<Rightarrow> bool \<Rightarrow> (wstring \<times> 32 word \<times> nat \<times> bool) option"
where
  "parse_component isSharp iteration component i [] parameterValue rgbHexDigitCount foundColor =
     Some ([], parameterValue, rgbHexDigitCount, foundColor)"
| "parse_component isSharp iteration component i (wch # rest) parameterValue rgbHexDigitCount foundColor =
     (if i < iteration then
        (case HexToUint wch of
           (False, _) \<Rightarrow> None
         | (True, intVal) \<Rightarrow>
             (let parameterValue = parameterValue * 16 + intVal in
              if isSharp then
                (if i \<ge> rgbHexDigitCount then Some (rest, parameterValue, rgbHexDigitCount, True)
                 else parse_component isSharp iteration component (i + 1) rest parameterValue rgbHexDigitCount True)
              else if component < 2 \<and> rest \<noteq> [] \<and> hd rest = 0x2f
              then Some (tl rest, parameterValue, i + 1, True)
              else if rest = [] then Some (rest, parameterValue, i + 1, True)
              else parse_component isSharp iteration component (i + 1) rest parameterValue (i + 1) foundColor))
      else Some (wch # rest, parameterValue, rgbHexDigitCount, foundColor))"

definition scale_component :: "bool \<Rightarrow> 32 word \<Rightarrow> nat \<Rightarrow> 32 word" where
  "scale_component isSharp parameterValue rgbHexDigitCount =
     (let scaleMultiplier = (if isSharp then 0x10 else 0x11);
          scaleDivisor = drop_bit (4 * (4 - rgbHexDigitCount)) (push_bit 8 scaleMultiplier)
      in parameterValue * scaleMultiplier div scaleDivisor)"

fun parse_components :: "bool \<Rightarrow> nat list \<Rightarrow> wstring \<Rightarrow> nat \<Rightarrow> (wstring \<times> 32 word list) option" where
  "parse_components isSharp [] rest rgbHexDigitCount = Some (rest, [])"
| "parse_components isSharp (component # components) rest rgbHexDigitCount =
     (case parse_component isSharp (if isSharp then rgbHexDigitCount else 4) component 0 rest 0 rgbHexDigitCount False of
        None \<Rightarrow> None
      | Some (rest, parameterValue, rgbHexDigitCount, foundColor) \<Rightarrow>
          if \<not> foundColor then None
          else (case parse_components isSharp components rest rgbHexDigitCount of
                  None \<Rightarrow> None
                | Some (rest, colorValues) \<Rightarrow>
                    Some (rest, scale_component isSharp parameterValue rgbHexDigitCount # colorValues)))"

definition finish_color :: "(wstring \<times> 32 word list) option \<Rightarrow> til_color option" where
  "finish_color parsed =
     (case parsed of
        Some ([], [r, g, b]) \<Rightarrow> Some (color_rgb (ucast r) (ucast g) (ucast b))
      | _ \<Rightarrow> None)"

definition ColorFromXParseColorSpec :: "wstring \<Rightarrow> til_color option" where
  "ColorFromXParseColorSpec str =
     (let stringSize = length str;
          isRgb = stringSize > 4 \<and>
            map (\<lambda>x. if x \<ge> 0x41 \<and> x \<le> 0x5a then towlower x else x) (take 4 str) = wide ''rgb:''
      in if isRgb then
           (if stringSize < 9 \<or> stringSize > 18 then None
            else finish_color (parse_components False [0, 1, 2] (drop 4 str) 0))
         else if stringSize > 1 \<and> str ! 0 = 0x23 then
           (if \<not> (stringSize = 4 \<or> stringSize = 7 \<or> stringSize = 10 \<or> stringSize = 13) then None
            else finish_color (parse_components True [0, 1, 2] (drop 1 str) ((stringSize - 1) div 3)))
         else None)"

definition ColorFromXTermColor :: "wstring \<Rightarrow> til_color option" where
  "ColorFromXTermColor str =
     (case ColorFromXParseColorSpec str of
        None \<Rightarrow> ColorFromXOrgAppColorName str
      | Some color \<Rightarrow> Some color)"

section \<open>Hexadecimal colours\<close>

definition hex_digit :: "nat \<Rightarrow> char" where
  "hex_digit n = char_of (if n < 10 then 0x30 + n else 0x37 + n)"

definition hex_byte :: "8 word \<Rightarrow> string" where
  "hex_byte b = [hex_digit (unat b div 16), hex_digit (unat b mod 16)]"

definition ColorToHexString :: "til_color \<Rightarrow> string" where
  "ColorToHexString color =
     ''#'' @ hex_byte (color_r color) @ hex_byte (color_g color) @ hex_byte (color_b color)"

definition color_ToHexString :: "til_color \<Rightarrow> bool \<Rightarrow> wstring" where
  "color_ToHexString color omitAlpha =
     wide (''#'' @ (if \<not> omitAlpha then hex_byte (color_a color) else []) @
           hex_byte (color_r color) @ hex_byte (color_g color) @ hex_byte (color_b color))"

text \<open>\<^verbatim>\<open>std::stoul(str, nullptr, 16)\<close>, with a 32 bit \<^verbatim>\<open>unsigned long\<close>.\<close>

definition is_space :: "char \<Rightarrow> bool" where
  "is_space c \<longleftrightarrow> of_char c = (0x20 :: int) \<or> (9 \<le> (of_char c :: int) \<and> of_char c \<le> (13 :: int))"

definition hex_value :: "char \<Rightarrow> int option" where
  "hex_value c =
     (let n = of_char c :: int in
      if 0x30 \<le> n \<and> n \<le> 0x39 then Some (n - 0x30)
      else if 0x41 \<le> n \<and> n \<le> 0x46 then Some (n - 0x37)
      else if 0x61 \<le> n \<and> n \<le> 0x66 then Some (n - 0x57)
      else None)"

definition is_xdigit :: "char \<Rightarrow> bool" where
  "is_xdigit c = (case hex_value c of None \<Rightarrow> False | Some _ \<Rightarrow> True)"

definition skip_0x :: "string \<Rightarrow> string" where
  "skip_0x str =
     (case str of
        z # x # d # ds \<Rightarrow>
          if z = CHR ''0'' \<and> (x = CHR ''x'' \<or> x = CHR ''X'') \<and> is_xdigit d then d # ds else str
      | _ \<Rightarrow> str)"

definition hex_prefix_value :: "string \<Rightarrow> int" where
  "hex_prefix_value str =
     foldl (\<lambda>n c. n * 16 + (case hex_value c of None \<Rightarrow> 0 | Some d \<Rightarrow> d)) 0 (takeWhile is_xdigit str)"

definition stoul16 :: "string \<Rightarrow> color_error + 32 word" where
  "stoul16 str =
     (let str = dropWhile is_space str;
          negate = (case str of c # _ \<Rightarrow> c = CHR ''-'' | [] \<Rightarrow> False);
          str = (case str of c # cs \<Rightarrow> if c = CHR ''-'' \<or> c = CHR ''+'' then cs else str | [] \<Rightarrow> str);
          str = skip_0x str
      in if takeWhile is_xdigit str = [] then Inl Stoul_invalid_argument
         else if hex_prefix_value str \<ge> 2 ^ 32 then Inl Stoul_out_of_range
         else Inr (if negate then - word_of_int (hex_prefix_value str)
                   else word_of_int (hex_prefix_value str)))"

definition ColorFromHexString :: "string \<Rightarrow> color_error + til_color" where
  "ColorFromHexString str =
     (if length str \<noteq> 7 \<and> length str \<noteq> 4 then Inl E_INVALIDARG
      else if str ! 0 \<noteq> CHR ''#'' then Inl E_INVALIDARG
      else
        (let (rStr, gStr, bStr) =
               (if length str = 4
                then (replicate 2 (str ! 1), replicate 2 (str ! 2), replicate 2 (str ! 3))
                else (take 2 (drop 1 str), take 2 (drop 3 str), take 2 (drop 5 str)))
         in case stoul16 rStr of Inl e \<Rightarrow> Inl e
          | Inr r \<Rightarrow> (case stoul16 gStr of Inl e \<Rightarrow> Inl e
          | Inr g \<Rightarrow> (case stoul16 bStr of Inl e \<Rightarrow> Inl e
          | Inr b \<Rightarrow> Inr (color_rgb (ucast r) (ucast g) (ucast b))))))"

section \<open>Hexadecimal digits\<close>

lemma less_16_cases:
  assumes "(n :: nat) < 16"
  shows "n \<in> set [0,1,2,3,4,5,6,7,8,9,10,11,12,13,14,15]"
  using assms by (simp, presburger)

lemma all_less_16:
  assumes "(n :: nat) < 16"
    and "P 0" "P 1" "P 2" "P 3" "P 4" "P 5" "P 6" "P 7" "P 8" "P 9" "P 10" "P 11" "P 12" "P 13" "P 14" "P 15"
  shows "P n"
  using less_16_cases [OF assms(1)] assms(2-17) by auto

lemma hex_digit_value: "n < 16 \<Longrightarrow> hex_value (hex_digit n) = Some (int n)"
  by (erule all_less_16) code_simp+

lemma hex_digit_plain:
  "n < 16 \<Longrightarrow> \<not> is_space (hex_digit n) \<and> hex_digit n \<noteq> CHR ''-'' \<and> hex_digit n \<noteq> CHR ''+''"
  by (erule all_less_16) code_simp+

lemma hex_digit_wide: "n < 16 \<Longrightarrow> HexToUint (of_char (hex_digit n)) = (True, word_of_nat n)"
  by (erule all_less_16) code_simp+

lemma byte_digits: "unat (b :: 8 word) div 16 < 16" "unat b mod 16 < 16"
proof -
  have "unat b < 256" using unsigned_less [of b] by simp
  then show "unat b div 16 < 16" "unat b mod 16 < 16" by simp_all
qed

lemma byte_value: "int (unat (b :: 8 word) div 16) * 16 + int (unat b mod 16) = uint b"
  by (simp only: zdiv_int zmod_int uint_nat [symmetric]) simp

lemma stoul16_hex_byte: "stoul16 (hex_byte b) = Inr (ucast b)"
proof -
  have x: "is_xdigit (hex_digit n)" if "n < 16" for n using hex_digit_value [OF that] by (simp add: is_xdigit_def)
  have v: "hex_prefix_value (hex_byte b) = uint b"
    using x [OF byte_digits(1)] x [OF byte_digits(2)] byte_value [of b]
    by (simp add: hex_prefix_value_def hex_byte_def hex_digit_value [OF byte_digits(1)] hex_digit_value [OF byte_digits(2)])
  have "uint b < 2 ^ 32" using uint_lt2p [of b] by simp
  then show ?thesis
    using v x [OF byte_digits(1)] hex_digit_plain [OF byte_digits(1)]
    by (simp add: stoul16_def hex_byte_def skip_0x_def Let_def unsigned_ucast_eq)
qed

lemma ColorToHexString_length: "length (ColorToHexString c) = 7"
  by (simp add: ColorToHexString_def hex_byte_def)

lemma ColorFromHexString_ColorToHexString: "ColorFromHexString (ColorToHexString c) = Inr (with_alpha c 255)"
proof -
  have "take 2 (drop 1 (ColorToHexString c)) = hex_byte (color_r c)"
    "take 2 (drop 3 (ColorToHexString c)) = hex_byte (color_g c)"
    "drop 5 (ColorToHexString c) = hex_byte (color_b c)" "take 2 (hex_byte (color_b c)) = hex_byte (color_b c)"
    "ColorToHexString c ! 0 = CHR ''#''"
    by (simp_all add: ColorToHexString_def hex_byte_def)
  moreover have "ucast (ucast b :: 32 word) = b" for b :: "8 word"
    by (rule bit_word_eqI) (simp add: bit_simps)
  ultimately show ?thesis
    by (simp add: ColorFromHexString_def ColorToHexString_length stoul16_hex_byte with_alpha_def
        color_rgba_def color_rgb_def)
qed

section \<open>Components of a colour specification\<close>

definition is_hex :: "wchar \<Rightarrow> bool" where
  "is_hex c \<longleftrightarrow> fst (HexToUint c)"

definition hex_of :: "wchar \<Rightarrow> nat" where
  "hex_of c = unat (snd (HexToUint c))"

definition hex_number :: "wstring \<Rightarrow> nat" where
  "hex_number ds = foldl (\<lambda>n c. n * 16 + hex_of c) 0 ds"

definition component_ok :: "wstring \<Rightarrow> bool" where
  "component_ok ds \<longleftrightarrow> ds \<noteq> [] \<and> length ds \<le> 4 \<and> list_all is_hex ds"

text \<open>A component of \<open>n\<close> digits as a byte: one digit is doubled or shifted, more than two are cut.\<close>

definition component_byte :: "bool \<Rightarrow> wstring \<Rightarrow> nat" where
  "component_byte isSharp ds =
     (if length ds = 1 then hex_number ds * (if isSharp then 16 else 17)
      else hex_number ds div 16 ^ (length ds - 2))"

lemma HexToUint_hex: "is_hex c \<Longrightarrow> HexToUint c = (True, word_of_nat (hex_of c))"
  by (cases "HexToUint c") (simp add: is_hex_def hex_of_def)

lemma slash_not_hex: "\<not> is_hex 0x2f"
  by (simp add: is_hex_def HexToUint_def)

lemma parse_component_sharp:
  assumes "list_all is_hex ds" "i + length ds = n"
  shows "parse_component True n component i (ds @ rest) (word_of_nat v) n found =
     Some (rest, word_of_nat (foldl (\<lambda>n c. n * 16 + hex_of c) v ds), n, found \<or> ds \<noteq> [])"
  using assms
proof (induction ds arbitrary: i v found)
  case Nil
  then show ?case by (cases rest) auto
next
  case (Cons c ds)
  from Cons.prems have "HexToUint c = (True, word_of_nat (hex_of c))" by (simp add: HexToUint_hex)
  then show ?case
    using Cons.IH [of "i + 1" "v * 16 + hex_of c" True] Cons.prems by simp
qed

lemma parse_component_rgb:
  assumes "list_all is_hex ds" "ds \<noteq> []" "i + length ds \<le> 4"
  shows "component < 2 \<Longrightarrow>
     parse_component False 4 component i (ds @ 0x2f # rest) (word_of_nat v) h found =
       Some (rest, word_of_nat (foldl (\<lambda>n c. n * 16 + hex_of c) v ds), i + length ds, True)"
    and "parse_component False 4 component i ds (word_of_nat v) h found =
       Some ([], word_of_nat (foldl (\<lambda>n c. n * 16 + hex_of c) v ds), i + length ds, True)"
proof -
  have step: "HexToUint c = (True, word_of_nat (hex_of c))" "c \<noteq> 0x2f" if "is_hex c" for c
    using that slash_not_hex HexToUint_hex by auto
  show "parse_component False 4 component i (ds @ 0x2f # rest) (word_of_nat v) h found =
       Some (rest, word_of_nat (foldl (\<lambda>n c. n * 16 + hex_of c) v ds), i + length ds, True)"
    if "component < 2"
    using assms
  proof (induction ds arbitrary: i v h)
    case (Cons c ds)
    then show ?case
      using Cons.IH [of "i + 1" "v * 16 + hex_of c" "i + 1"] step that
      by (cases ds) auto
  qed simp
  show "parse_component False 4 component i ds (word_of_nat v) h found =
       Some ([], word_of_nat (foldl (\<lambda>n c. n * 16 + hex_of c) v ds), i + length ds, True)"
    using assms
  proof (induction ds arbitrary: i v h)
    case (Cons c ds)
    then show ?case
      using Cons.IH [of "i + 1" "v * 16 + hex_of c" "i + 1"] step
      by (cases ds) auto
  qed simp
qed

lemma hex_of_less:
  assumes "is_hex c"
  shows "hex_of c < 16"
proof -
  have u: "unat (ucast c :: 32 word) = unat c" by (simp add: unsigned_ucast_eq take_bit_nat_eq_self order.strict_trans [OF unsigned_less])
  consider "unat c \<in> {0x30..0x39}" "hex_of c = unat (ucast c - (0x30 :: 32 word))"
    | "unat c \<in> {0x41..0x46}" "hex_of c = unat (ucast c - (0x37 :: 32 word))"
    | "unat c \<in> {0x61..0x66}" "hex_of c = unat (ucast c - (0x57 :: 32 word))"
    using assms by (auto simp: is_hex_def hex_of_def HexToUint_def word_le_nat_alt split: if_splits)
  then show ?thesis
    by cases (auto simp: unat_sub_no_underflow u)
qed

lemma hex_number_less:
  "list_all is_hex ds \<Longrightarrow> foldl (\<lambda>n c. n * 16 + hex_of c) v ds < (v + 1) * 16 ^ length ds"
proof (induction ds arbitrary: v)
  case (Cons c ds)
  have "foldl (\<lambda>n c. n * 16 + hex_of c) (v * 16 + hex_of c) ds < (v * 16 + hex_of c + 1) * 16 ^ length ds"
    using Cons by simp
  also have "\<dots> \<le> ((v + 1) * 16) * 16 ^ length ds"
    using hex_of_less [of c] Cons.prems by (intro mult_le_mono1) simp
  also have "\<dots> = (v + 1) * 16 ^ length (c # ds)" by (simp add: algebra_simps)
  finally show ?case by simp
qed simp

lemma unat_word_of_nat: "n < 2 ^ 32 \<Longrightarrow> unat (word_of_nat n :: 32 word) = n"
  by (simp add: unsigned_of_nat take_bit_nat_eq_self)

lemma word_scale:
  assumes "v * m < 2 ^ 32" "0 < d" "d < 2 ^ 32"
  shows "(word_of_nat v :: 32 word) * word_of_nat m div word_of_nat d = word_of_nat (v * m div d)"
proof -
  have "(word_of_nat v :: 32 word) * word_of_nat m = word_of_nat (v * m)" by simp
  moreover have "unat (word_of_nat (v * m) :: 32 word) = v * m" "unat (word_of_nat d :: 32 word) = d"
    using assms by (simp_all only: unat_word_of_nat)
  ultimately show ?thesis by (simp only: word_arith_nat_div)
qed

lemma scale_component_eq:
  assumes "component_ok ds"
  shows "scale_component isSharp (word_of_nat (hex_number ds)) (length ds) = word_of_nat (component_byte isSharp ds)"
    and "component_byte isSharp ds < 256"
proof -
  let ?v = "hex_number ds"
  have v: "?v < 16 ^ length ds"
    using hex_number_less [of ds 0] assms by (simp add: component_ok_def hex_number_def)
  have "0 < length ds" "length ds \<le> 4" using assms by (simp_all add: component_ok_def)
  then have len: "length ds = 1 \<or> length ds = 2 \<or> length ds = 3 \<or> length ds = 4" by linarith
  define m :: nat where "m = (if isSharp then 16 else 17)"
  define d :: nat where "d = m * 16 ^ (length ds - 1) div 16"
  have d: "(drop_bit (4 * (4 - length ds)) (push_bit 8 (if isSharp then 0x10 else 0x11)) :: 32 word) =
      word_of_nat (m * 256 div 16 ^ (4 - length ds))"
    using len by (auto simp: m_def)
  have small: "?v * m < 2 ^ 32"
  proof -
    have "?v < 65536" using v len by (elim disjE) simp_all
    then show ?thesis by (simp add: m_def)
  qed
  have "scale_component isSharp (word_of_nat ?v) (length ds) =
      word_of_nat (?v * m div (m * 256 div 16 ^ (4 - length ds)))"
    unfolding scale_component_def Let_def d
    using word_scale [OF small, of "m * 256 div 16 ^ (4 - length ds)"] len by (auto simp: m_def)
  moreover have "?v * m div (m * 256 div 16 ^ (4 - length ds)) = component_byte isSharp ds"
    using len v by (elim disjE) (auto simp: m_def component_byte_def)
  ultimately show "scale_component isSharp (word_of_nat ?v) (length ds) = word_of_nat (component_byte isSharp ds)"
    by simp
  show "component_byte isSharp ds < 256"
    using len v by (elim disjE) (auto simp: component_byte_def)
qed

definition spec_color :: "bool \<Rightarrow> wstring \<Rightarrow> wstring \<Rightarrow> wstring \<Rightarrow> til_color" where
  "spec_color isSharp r g b =
     color_rgb (word_of_nat (component_byte isSharp r)) (word_of_nat (component_byte isSharp g))
       (word_of_nat (component_byte isSharp b))"

lemma lobyte: "n < 256 \<Longrightarrow> (ucast (word_of_nat n :: 32 word) :: 8 word) = word_of_nat n"
  by (rule bit_word_eqI) (simp add: bit_simps)

lemma finish_components:
  assumes "component_ok r" "component_ok g" "component_ok b"
  shows "finish_color (Some ([], [scale_component isSharp (word_of_nat (hex_number r)) (length r),
       scale_component isSharp (word_of_nat (hex_number g)) (length g),
       scale_component isSharp (word_of_nat (hex_number b)) (length b)])) = Some (spec_color isSharp r g b)"
  using assms by (simp add: finish_color_def scale_component_eq lobyte spec_color_def)

lemma parse_rgb_components:
  assumes "component_ok r" "component_ok g" "component_ok b"
  shows "finish_color (parse_components False [0, 1, 2] (r @ 0x2f # g @ 0x2f # b) 0) =
    Some (spec_color False r g b)"
proof -
  have c: "component < 2 \<Longrightarrow> parse_component False 4 component 0 (ds @ 0x2f # rest) 0 h False =
        Some (rest, word_of_nat (hex_number ds), length ds, True)"
      "parse_component False 4 component 0 ds 0 h False = Some ([], word_of_nat (hex_number ds), length ds, True)"
    if "component_ok ds" for ds rest component h
    using parse_component_rgb(1) [of ds 0 component rest 0 h False]
      parse_component_rgb(2) [of ds 0 component 0 h False] that
    by (simp_all add: component_ok_def hex_number_def)
  show ?thesis
    using finish_components [OF assms, of False] by (simp add: c assms)
qed

lemma parse_sharp_components:
  assumes "component_ok r" "component_ok g" "component_ok b" "length g = length r" "length b = length r"
  shows "finish_color (parse_components True [0, 1, 2] (r @ g @ b) (length r)) = Some (spec_color True r g b)"
proof -
  have c: "parse_component True (length r) component 0 (ds @ rest) 0 (length r) False =
      Some (rest, word_of_nat (hex_number ds), length r, True)"
    if "component_ok ds" "length ds = length r" for ds rest component
    using parse_component_sharp [of ds 0 "length r" component rest 0 False] that
    by (simp add: component_ok_def hex_number_def)
  show ?thesis
    using finish_components [OF assms(1-3), of True] c [OF assms(1), of 0 "g @ b"] c [OF assms(2), of 1 b]
      c [OF assms(3), of 2 "[]"] assms(4,5)
    by simp
qed

definition rgb_prefix :: "wstring \<Rightarrow> bool" where
  "rgb_prefix str \<longleftrightarrow> map (\<lambda>x. if x \<ge> 0x41 \<and> x \<le> 0x5a then towlower x else x) str = wide ''rgb:''"

lemma rgb_prefix_length: "rgb_prefix str \<Longrightarrow> length str = 4"
  by (auto simp: rgb_prefix_def wide_def dest!: map_eq_imp_length_eq)

lemma component_length: "component_ok ds \<Longrightarrow> 1 \<le> length ds \<and> length ds \<le> 4"
  by (cases ds) (auto simp: component_ok_def)

lemma ColorFromXParseColorSpec_rgb:
  assumes "rgb_prefix prefix" "component_ok r" "component_ok g" "component_ok b"
  shows "ColorFromXParseColorSpec (prefix @ r @ 0x2f # g @ 0x2f # b) = Some (spec_color False r g b)"
proof -
  note len = rgb_prefix_length [OF assms(1)] component_length [OF assms(2)] component_length [OF assms(3)]
    component_length [OF assms(4)]
  have "take 4 (prefix @ r @ 0x2f # g @ 0x2f # b) = prefix"
    "drop 4 (prefix @ r @ 0x2f # g @ 0x2f # b) = r @ 0x2f # g @ 0x2f # b"
    using len by simp_all
  then show ?thesis
    using parse_rgb_components [OF assms(2-4)] assms(1) len
    unfolding ColorFromXParseColorSpec_def rgb_prefix_def Let_def by simp
qed

lemma ColorFromXParseColorSpec_sharp:
  assumes "component_ok r" "component_ok g" "component_ok b" "length g = length r" "length b = length r"
  shows "ColorFromXParseColorSpec (0x23 # r @ g @ b) = Some (spec_color True r g b)"
proof -
  have n: "length r = 1 \<or> length r = 2 \<or> length r = 3 \<or> length r = 4"
    using component_length [OF assms(1)] by linarith
  have "\<not> (map (\<lambda>x. if x \<ge> 0x41 \<and> x \<le> 0x5a then towlower x else x) (take 4 (0x23 # r @ g @ b)) = wide ''rgb:'')"
    by (simp add: wide_def)
  moreover have "length (0x23 # r @ g @ b) = 3 * length r + 1" using assms by simp
  ultimately show ?thesis
    using parse_sharp_components [OF assms] n assms(4,5)
    unfolding ColorFromXParseColorSpec_def Let_def by auto
qed

lemma wide_hex_byte:
  "component_ok (wide (hex_byte b))" "length (wide (hex_byte b)) = 2" "hex_number (wide (hex_byte b)) = unat b"
proof -
  have h: "HexToUint (of_char (hex_digit n)) = (True, word_of_nat n)" "unat (word_of_nat n :: 32 word) = n"
    if "n < 16" for n using hex_digit_wide [OF that] unat_word_of_nat [of n] that by simp_all
  note d = h [OF byte_digits(1) [of b]] h [OF byte_digits(2) [of b]]
  show "component_ok (wide (hex_byte b))" "length (wide (hex_byte b)) = 2"
    by (simp_all add: component_ok_def wide_def hex_byte_def is_hex_def d)
  show "hex_number (wide (hex_byte b)) = unat b"
    by (simp add: hex_number_def wide_def hex_byte_def hex_of_def d del: of_nat_unat)
qed

lemma spec_color_bytes:
  "spec_color True (wide (hex_byte r)) (wide (hex_byte g)) (wide (hex_byte b)) = color_rgb r g b"
  by (simp add: spec_color_def component_byte_def wide_hex_byte)

lemma ColorFromXParseColorSpec_ColorToHexString:
  "ColorFromXParseColorSpec (wide (ColorToHexString c)) = Some (with_alpha c 255)"
proof -
  have "wide (ColorToHexString c) =
    0x23 # wide (hex_byte (color_r c)) @ wide (hex_byte (color_g c)) @ wide (hex_byte (color_b c))"
    by (simp add: wide_def ColorToHexString_def)
  then show ?thesis
    using ColorFromXParseColorSpec_sharp [OF wide_hex_byte(1) wide_hex_byte(1) wide_hex_byte(1)]
    by (simp add: wide_hex_byte spec_color_bytes with_alpha_def color_rgba_def color_rgb_def)
qed

section \<open>Names\<close>

definition name_char :: "wchar \<Rightarrow> bool" where
  "name_char c \<longleftrightarrow> c \<le> 127 \<and> \<not> (c \<ge> 0x30 \<and> c \<le> 0x39)"

definition color_name :: "wstring \<Rightarrow> string" where
  "color_name wstr = map (\<lambda>c. char_of (unat (towlower c))) (filter (\<lambda>c. \<not> iswspace c) wstr)"

lemma xorg_scan_name:
  "list_all name_char wstr \<Longrightarrow> xorg_scan wstr ss v False = Some (ss @ color_name wstr, v, False)"
  by (induction wstr arbitrary: ss) (auto simp: name_char_def color_name_def not_less)

lemma variant_lists: "(name, colors) \<in> set xorgAppVariantColorTable \<Longrightarrow> length colors = 5"
proof -
  have "list_all (\<lambda>(name, colors). length colors = 5) xorgAppVariantColorTable" by code_simp
  then show "(name, colors) \<in> set xorgAppVariantColorTable \<Longrightarrow> length colors = 5"
    by (auto simp: list_all_iff)
qed

lemma ColorFromXOrgAppColorName_name:
  assumes "list_all name_char wstr"
  shows "ColorFromXOrgAppColorName wstr =
     (case map_of xorgAppVariantColorTable (color_name wstr) of
        Some colors \<Rightarrow> Some (hd colors)
      | None \<Rightarrow> map_of xorgAppColorTable (color_name wstr))"
proof (cases "map_of xorgAppVariantColorTable (color_name wstr)")
  case (Some colors)
  then have "length colors = 5" by (intro variant_lists) (rule map_of_SomeD)
  then show ?thesis
    using Some assms
    by (cases colors) (simp_all add: ColorFromXOrgAppColorName_def xorg_scan_name
      static_map_at_map_of xorgAppVariantColorTable_ascends)
qed (use assms in \<open>simp add: ColorFromXOrgAppColorName_def xorg_scan_name
      static_map_at_map_of xorgAppVariantColorTable_ascends xorgAppColorTable_ascends\<close>)

section \<open>The 256 colour table\<close>

definition cube_level :: "nat \<Rightarrow> 8 word" where
  "cube_level n = (if n = 0 then 0 else word_of_nat (55 + 40 * n))"

lemma xterm_cube_list:
  "take 216 (drop 16 standardXterm256ColorTable) =
     concat (map (\<lambda>r. concat (map (\<lambda>g. map (\<lambda>b. color_rgb (cube_level r) (cube_level g) (cube_level b))
       [0..<6]) [0..<6])) [0..<6])"
  by code_simp

lemma xterm_gray_list:
  "drop 232 standardXterm256ColorTable =
     map (\<lambda>n. color_rgb (word_of_nat (8 + 10 * n)) (word_of_nat (8 + 10 * n)) (word_of_nat (8 + 10 * n))) [0..<24]"
  by code_simp

end
