(* ===== verification/Base64.thy ===== *)
theory Base64
  imports Utils
begin

text \<open>
  \<^verbatim>\<open>terminal/parser/base64.cpp\<close>: the encoder, and the decoder that feeds the clipboard. The conversion of
  the decoded bytes to UTF-16 is the parameter \<open>u8u16\<close> (\<^verbatim>\<open>til::u8u16\<close>, a wrapper of the system call
  \<^verbatim>\<open>MultiByteToWideChar\<close>), with \<open>None\<close> for its failure. Decoding an encoded byte string gives the bytes
  back, in both cases with the exact padding rules of the code.
\<close>

unbundle bit_operations_syntax

definition base64Chars :: wstring where
  "base64Chars = wide ''ABCDEFGHIJKLMNOPQRSTUVWXYZabcdefghijklmnopqrstuvwxyz0123456789+/''"

definition padChar :: wchar where
  "padChar = 0x3d"

definition s_IsSpace :: "wchar \<Rightarrow> bool" where
  "s_IsSpace ch \<longleftrightarrow> ch = 0x0d \<or> ch = 0x0a"

text \<open>
  An element of the character array: 64 letters and the terminating zero. Any other index is out of
  bounds.
\<close>

definition base64_char :: "wchar \<Rightarrow> wchar option" where
  "base64_char i =
     (if i < 64 then Some (base64Chars ! unat i) else if i = 64 then Some 0 else None)"

definition push_chars :: "wchar option list \<Rightarrow> wstring option \<Rightarrow> wstring option" where
  "push_chars cs rest =
     (case those cs of None \<Rightarrow> None | Some xs \<Rightarrow> map_option (\<lambda>r. xs @ r) rest)"

fun encode_loop :: "wstring \<Rightarrow> wstring option" where
  "encode_loop (a # b # c # src) =
     push_chars
       [base64_char (drop_bit 2 a),
        base64_char (push_bit 4 (a AND 0x03) OR drop_bit 4 b),
        base64_char (push_bit 2 (b AND 0x0f) OR drop_bit 6 c),
        base64_char (c AND 0x3f)]
       (encode_loop src)"
| "encode_loop [a, b] =
     push_chars
       [base64_char (drop_bit 2 a),
        base64_char (push_bit 4 (a AND 0x03) OR drop_bit 4 b),
        base64_char (push_bit 2 (b AND 0x0f)),
        Some padChar]
       (Some [])"
| "encode_loop [a] =
     push_chars
       [base64_char (drop_bit 2 a), base64_char (push_bit 4 (a AND 0x03)), Some padChar, Some padChar]
       (Some [])"
| "encode_loop [] = Some []"

definition s_Encode :: "wstring \<Rightarrow> wstring option" where
  "s_Encode src =
     (if (length src + 2) div 3 * 4 = 0 then Some [] else encode_loop src)"

text \<open>
  \<^verbatim>\<open>strchr\<close> converts its argument to \<^verbatim>\<open>char\<close>, so only the low byte of the character counts, and it
  finds the terminating zero.
\<close>

fun index_of :: "'a \<Rightarrow> 'a list \<Rightarrow> nat option" where
  "index_of x [] = None"
| "index_of x (y # ys) = (if x = y then Some 0 else map_option Suc (index_of x ys))"

definition strchr :: "wchar \<Rightarrow> nat option" where
  "strchr ch = index_of (ch AND 0xff) (base64Chars @ [0])"

definition decode_char :: "nat \<Rightarrow> nat \<Rightarrow> 8 word \<Rightarrow> 8 word list \<Rightarrow> nat \<times> 8 word \<times> 8 word list" where
  "decode_char pos state tmp mbStr =
     (let p = word_of_nat pos :: 8 word in
      if state = 0 then (1, push_bit 2 p, mbStr)
      else if state = 1 then (2, push_bit 4 (p AND 0x0f), mbStr @ [tmp OR drop_bit 4 p])
      else if state = 2 then (3, push_bit 6 (p AND 0x03), mbStr @ [tmp OR drop_bit 2 p])
      else if state = 3 then (0, tmp OR p, mbStr @ [tmp OR p])
      else (state, tmp, mbStr))"

text \<open>The main loop: \<open>None\<close> is the early return, otherwise the text from the iterator on.\<close>

fun decode_loop ::
  "wstring \<Rightarrow> nat \<Rightarrow> 8 word \<Rightarrow> 8 word list \<Rightarrow> (wstring \<times> nat \<times> 8 word list) option" where
  "decode_loop [] state tmp mbStr = Some ([], state, mbStr)"
| "decode_loop (ch # src) state tmp mbStr =
     (if s_IsSpace ch then decode_loop src state tmp mbStr
      else if ch = padChar then Some (ch # src, state, mbStr)
      else (case strchr ch of
              None \<Rightarrow> None
            | Some pos \<Rightarrow>
                (case decode_char pos state tmp mbStr of
                   (state, tmp, mbStr) \<Rightarrow> decode_loop src state tmp mbStr)))"

definition padding_ok :: "wstring \<Rightarrow> nat \<Rightarrow> bool" where
  "padding_ok rest state =
     (case rest of
        [] \<Rightarrow> state = 0
      | _ # rest \<Rightarrow>
          if state = 0 \<or> state = 1 then False
          else if state = 2 then
            (case dropWhile s_IsSpace rest of
               [] \<Rightarrow> False
             | ch # rest \<Rightarrow> ch = padChar \<and> list_all s_IsSpace rest)
          else if state = 3 then list_all s_IsSpace rest
          else True)"

definition s_Decode :: "(8 word list \<Rightarrow> wstring option) \<Rightarrow> wstring \<Rightarrow> wstring option" where
  "s_Decode u8u16 src =
     (if length src div 4 * 3 = 0 then None
      else (case decode_loop src 0 0 [] of
              None \<Rightarrow> None
            | Some (rest, state, mbStr) \<Rightarrow>
                if padding_ok rest state then u8u16 mbStr else None))"

section \<open>The alphabet\<close>

lemma alphabet_list:
  "list_all (\<lambda>i. let c = base64Chars ! i in
     strchr c = Some i \<and> \<not> s_IsSpace c \<and> c \<noteq> padChar) [0..<64]"
  by code_simp

lemma alphabet:
  assumes "i < 64"
  shows "strchr (base64Chars ! i) = Some i" "\<not> s_IsSpace (base64Chars ! i)" "base64Chars ! i \<noteq> padChar"
  using alphabet_list assms by (simp_all add: list_all_iff Let_def)

definition letter :: "wchar \<Rightarrow> wchar" where
  "letter i = base64Chars ! unat i"

lemma base64_char_letter: "i < 64 \<Longrightarrow> base64_char i = Some (letter i)"
  by (simp add: base64_char_def letter_def)

lemma decode_letter:
  assumes "i < 64"
  shows "decode_loop (letter i # src) state tmp mbStr =
     (case decode_char (unat i) state tmp mbStr of (state, tmp, mbStr) \<Rightarrow> decode_loop src state tmp mbStr)"
proof -
  have "unat i < 64" using assms by (simp add: word_less_nat_alt)
  then show ?thesis using alphabet [of "unat i"] by (simp add: letter_def)
qed

section \<open>Bytes and sextets\<close>

lemma nat_less_16_cases:
  "(n :: nat) < 16 \<Longrightarrow> n \<in> set [0,1,2,3,4,5,6,7,8,9,10,11,12,13,14,15]"
  by (simp, presburger)

lemma byte_bits: "a < (256 :: wchar) \<Longrightarrow> bit a n \<Longrightarrow> n < 8"
proof (rule ccontr)
  assume a: "a < 256" "bit a n" "\<not> n < 8"
  have "unat a < 2 ^ 8" using a(1) by (simp add: word_less_nat_alt)
  then have "take_bit 8 (unat a) = unat a" by (simp add: take_bit_nat_eq_self)
  then have "take_bit 8 a = a" by (metis unsigned_take_bit_eq unsigned_word_eqI)
  then have "bit (take_bit 8 a) n" using a by simp
  with a(3) show False by (simp add: bit_take_bit_iff)
qed

lemma sextet_bound:
  assumes "\<And>n. bit (w :: wchar) n \<Longrightarrow> n < 6"
  shows "w < 64"
proof -
  have "take_bit 6 w = w" by (rule bit_word_eqI) (use assms in \<open>auto simp: bit_take_bit_iff\<close>)
  then have "uint w = take_bit 6 (uint w)" by (metis unsigned_take_bit_eq)
  then have "uint w < 64" using take_bit_int_less_exp [of 6 "uint w"] by simp
  then show ?thesis by (simp add: word_less_def)
qed

lemma masks:
  "(a :: 'w::len word) AND 0x03 = take_bit 2 a" "a AND 0x0f = take_bit 4 a" "a AND 0x3f = take_bit 6 a"
  by (simp_all add: take_bit_eq_mask mask_eq_exp_minus_1)

definition sextets :: "wchar \<Rightarrow> wchar \<Rightarrow> wchar \<Rightarrow> wchar list" where
  "sextets a b c =
     [drop_bit 2 a, push_bit 4 (a AND 0x03) OR drop_bit 4 b, push_bit 2 (b AND 0x0f) OR drop_bit 6 c, c AND 0x3f]"

lemma sextets_bound:
  fixes a b c :: wchar
  assumes "a < 256" "b < 256" "c < 256"
  shows "drop_bit 2 a < 64" "push_bit 4 (a AND 0x03) OR drop_bit 4 b < 64"
    "push_bit 2 (b AND 0x0f) OR drop_bit 6 c < 64" "c AND 0x3f < 64"
  unfolding masks
  using byte_bits [OF assms(1)] byte_bits [OF assms(2)] byte_bits [OF assms(3)]
  by (auto intro!: sextet_bound simp: bit_simps; fastforce)+

lemma byte_of_sextet: "(word_of_nat (unat (w :: wchar)) :: 8 word) = ucast w"
  by (rule bit_word_eqI) (simp add: bit_simps)

lemma less_8_cases: "(n :: nat) < 8 \<Longrightarrow> n \<in> set [0,1,2,3,4,5,6,7]"
  by (simp, presburger)

lemma join_sextets:
  fixes a b c :: wchar
  assumes "a < 256" "b < 256" "c < 256"
  shows "push_bit 2 (ucast (drop_bit 2 a)) OR drop_bit 4 (ucast (push_bit 4 (take_bit 2 a) OR drop_bit 4 b)) = (ucast a :: 8 word)"
    and "push_bit 4 (take_bit 4 (ucast (push_bit 4 (take_bit 2 a) OR drop_bit 4 b))) OR
         drop_bit 2 (ucast (push_bit 2 (take_bit 4 b) OR drop_bit 6 c)) = (ucast b :: 8 word)"
    and "push_bit 6 (take_bit 2 (ucast (push_bit 2 (take_bit 4 b) OR drop_bit 6 c))) OR
         ucast (take_bit 6 c) = (ucast c :: 8 word)"
proof -
  have bits: "x = y" if "\<And>n. n \<in> set [0,1,2,3,4,5,6,7] \<Longrightarrow> bit x n = bit y n" for x y :: "8 word"
    by (rule bit_word_eqI) (use that less_8_cases in auto)
  note none = byte_bits [OF assms(1)] byte_bits [OF assms(2)] byte_bits [OF assms(3)]
  show "push_bit 2 (ucast (drop_bit 2 a)) OR drop_bit 4 (ucast (push_bit 4 (take_bit 2 a) OR drop_bit 4 b)) = (ucast a :: 8 word)"
    by (rule bits) (use none in \<open>(auto simp: bit_simps; simp add: numeral_2_eq_2 numeral_3_eq_3)\<close>)
  show "push_bit 4 (take_bit 4 (ucast (push_bit 4 (take_bit 2 a) OR drop_bit 4 b))) OR
         drop_bit 2 (ucast (push_bit 2 (take_bit 4 b) OR drop_bit 6 c)) = (ucast b :: 8 word)"
    by (rule bits) (use none in \<open>(auto simp: bit_simps; simp add: numeral_2_eq_2 numeral_3_eq_3)\<close>)
  show "push_bit 6 (take_bit 2 (ucast (push_bit 2 (take_bit 4 b) OR drop_bit 6 c))) OR
         ucast (take_bit 6 c) = (ucast c :: 8 word)"
    by (rule bits) (use none in \<open>(auto simp: bit_simps; simp add: numeral_2_eq_2 numeral_3_eq_3)\<close>)
qed

section \<open>Decoding what was encoded\<close>

lemma decode_loop_state_0: "decode_loop src 0 tmp mbStr = decode_loop src 0 tmp' mbStr"
  by (induction src arbitrary: mbStr) (auto simp: decode_char_def split: option.splits)

lemma decode_4:
  assumes "p < 64" "q < 64" "r < 64" "t < 64"
  shows "decode_loop (letter p # letter q # letter r # letter t # src) 0 tmp mbStr =
    decode_loop src 0 0 (mbStr @
      [push_bit 2 (ucast p) OR drop_bit 4 (ucast q),
       push_bit 4 (take_bit 4 (ucast q)) OR drop_bit 2 (ucast r),
       push_bit 6 (take_bit 2 (ucast r)) OR ucast t])"
  by (simp add: assms decode_letter decode_char_def byte_of_sextet masks Let_def del: decode_loop.simps(2))
    (rule decode_loop_state_0)

lemma pad_not_space: "\<not> s_IsSpace padChar"
  by (simp add: s_IsSpace_def padChar_def)

lemma decode_pad: "decode_loop (padChar # src) state tmp mbStr = Some (padChar # src, state, mbStr)"
  by (simp add: pad_not_space)

lemma decode_3:
  assumes "p < 64" "q < 64" "r < 64"
  shows "decode_loop [letter p, letter q, letter r, padChar] 0 tmp mbStr =
    Some ([padChar], 3, mbStr @
      [push_bit 2 (ucast p) OR drop_bit 4 (ucast q),
       push_bit 4 (take_bit 4 (ucast q)) OR drop_bit 2 (ucast r)])"
  by (simp add: assms decode_letter decode_pad decode_char_def byte_of_sextet masks Let_def
      del: decode_loop.simps(2))

lemma decode_2:
  assumes "p < 64" "q < 64"
  shows "decode_loop [letter p, letter q, padChar, padChar] 0 tmp mbStr =
    Some ([padChar, padChar], 2, mbStr @ [push_bit 2 (ucast p) OR drop_bit 4 (ucast q)])"
  by (simp add: assms decode_letter decode_pad decode_char_def byte_of_sextet masks Let_def
      del: decode_loop.simps(2))

lemma decode_quantum:
  assumes "a < 256" "b < 256" "c < 256"
  shows "decode_loop (map letter (sextets a b c) @ src) 0 tmp mbStr =
    decode_loop src 0 0 (mbStr @ [ucast a, ucast b, ucast c])"
  using decode_4 [OF sextets_bound [OF assms], of src tmp mbStr] join_sextets [OF assms]
  by (simp add: sextets_def masks)

lemma encode_loop_3:
  assumes "a < 256" "b < 256" "c < 256"
  shows "encode_loop (a # b # c # src) = map_option (\<lambda>r. map letter (sextets a b c) @ r) (encode_loop src)"
  using sextets_bound [OF assms]
  by (cases "encode_loop src") (simp_all add: push_chars_def sextets_def base64_char_letter)

lemma encode_loop_tail:
  assumes "a < 256" "b < 256"
  shows "encode_loop [a, b] =
      Some [letter (drop_bit 2 a), letter (push_bit 4 (a AND 0x03) OR drop_bit 4 b), letter (push_bit 2 (b AND 0x0f)), padChar]"
    "encode_loop [a] = Some [letter (drop_bit 2 a), letter (push_bit 4 (a AND 0x03)), padChar, padChar]"
    "push_bit 2 (b AND 0x0f) < 64" "push_bit 4 (a AND 0x03) < 64"
proof -
  have z: "(0 :: wchar) < 256" by simp
  show "push_bit 2 (b AND 0x0f) < 64" "push_bit 4 (a AND 0x03) < 64"
    using sextets_bound(3) [OF assms z] sextets_bound(2) [OF assms(1) z z] by simp_all
  then show "encode_loop [a, b] =
      Some [letter (drop_bit 2 a), letter (push_bit 4 (a AND 0x03) OR drop_bit 4 b), letter (push_bit 2 (b AND 0x0f)), padChar]"
    "encode_loop [a] = Some [letter (drop_bit 2 a), letter (push_bit 4 (a AND 0x03)), padChar, padChar]"
    using sextets_bound(1,2) [OF assms z] by (simp_all add: push_chars_def base64_char_letter)
qed

definition bytes :: "wstring \<Rightarrow> 8 word list" where
  "bytes = map ucast"

lemma encode_decode_loop:
  assumes "list_all (\<lambda>c. c < 256) src"
  shows "\<exists>enc rest state mb. encode_loop src = Some enc \<and> length enc = (length src + 2) div 3 * 4 \<and>
    decode_loop enc 0 tmp mbStr = Some (rest, state, mbStr @ bytes src) \<and> padding_ok rest state"
  using assms
proof (induction src arbitrary: tmp mbStr rule: encode_loop.induct)
  case (1 a b c src)
  then have lt: "a < 256" "b < 256" "c < 256" by simp_all
  obtain enc rest state where e: "encode_loop src = Some enc" "length enc = (length src + 2) div 3 * 4"
    "decode_loop enc 0 0 (mbStr @ [ucast a, ucast b, ucast c]) =
       Some (rest, state, (mbStr @ [ucast a, ucast b, ucast c]) @ bytes src)" "padding_ok rest state"
    using 1(1) [of 0 "mbStr @ [ucast a, ucast b, ucast c]"] 1(2) by auto
  have "length (map letter (sextets a b c) @ enc) = (length (a # b # c # src) + 2) div 3 * 4"
  proof -
    have "(length (a # b # c # src) + 2) div 3 = (length src + 2) div 3 + 1" by simp
    then show ?thesis using e(2) by (simp add: sextets_def)
  qed
  then show ?case
    using e encode_loop_3 [OF lt, of src] decode_quantum [OF lt, of enc tmp mbStr]
    by (simp add: bytes_def)
next
  case (2 a b)
  then have lt: "a < 256" "b < 256" "(0 :: wchar) < 256" by simp_all
  note bd = sextets_bound [OF lt]
  have "padding_ok [padChar] 3" by (simp add: padding_ok_def)
  then show ?case
    using encode_loop_tail(1) [OF lt(1,2)] decode_3 [OF bd(1,2) encode_loop_tail(3) [OF lt(1,2)], of tmp mbStr]
      join_sextets(1,2) [OF lt] by (simp add: masks bytes_def)
next
  case (3 a)
  then have lt: "a < 256" "(0 :: wchar) < 256" by simp_all
  note bd = sextets_bound [OF lt lt(2)]
  have "padding_ok [padChar, padChar] 2" by (simp add: padding_ok_def pad_not_space)
  then show ?case
    using encode_loop_tail(2) [OF lt] decode_2 [OF bd(1) encode_loop_tail(4) [OF lt], of tmp mbStr]
      join_sextets(1) [OF lt lt(2)] by (simp add: masks bytes_def)
next
  case 4
  show ?case by (simp add: bytes_def padding_ok_def)
qed

lemma s_Decode_s_Encode:
  assumes "src \<noteq> []" "list_all (\<lambda>c. c < 256) src"
  shows "\<exists>enc. s_Encode src = Some enc \<and> s_Decode u8u16 enc = u8u16 (bytes src)"
proof -
  obtain enc rest state where e: "encode_loop src = Some enc" "length enc = (length src + 2) div 3 * 4"
    "decode_loop enc 0 0 [] = Some (rest, state, bytes src)" "padding_ok rest state"
    using encode_decode_loop [OF assms(2), of 0 "[]"] by auto
  have "0 < length src" using assms(1) by simp
  then have "1 \<le> (length src + 2) div 3" by (simp add: Suc_leI div_greater_zero_iff)
  then have "(length src + 2) div 3 * 4 \<noteq> 0" "length enc div 4 * 3 \<noteq> 0" using e(2) by simp_all
  then show ?thesis using e by (simp add: s_Encode_def s_Decode_def)
qed

text \<open>The characters of an encoding.\<close>

lemma letter_in: "i < 64 \<Longrightarrow> letter i \<in> set base64Chars"
  unfolding letter_def by (rule nth_mem) (simp add: base64Chars_def wide_def word_less_nat_alt)

lemma encode_loop_alphabet:
  assumes "list_all (\<lambda>c. c < 256) src" "encode_loop src = Some enc"
  shows "set enc \<subseteq> insert padChar (set base64Chars)"
  using assms
proof (induction src arbitrary: enc rule: encode_loop.induct)
  case (1 a b c src)
  then have lt: "a < 256" "b < 256" "c < 256" by simp_all
  obtain r where r: "encode_loop src = Some r" "enc = map letter (sextets a b c) @ r"
    using 1(3) unfolding encode_loop_3 [OF lt] by (auto dest: sym)
  then show ?case using 1(1) [of r] 1(2) sextets_bound [OF lt] by (auto simp: sextets_def letter_in)
next
  case (2 a b)
  then have lt: "a < 256" "b < 256" by simp_all
  show ?case
    using 2 encode_loop_tail(1,3) [OF lt] sextets_bound [OF lt lt(1)] by (auto simp: letter_in)
next
  case (3 a)
  then have lt: "a < 256" by simp
  show ?case using 3 encode_loop_tail(2,4) [OF lt lt] sextets_bound [OF lt lt lt] by (auto simp: letter_in)
qed simp

lemma s_Encode_alphabet:
  "list_all (\<lambda>c. c < 256) src \<Longrightarrow> s_Encode src = Some enc \<Longrightarrow> set enc \<subseteq> insert padChar (set base64Chars)"
  using encode_loop_alphabet [of src enc] by (auto simp: s_Encode_def split: if_splits)

end
