(* ===== verification/Text_Spec.thy ===== *)
theory Text_Spec
  imports Colors Base64
begin

text \<open>
  The properties of the text utilities: numbers, splitting, pasting (\<^verbatim>\<open>types/utils.cpp\<close>), base64
  (\<^verbatim>\<open>terminal/parser/base64.cpp\<close>), the colour formats and the colour tables (\<^verbatim>\<open>types/colorTable.cpp\<close>).
\<close>

section \<open>Colours\<close>

definition exchange_red_blue :: "nat \<Rightarrow> nat" where
  "exchange_red_blue i = i div 8 * 8 + i mod 2 * 4 + i div 2 mod 2 * 2 + i div 4 mod 2"

text \<open>C18: Printing a colour as \<^verbatim>\<open>#RRGGBB\<close> and parsing the text, with the settings parser or with the parser of
  OSC colour specifications, gives the colour back, opaque.\<close>

theorem hex_color_round_trip:
  "ColorFromHexString (ColorToHexString c) = Inr (with_alpha c 255)
   \<and> ColorFromXParseColorSpec (wide (ColorToHexString c)) = Some (with_alpha c 255)"
  by (simp add: ColorFromHexString_ColorToHexString ColorFromXParseColorSpec_ColorToHexString)

text \<open>C19: An \<^verbatim>\<open>rgb:\<close> specification of three components of one to four hexadecimal digits each, with the prefix in
  any case, is accepted; a one digit component is doubled, a longer one is cut to its two leading digits.\<close>

theorem rgb_specification_value:
  assumes "rgb_prefix prefix" and "component_ok r" and "component_ok g" and "component_ok b"
  shows "ColorFromXTermColor (prefix @ r @ 0x2F # g @ 0x2F # b) =
    Some (color_rgb (word_of_nat (component_byte False r)) (word_of_nat (component_byte False g))
      (word_of_nat (component_byte False b)))"
  using ColorFromXParseColorSpec_rgb [OF assms] by (simp add: ColorFromXTermColor_def spec_color_def)

theorem rgb_specification_value_witness:
  "ColorFromXTermColor (wide ''Rgb:f/80/1234'') = Some (color_rgb 0xFF 0x80 0x12)"
proof -
  have "wide ''Rgb:f/80/1234'' = wide ''Rgb:'' @ wide ''f'' @ 0x2F # wide ''80'' @ 0x2F # wide ''1234''"
    by (simp add: wide_def)
  moreover have "rgb_prefix (wide ''Rgb:'')" by (simp add: rgb_prefix_def wide_def towlower_def)
  moreover have "component_ok (wide ''f'')" "component_ok (wide ''80'')" "component_ok (wide ''1234'')"
    by (simp_all add: component_ok_def is_hex_def wide_def HexToUint_def)
  moreover have "component_byte False (wide ''f'') = 0xFF" "component_byte False (wide ''80'') = 0x80"
      "component_byte False (wide ''1234'') = 0x12"
    by (simp_all add: component_byte_def hex_number_def hex_of_def HexToUint_def wide_def)
  ultimately show ?thesis
    using rgb_specification_value [of "wide ''Rgb:''" "wide ''f''" "wide ''80''" "wide ''1234''"] by simp
qed

text \<open>C20: A colour name without digits is looked up as the tables read: case and white space do not count, and the binary
  search finds exactly the entry of the name, first among the names with variants (whose first variant it takes),
  then among the others.\<close>

theorem color_name_lookup:
  assumes "list_all name_char wstr"
  shows "ColorFromXOrgAppColorName wstr =
     (case map_of xorgAppVariantColorTable (color_name wstr) of
        Some colors \<Rightarrow> Some (hd colors)
      | None \<Rightarrow> map_of xorgAppColorTable (color_name wstr))"
  by (rule ColorFromXOrgAppColorName_name [OF assms])

theorem color_name_lookup_witness:
  "ColorFromXOrgAppColorName (wide ''Papaya Whip'') = Some (color_rgb 255 239 213)"
proof -
  have "list_all name_char (wide ''Papaya Whip'')" by (simp add: name_char_def wide_def)
  moreover have "color_name (wide ''Papaya Whip'') = ''papayawhip''" by code_simp
  moreover have "map_of xorgAppVariantColorTable ''papayawhip'' = None" by code_simp
  moreover have "map_of xorgAppColorTable ''papayawhip'' = Some (color_rgb 255 239 213)" by code_simp
  ultimately show ?thesis using color_name_lookup [of "wide ''Papaya Whip''"] by simp
qed


text \<open>C32: The initialiser of the console's colour table fails exactly on tables of less than 16 entries. Otherwise it
  writes the Campbell scheme with the red and the blue bit of every index exchanged, and leaves the other entries alone.\<close>

theorem console_color_table:
  "InitializeCampbellColorTableForConhost table =
     (if length table < 16 then Inl E_INVALIDARG
      else Inr (map (\<lambda>i. COLORREF_of_color (campbellColorTable ! exchange_red_blue i)) [0..<16] @ drop 16 table))"
proof (cases "length table < 16")
  case False
  let ?t = "map COLORREF_of_color campbellColorTable @ drop 16 table"
  have "length ?t = length table" using False by (simp add: campbellColorTable_def)
  moreover have "[0..<16] = [0, 1, 2, 3, 4, 5, 6, 7, 8, 9, 10, 11, 12, 13, 14, 15]" by (simp add: upt_rec)
  ultimately show ?thesis
    using False
    by (simp add: InitializeCampbellColorTableForConhost_def InitializeCampbellColorTable_def SwapANSIColorOrderForConhost_def
        campbellColorTable_def exchange_red_blue_def nth_append)
qed (simp add: InitializeCampbellColorTableForConhost_def)

section \<open>Strings\<close>

text \<open>C21: Splitting and joining are inverse: joining the parts of a string with the delimiter gives the string back, and
  splitting the join of parts without the delimiter gives the parts back, empty parts at either end included (the one
  exception, a single empty part, joins to the empty string, which has no parts).\<close>

theorem split_join_round_trip:
  "join d (SplitString wstr d) = wstr
   \<and> (ps \<noteq> [[]] \<longrightarrow> (\<forall>p \<in> set ps. d \<notin> set p) \<longrightarrow> SplitString (join d ps) d = ps)"
proof -
  have "SplitString (join d ps) d = ps" if "ps \<noteq> [[]]" "\<forall>p \<in> set ps. d \<notin> set p"
  proof (cases "ps = []")
    case False
    then have "join d ps \<noteq> []" using that by (cases "(d, ps)" rule: join.cases) auto
    then show ?thesis using split_chars_join [OF False that(2)] by (simp add: SplitString_eq)
  qed (simp add: SplitString_eq)
  then show ?thesis by (simp add: SplitString_eq join_split_chars)
qed

theorem split_join_round_trip_witness:
  "SplitString (wide '';4;rgb:'') (of_char (CHR '';'')) = [[], wide ''4'', wide ''rgb:'']"
proof -
  have "join (of_char (CHR '';'')) [[], wide ''4'', wide ''rgb:''] = wide '';4;rgb:''" by (simp add: wide_def)
  then show ?thesis
    using split_join_round_trip [of "of_char (CHR '';'')" "[]" "[[], wide ''4'', wide ''rgb:'']"] by (simp add: wide_def)
qed

text \<open>C22: Text pasted through the filter holds nothing the filter is to remove: no line feed when line ends are
  converted, no control code besides tab, line feed and carriage return when control codes are removed. Filtering
  again changes nothing.\<close>

theorem paste_filter_is_clean:
  "list_all (\<lambda>c. \<not> (is_flag_set opts CarriageReturnNewline \<and> c = 0x0A) \<and> \<not> (is_flag_set opts ControlCodes \<and> isControlCode c))
     (FilterStringForPaste wstr opts)
   \<and> FilterStringForPaste (FilterStringForPaste wstr opts) opts = FilterStringForPaste wstr opts"
proof
  show clean: "list_all (\<lambda>c. \<not> (is_flag_set opts CarriageReturnNewline \<and> c = 0x0A) \<and> \<not> (is_flag_set opts ControlCodes \<and> isControlCode c))
     (FilterStringForPaste wstr opts)"
    using paste_chars_set [of _ opts None wstr] by (auto simp: list_all_iff FilterStringForPaste_eq)
  show "FilterStringForPaste (FilterStringForPaste wstr opts) opts = FilterStringForPaste wstr opts"
    unfolding FilterStringForPaste_eq [of "FilterStringForPaste wstr opts"]
    by (rule paste_chars_clean) (use clean in \<open>auto simp: list_all_iff\<close>)
qed

text \<open>C33: The filter's single pass over the text with its pending range is equivalent to deciding each character by itself
  and the one before it: a line feed becomes a carriage return, or nothing behind a carriage return.\<close>

theorem paste_filter_by_characters: "FilterStringForPaste wstr opts = paste_chars opts None wstr"
  by (rule FilterStringForPaste_eq)

text \<open>C34: Reading a number: a string of decimal digits reads as its value modulo 2 to the 32, every other string, the empty
  one included, is an error.\<close>

theorem string_to_uint_value:
  "StringToUint wstr =
     (if wstr \<noteq> [] \<and> list_all isNumber wstr then Some (word_of_nat (digits_value wstr)) else None)"
  by (rule StringToUint_eq)

text \<open>C23: Decoding the base64 encoding of a text of byte-sized characters gives its bytes, whatever the decoder makes of them.\<close>

theorem base64_round_trip:
  assumes "src \<noteq> []" and "list_all (\<lambda>c. c < 256) src"
  shows "\<exists>enc. s_Encode src = Some enc \<and> s_Decode to_utf16 enc = to_utf16 (map ucast src)"
  using s_Decode_s_Encode [OF assms, of to_utf16] by (simp add: bytes_def)

theorem base64_round_trip_witness:
  "\<exists>enc. s_Encode (wide ''Term'') = Some enc \<and> s_Decode (\<lambda>bs. Some (map ucast bs)) enc = Some (wide ''Term'')"
  using base64_round_trip [of "wide ''Term''" "\<lambda>bs. Some (map ucast bs)"] by (simp add: wide_def)


end
