(* ===== verification/Vt_Types.thy ===== *)
theory Vt_Types
  imports Prelude
begin

text \<open>
  The types of \<^verbatim>\<open>src/terminal/adapter/DispatchTypes.hpp\<close> that travel from the parser to the engines:
  \<^verbatim>\<open>VTID\<close> (up to eight characters packed into a 64-bit identifier), \<^verbatim>\<open>VTIDBuilder\<close>, \<^verbatim>\<open>VTParameter\<close> and
  \<^verbatim>\<open>VTParameters\<close>. A \<^verbatim>\<open>size_t\<close> is a 64-bit word; a \<^verbatim>\<open>VTParameter\<close> holds a signed integer whose negative
  values mean "omitted".
\<close>

unbundle bit_operations_syntax

section \<open>VTID and VTIDBuilder\<close>

type_synonym VTID = "64 word"

definition vtid_from_string :: "string \<Rightarrow> VTID" where
  "vtid_from_string s = foldr (\<lambda>c value. push_bit 8 value + of_char c) s 0"

definition vtid_SubSequence :: "VTID \<Rightarrow> nat \<Rightarrow> VTID" where
  "vtid_SubSequence v offset = drop_bit (8 * offset) v"

definition vtid_at :: "VTID \<Rightarrow> nat \<Rightarrow> 8 word" where
  "vtid_at v offset = ucast (vtid_SubSequence v offset AND 0xFF)"

record VTIDBuilder =
  idAccumulator :: "64 word"
  idShift :: nat

definition vtid_Clear :: "VTIDBuilder \<Rightarrow> VTIDBuilder" where
  "vtid_Clear b = b\<lparr>idAccumulator := 0, idShift := 0\<rparr>"

definition AddIntermediate :: "wchar \<Rightarrow> VTIDBuilder \<Rightarrow> VTIDBuilder" where
  "AddIntermediate intermediateChar b =
     (if idShift b + 8 \<ge> 64 then b\<lparr>idAccumulator := 0\<rparr>
      else b\<lparr>idAccumulator := idAccumulator b + push_bit (idShift b) (ucast intermediateChar),
             idShift := idShift b + 8\<rparr>)"

definition Finalize :: "wchar \<Rightarrow> VTIDBuilder \<Rightarrow> VTID" where
  "Finalize finalChar b = idAccumulator b + push_bit (idShift b) (ucast finalChar)"

section \<open>VTParameter and VTParameters\<close>

datatype VTParameter = VTParameter (param_value: int)

definition vtp_omitted :: VTParameter where
  "vtp_omitted = VTParameter (-1)"

definition vtp_of_size :: "size_t \<Rightarrow> VTParameter" where
  "vtp_of_size rhs = VTParameter (sint rhs)"

definition has_value :: "VTParameter \<Rightarrow> bool" where
  "has_value p \<longleftrightarrow> param_value p \<ge> 0"

definition value_or :: "VTParameter \<Rightarrow> size_t \<Rightarrow> size_t" where
  "value_or p defaultValue = (if has_value p then word_of_int (param_value p) else defaultValue)"

text \<open>The two conversion operators: to an enumeration (omitted is 0) and to a number (0 and omitted are 1).\<close>

definition vtp_enum :: "VTParameter \<Rightarrow> size_t" where
  "vtp_enum p = value_or p 0"

definition vtp_num :: "VTParameter \<Rightarrow> size_t" where
  "vtp_num p = (if has_value p \<and> param_value p \<noteq> 0 then word_of_int (param_value p) else 1)"

type_synonym VTParameters = "VTParameter list"

definition vtps_at :: "VTParameters \<Rightarrow> nat \<Rightarrow> VTParameter" where
  "vtps_at ps index = (if index < length ps then ps ! index else vtp_omitted)"

definition vtps_size :: "VTParameters \<Rightarrow> nat" where
  "vtps_size ps = max (length ps) 1"

text \<open>A \<^verbatim>\<open>gsl::span\<close> terminates the process when the offset lies behind its end.\<close>

definition vtps_subspan :: "VTParameters \<Rightarrow> nat \<Rightarrow> VTParameters option" where
  "vtps_subspan ps offset = (if offset \<le> length ps then Some (drop offset ps) else None)"

fun for_each_from :: "(VTParameter \<Rightarrow> 's \<Rightarrow> bool \<times> 's) \<Rightarrow> VTParameter list \<Rightarrow> bool \<times> 's \<Rightarrow> bool \<times> 's" where
  "for_each_from predicate [] (success, s) = (success, s)"
| "for_each_from predicate (p # ps) (success, s) =
     (case predicate p s of (r, s') \<Rightarrow> for_each_from predicate ps (r \<and> success, s'))"

definition vtps_for_each :: "(VTParameter \<Rightarrow> 's \<Rightarrow> bool \<times> 's) \<Rightarrow> VTParameters \<Rightarrow> 's \<Rightarrow> bool \<times> 's" where
  "vtps_for_each predicate ps s = for_each_from predicate (drop 1 ps) (predicate (vtps_at ps 0) s)"

section \<open>An identifier is its characters, packed\<close>

definition builder_of :: "wchar list \<Rightarrow> VTIDBuilder" where
  "builder_of is = fold AddIntermediate is \<lparr>idAccumulator = 0, idShift = 0\<rparr>"

text \<open>The number a string of characters packs to, least significant character first.\<close>

fun packed :: "nat list \<Rightarrow> nat" where
  "packed [] = 0"
| "packed (c # cs) = c + 256 * packed cs"

lemma packed_append: "packed (xs @ ys) = packed xs + 256 ^ length xs * packed ys"
  by (induction xs) (simp_all add: algebra_simps)

lemma packed_less: "\<forall>c \<in> set cs. c < 256 \<Longrightarrow> packed cs < 256 ^ length cs"
proof (induction cs)
  case (Cons c cs)
  then have "packed cs < 256 ^ length cs" and "c < 256" by simp_all
  then have "c + 256 * packed cs < 256 * (packed cs + 1)" by simp
  also have "\<dots> \<le> 256 * 256 ^ length cs" using \<open>packed cs < 256 ^ length cs\<close> by simp
  finally show ?case by simp
qed simp

lemma packed_inject:
  assumes "\<forall>c \<in> set cs. c < 256" and "\<forall>c \<in> set ds. c < 256" and "length cs = length ds"
    and "packed cs = packed ds"
  shows "cs = ds"
  using assms(3,1,2,4)
proof (induction cs ds rule: list_induct2)
  case (Cons c cs d ds)
  from Cons.prems have "c < 256" "d < 256" "c + 256 * packed cs = d + 256 * packed ds" by simp_all
  then have "c = d" by (metis mod_less mod_mult_self2)
  with Cons show ?case by simp
qed simp

lemma packed_lt_word:
  assumes "\<forall>c \<in> set cs. c < 256" and "length cs \<le> 8"
  shows "packed cs < 2 ^ 64"
proof -
  have "packed cs < 256 ^ length cs" using assms(1) by (rule packed_less)
  also have "\<dots> \<le> (256::nat) ^ 8" using assms(2) by (intro power_increasing) simp_all
  finally show ?thesis by simp
qed

lemma shifted_char: "push_bit (8 * k) (ucast (c :: wchar) :: 64 word) = of_nat (256 ^ k * unat c)"
proof -
  have "(2 :: 64 word) ^ (8 * k) = 256 ^ k" by (simp add: power_mult)
  then show ?thesis by (simp add: push_bit_eq_mult)
qed

lemma builder_of_short:
  assumes "length is < 8"
  shows "builder_of is = \<lparr>idAccumulator = of_nat (packed (map unat is)), idShift = 8 * length is\<rparr>"
  using assms
proof (induction "is" rule: rev_induct)
  case Nil
  then show ?case by (simp add: builder_of_def)
next
  case (snoc c cs)
  then have IH: "builder_of cs = \<lparr>idAccumulator = of_nat (packed (map unat cs)), idShift = 8 * length cs\<rparr>"
    by simp
  have "builder_of (cs @ [c]) = AddIntermediate c (builder_of cs)" by (simp add: builder_of_def)
  also have "\<dots> = \<lparr>idAccumulator = of_nat (packed (map unat cs)) + push_bit (8 * length cs) (ucast c),
      idShift = 8 * length (cs @ [c])\<rparr>"
    using snoc.prems by (simp add: IH AddIntermediate_def)
  finally show ?case by (simp add: packed_append shifted_char)
qed

lemma Finalize_short:
  assumes "length is < 8"
  shows "Finalize c (builder_of is) = of_nat (packed (map unat (is @ [c])))"
  by (simp add: Finalize_def builder_of_short [OF assms] packed_append shifted_char)

lemma builder_of_overflow:
  assumes "8 \<le> length is"
  shows "builder_of is = \<lparr>idAccumulator = 0, idShift = 56\<rparr>"
proof -
  have full: "AddIntermediate c \<lparr>idAccumulator = a, idShift = 56\<rparr> = \<lparr>idAccumulator = 0, idShift = 56\<rparr>" for c a
    by (simp add: AddIntermediate_def)
  have step: "fold AddIntermediate cs \<lparr>idAccumulator = 0, idShift = 56\<rparr> = \<lparr>idAccumulator = 0, idShift = 56\<rparr>" for cs
    by (induction cs) (simp_all add: full)
  have ds: "drop 7 is = is ! 7 # drop 8 is"
    using assms Cons_nth_drop_Suc [of 7 "is"] by simp
  have "builder_of is = fold AddIntermediate (drop 7 is) (builder_of (take 7 is))"
    using fold_append [of AddIntermediate "take 7 is" "drop 7 is"] by (simp add: builder_of_def)
  also have "builder_of (take 7 is) = \<lparr>idAccumulator = of_nat (packed (map unat (take 7 is))), idShift = 56\<rparr>"
    using assms by (simp add: builder_of_short)
  finally show ?thesis by (simp add: ds full step)
qed

lemma vtid_from_string_packed: "vtid_from_string s = of_nat (packed (map of_char s))"
  unfolding vtid_from_string_def
  by (induction s) (simp_all add: push_bit_eq_mult mult.commute add.commute of_nat_of_char)

end
