(* ===== verification/State_Machine.thy ===== *)
theory State_Machine
  imports Vt_Types
begin

text \<open>
  The VT parser of \<^verbatim>\<open>src/terminal/parser/stateMachine.cpp\<close>. The members of class \<^verbatim>\<open>StateMachine\<close> are the
  record \<open>state_machine\<close>, with the state \<open>'e\<close> of the engine it owns as a field; the virtual functions of
  \<^verbatim>\<open>IStateMachineEngine\<close> are the record \<open>engine_ops\<close>. An engine operation receives the whole machine, since
  an engine may call back into \<^verbatim>\<open>StateMachine::FlushToTerminal\<close>. Tracing and telemetry are left out.
  Calling a null \<^verbatim>\<open>std::function\<close> and reading behind the end of a view are error values.
\<close>

section \<open>Character classes\<close>

abbreviation (input) ASCII_BEL :: wchar where "ASCII_BEL \<equiv> 0x07"
abbreviation (input) ASCII_ETB :: wchar where "ASCII_ETB \<equiv> 0x17"
abbreviation (input) ASCII_CAN :: wchar where "ASCII_CAN \<equiv> 0x18"
abbreviation (input) ASCII_EM :: wchar where "ASCII_EM \<equiv> 0x19"
abbreviation (input) ASCII_SUB :: wchar where "ASCII_SUB \<equiv> 0x1A"
abbreviation (input) ASCII_ESC :: wchar where "ASCII_ESC \<equiv> 0x1B"
abbreviation (input) ASCII_FS :: wchar where "ASCII_FS \<equiv> 0x1C"
abbreviation (input) ASCII_US :: wchar where "ASCII_US \<equiv> 0x1F"
abbreviation (input) ASCII_SPC :: wchar where "ASCII_SPC \<equiv> 0x20"
abbreviation (input) ASCII_DEL :: wchar where "ASCII_DEL \<equiv> 0x7F"

named_theorems char_class

definition isNumericParamValue :: "wchar \<Rightarrow> bool" where
  [char_class]: "isNumericParamValue wch \<longleftrightarrow> wch \<ge> 0x30 \<and> wch \<le> 0x39"

definition isC0Code :: "wchar \<Rightarrow> bool" where
  [char_class]: "isC0Code wch \<longleftrightarrow>
     (wch \<ge> 0 \<and> wch \<le> ASCII_ETB) \<or> wch = ASCII_EM \<or> (wch \<ge> ASCII_FS \<and> wch \<le> ASCII_US)"

definition isC1ControlCharacter :: "wchar \<Rightarrow> bool" where
  [char_class]: "isC1ControlCharacter wch \<longleftrightarrow> wch \<ge> 0x80 \<and> wch \<le> 0x9F"

definition c1To7Bit :: "wchar \<Rightarrow> wchar" where
  "c1To7Bit wch = wch - 0x40"

definition isIntermediate :: "wchar \<Rightarrow> bool" where
  [char_class]: "isIntermediate wch \<longleftrightarrow> wch \<ge> 0x20 \<and> wch \<le> 0x2F"

definition isDelete :: "wchar \<Rightarrow> bool" where
  [char_class]: "isDelete wch \<longleftrightarrow> wch = ASCII_DEL"

definition isEscape :: "wchar \<Rightarrow> bool" where
  [char_class]: "isEscape wch \<longleftrightarrow> wch = ASCII_ESC"

definition isParameterDelimiter :: "wchar \<Rightarrow> bool" where
  [char_class]: "isParameterDelimiter wch \<longleftrightarrow> wch = 0x3B"

definition isCsiIndicator :: "wchar \<Rightarrow> bool" where
  [char_class]: "isCsiIndicator wch \<longleftrightarrow> wch = 0x5B"

definition isCsiPrivateMarker :: "wchar \<Rightarrow> bool" where
  [char_class]: "isCsiPrivateMarker wch \<longleftrightarrow> wch = 0x3C \<or> wch = 0x3D \<or> wch = 0x3E \<or> wch = 0x3F"

definition isCsiInvalid :: "wchar \<Rightarrow> bool" where
  [char_class]: "isCsiInvalid wch \<longleftrightarrow> wch = 0x3A"

definition isIntermediateInvalid :: "wchar \<Rightarrow> bool" where
  [char_class]: "isIntermediateInvalid wch \<longleftrightarrow>
     isNumericParamValue wch \<or> isCsiInvalid wch \<or> isParameterDelimiter wch \<or> isCsiPrivateMarker wch"

definition isParameterInvalid :: "wchar \<Rightarrow> bool" where
  [char_class]: "isParameterInvalid wch \<longleftrightarrow> isCsiInvalid wch \<or> isCsiPrivateMarker wch"

definition isStringTerminatorIndicator :: "wchar \<Rightarrow> bool" where
  [char_class]: "isStringTerminatorIndicator wch \<longleftrightarrow> wch = 0x5C"

definition isSs3Indicator :: "wchar \<Rightarrow> bool" where
  [char_class]: "isSs3Indicator wch \<longleftrightarrow> wch = 0x4F"

definition isVt52CursorAddress :: "wchar \<Rightarrow> bool" where
  [char_class]: "isVt52CursorAddress wch \<longleftrightarrow> wch = 0x59"

definition isOscIndicator :: "wchar \<Rightarrow> bool" where
  [char_class]: "isOscIndicator wch \<longleftrightarrow> wch = 0x5D"

definition isOscDelimiter :: "wchar \<Rightarrow> bool" where
  [char_class]: "isOscDelimiter wch \<longleftrightarrow> wch = 0x3B"

definition isOscInvalid :: "wchar \<Rightarrow> bool" where
  [char_class]: "isOscInvalid wch \<longleftrightarrow> wch \<le> 0x17 \<or> wch = 0x19 \<or> (wch \<ge> 0x1C \<and> wch \<le> 0x1F)"

definition isOscTerminator :: "wchar \<Rightarrow> bool" where
  [char_class]: "isOscTerminator wch \<longleftrightarrow> wch = ASCII_BEL"

definition isDcsIndicator :: "wchar \<Rightarrow> bool" where
  [char_class]: "isDcsIndicator wch \<longleftrightarrow> wch = 0x50"

definition isDcsPassThroughValid :: "wchar \<Rightarrow> bool" where
  [char_class]: "isDcsPassThroughValid wch \<longleftrightarrow> wch \<ge> ASCII_SPC \<and> wch < ASCII_DEL"

definition isSosIndicator :: "wchar \<Rightarrow> bool" where
  [char_class]: "isSosIndicator wch \<longleftrightarrow> wch = 0x58"

definition isPmIndicator :: "wchar \<Rightarrow> bool" where
  [char_class]: "isPmIndicator wch \<longleftrightarrow> wch = 0x5E"

definition isApcIndicator :: "wchar \<Rightarrow> bool" where
  [char_class]: "isApcIndicator wch \<longleftrightarrow> wch = 0x5F"

definition isActionableFromGround :: "wchar \<Rightarrow> bool" where
  [char_class]: "isActionableFromGround wch \<longleftrightarrow>
     wch \<le> ASCII_US \<or> isC1ControlCharacter wch \<or> isDelete wch"

section \<open>The machine and its engine\<close>

datatype VTStates =
    Ground | Escape | EscapeIntermediate | CsiEntry | CsiIntermediate | CsiIgnore | CsiParam
  | OscParam | OscString | OscTermination | Ss3Entry | Ss3Param | Vt52Param
  | DcsEntry | DcsIgnore | DcsIntermediate | DcsParam | DcsPassThrough | SosPmApcString

type_synonym 'e string_handler = "wchar \<Rightarrow> 'e \<Rightarrow> bool \<times> 'e"

record 'e state_machine =
  sm_engine :: 'e
  sm_state :: VTStates
  sm_isInAnsiMode :: bool
  sm_run :: wstring
  sm_identifier :: VTIDBuilder
  sm_parameters :: VTParameters
  sm_parameterLimitReached :: bool
  sm_oscString :: wstring
  sm_oscParameter :: size_t
  sm_dcsStringHandler :: "'e string_handler option"
  sm_cachedSequence :: "wstring option"
  sm_processingIndividually :: bool

type_synonym 'e engine_action = "'e state_machine \<Rightarrow> bool \<times> 'e state_machine"

record 'e engine_ops =
  ActionExecute :: "wchar \<Rightarrow> 'e engine_action"
  ActionExecuteFromEscape :: "wchar \<Rightarrow> 'e engine_action"
  ActionPrint :: "wchar \<Rightarrow> 'e engine_action"
  ActionPrintString :: "wstring \<Rightarrow> 'e engine_action"
  ActionPassThroughString :: "wstring \<Rightarrow> 'e engine_action"
  ActionEscDispatch :: "VTID \<Rightarrow> 'e engine_action"
  ActionVt52EscDispatch :: "VTID \<Rightarrow> VTParameters \<Rightarrow> 'e engine_action"
  ActionCsiDispatch :: "VTID \<Rightarrow> VTParameters \<Rightarrow> 'e engine_action"
  ActionDcsDispatch ::
    "VTID \<Rightarrow> VTParameters \<Rightarrow> 'e state_machine \<Rightarrow> 'e string_handler option \<times> 'e state_machine"
  ActionClear :: "'e engine_action"
  ActionIgnore :: "'e engine_action"
  ActionOscDispatch :: "wchar \<Rightarrow> size_t \<Rightarrow> wstring \<Rightarrow> 'e engine_action"
  ActionSs3Dispatch :: "wchar \<Rightarrow> VTParameters \<Rightarrow> 'e engine_action"
  ParseControlSequenceAfterSs3 :: "'e \<Rightarrow> bool"
  FlushAtEndOfString :: "'e \<Rightarrow> bool"
  DispatchControlCharsFromEscape :: "'e \<Rightarrow> bool"
  DispatchIntermediatesFromEscape :: "'e \<Rightarrow> bool"

datatype sm_error = Bad_function_call | Empty_run

definition SetAnsiMode :: "bool \<Rightarrow> 'e state_machine \<Rightarrow> 'e state_machine" where
  "SetAnsiMode ansiMode s = s\<lparr>sm_isInAnsiMode := ansiMode\<rparr>"

section \<open>Actions\<close>

definition MAX_PARAMETER_VALUE :: size_t where
  "MAX_PARAMETER_VALUE = 32767"

definition MAX_PARAMETER_COUNT :: nat where
  "MAX_PARAMETER_COUNT = 32"

definition AccumulateTo :: "wchar \<Rightarrow> size_t \<Rightarrow> size_t" where
  "AccumulateTo wch val =
     (let digit = ucast wch - 0x30;
          val = val * 10 + digit
      in if val > MAX_PARAMETER_VALUE then MAX_PARAMETER_VALUE else val)"

definition sm_ActionExecute :: "'e engine_ops \<Rightarrow> wchar \<Rightarrow> 'e state_machine \<Rightarrow> 'e state_machine" where
  "sm_ActionExecute eng wch s = snd (ActionExecute eng wch s)"

definition sm_ActionExecuteFromEscape :: "'e engine_ops \<Rightarrow> wchar \<Rightarrow> 'e state_machine \<Rightarrow> 'e state_machine" where
  "sm_ActionExecuteFromEscape eng wch s = snd (ActionExecuteFromEscape eng wch s)"

definition sm_ActionPrint :: "'e engine_ops \<Rightarrow> wchar \<Rightarrow> 'e state_machine \<Rightarrow> 'e state_machine" where
  "sm_ActionPrint eng wch s = snd (ActionPrint eng wch s)"

definition sm_ActionEscDispatch :: "'e engine_ops \<Rightarrow> wchar \<Rightarrow> 'e state_machine \<Rightarrow> 'e state_machine" where
  "sm_ActionEscDispatch eng wch s = snd (ActionEscDispatch eng (Finalize wch (sm_identifier s)) s)"

definition sm_ActionVt52EscDispatch :: "'e engine_ops \<Rightarrow> wchar \<Rightarrow> 'e state_machine \<Rightarrow> 'e state_machine" where
  "sm_ActionVt52EscDispatch eng wch s =
     snd (ActionVt52EscDispatch eng (Finalize wch (sm_identifier s)) (sm_parameters s) s)"

definition sm_ActionCsiDispatch :: "'e engine_ops \<Rightarrow> wchar \<Rightarrow> 'e state_machine \<Rightarrow> 'e state_machine" where
  "sm_ActionCsiDispatch eng wch s =
     snd (ActionCsiDispatch eng (Finalize wch (sm_identifier s)) (sm_parameters s) s)"

definition sm_ActionCollect :: "wchar \<Rightarrow> 'e state_machine \<Rightarrow> 'e state_machine" where
  "sm_ActionCollect wch s = s\<lparr>sm_identifier := AddIntermediate wch (sm_identifier s)\<rparr>"

definition sm_ActionParam :: "wchar \<Rightarrow> 'e state_machine \<Rightarrow> 'e state_machine" where
  "sm_ActionParam wch s =
     (if \<not> sm_parameterLimitReached s then
        (let s = (if sm_parameters s = [] then s\<lparr>sm_parameters := sm_parameters s @ [vtp_omitted]\<rparr> else s) in
         if isParameterDelimiter wch then
           (if length (sm_parameters s) \<ge> MAX_PARAMETER_COUNT
            then s\<lparr>sm_parameterLimitReached := True\<rparr>
            else s\<lparr>sm_parameters := sm_parameters s @ [vtp_omitted]\<rparr>)
         else
           (let currentParameter = value_or (last (sm_parameters s)) 0;
                currentParameter = AccumulateTo wch currentParameter
            in s\<lparr>sm_parameters := butlast (sm_parameters s) @ [vtp_of_size currentParameter]\<rparr>))
      else s)"

definition sm_ActionClear :: "'e engine_ops \<Rightarrow> 'e state_machine \<Rightarrow> 'e state_machine" where
  "sm_ActionClear eng s =
     snd (ActionClear eng
       (s\<lparr>sm_identifier := vtid_Clear (sm_identifier s), sm_parameters := [],
          sm_parameterLimitReached := False, sm_oscString := [], sm_oscParameter := 0,
          sm_dcsStringHandler := None\<rparr>))"

text \<open>Calling \<^verbatim>\<open>_dcsStringHandler(wch)\<close>: the result, or \<^verbatim>\<open>std::bad_function_call\<close> on a null handler.\<close>

definition call_handler :: "wchar \<Rightarrow> 'e state_machine \<Rightarrow> sm_error + bool \<times> 'e state_machine" where
  "call_handler wch s =
     (case sm_dcsStringHandler s of
        None \<Rightarrow> Inl Bad_function_call
      | Some h \<Rightarrow> (case h wch (sm_engine s) of (r, e) \<Rightarrow> Inr (r, s\<lparr>sm_engine := e\<rparr>)))"

definition sm_ActionInterrupt :: "'e state_machine \<Rightarrow> sm_error + 'e state_machine" where
  "sm_ActionInterrupt s =
     (if sm_state s = DcsPassThrough then
        (case call_handler ASCII_ESC s of
           Inl e \<Rightarrow> Inl e
         | Inr (_, s') \<Rightarrow> Inr (s'\<lparr>sm_dcsStringHandler := None\<rparr>))
      else Inr s)"

definition sm_ActionOscParam :: "wchar \<Rightarrow> 'e state_machine \<Rightarrow> 'e state_machine" where
  "sm_ActionOscParam wch s = s\<lparr>sm_oscParameter := AccumulateTo wch (sm_oscParameter s)\<rparr>"

definition sm_ActionOscPut :: "wchar \<Rightarrow> 'e state_machine \<Rightarrow> 'e state_machine" where
  "sm_ActionOscPut wch s = s\<lparr>sm_oscString := sm_oscString s @ [wch]\<rparr>"

definition sm_ActionOscDispatch :: "'e engine_ops \<Rightarrow> wchar \<Rightarrow> 'e state_machine \<Rightarrow> 'e state_machine" where
  "sm_ActionOscDispatch eng wch s =
     snd (ActionOscDispatch eng wch (sm_oscParameter s) (sm_oscString s) s)"

definition sm_ActionSs3Dispatch :: "'e engine_ops \<Rightarrow> wchar \<Rightarrow> 'e state_machine \<Rightarrow> 'e state_machine" where
  "sm_ActionSs3Dispatch eng wch s = snd (ActionSs3Dispatch eng wch (sm_parameters s) s)"

section \<open>State entries\<close>

definition EnterGround :: "'e state_machine \<Rightarrow> 'e state_machine" where
  "EnterGround s = s\<lparr>sm_state := Ground, sm_cachedSequence := None\<rparr>"

definition EnterEscape :: "'e engine_ops \<Rightarrow> 'e state_machine \<Rightarrow> 'e state_machine" where
  "EnterEscape eng s = sm_ActionClear eng (s\<lparr>sm_state := Escape\<rparr>)"

definition EnterEscapeIntermediate :: "'e state_machine \<Rightarrow> 'e state_machine" where
  "EnterEscapeIntermediate s = s\<lparr>sm_state := EscapeIntermediate\<rparr>"

definition EnterCsiEntry :: "'e engine_ops \<Rightarrow> 'e state_machine \<Rightarrow> 'e state_machine" where
  "EnterCsiEntry eng s = sm_ActionClear eng (s\<lparr>sm_state := CsiEntry\<rparr>)"

definition EnterCsiParam :: "'e state_machine \<Rightarrow> 'e state_machine" where
  "EnterCsiParam s = s\<lparr>sm_state := CsiParam\<rparr>"

definition EnterCsiIgnore :: "'e state_machine \<Rightarrow> 'e state_machine" where
  "EnterCsiIgnore s = s\<lparr>sm_state := CsiIgnore\<rparr>"

definition EnterCsiIntermediate :: "'e state_machine \<Rightarrow> 'e state_machine" where
  "EnterCsiIntermediate s = s\<lparr>sm_state := CsiIntermediate\<rparr>"

definition EnterOscParam :: "'e state_machine \<Rightarrow> 'e state_machine" where
  "EnterOscParam s = s\<lparr>sm_state := OscParam\<rparr>"

definition EnterOscString :: "'e state_machine \<Rightarrow> 'e state_machine" where
  "EnterOscString s = s\<lparr>sm_state := OscString\<rparr>"

definition EnterOscTermination :: "'e state_machine \<Rightarrow> 'e state_machine" where
  "EnterOscTermination s = s\<lparr>sm_state := OscTermination\<rparr>"

definition EnterSs3Entry :: "'e engine_ops \<Rightarrow> 'e state_machine \<Rightarrow> 'e state_machine" where
  "EnterSs3Entry eng s = sm_ActionClear eng (s\<lparr>sm_state := Ss3Entry\<rparr>)"

definition EnterSs3Param :: "'e state_machine \<Rightarrow> 'e state_machine" where
  "EnterSs3Param s = s\<lparr>sm_state := Ss3Param\<rparr>"

definition EnterVt52Param :: "'e state_machine \<Rightarrow> 'e state_machine" where
  "EnterVt52Param s = s\<lparr>sm_state := Vt52Param\<rparr>"

definition EnterDcsEntry :: "'e engine_ops \<Rightarrow> 'e state_machine \<Rightarrow> 'e state_machine" where
  "EnterDcsEntry eng s = sm_ActionClear eng (s\<lparr>sm_state := DcsEntry\<rparr>)"

definition EnterDcsParam :: "'e state_machine \<Rightarrow> 'e state_machine" where
  "EnterDcsParam s = s\<lparr>sm_state := DcsParam\<rparr>"

definition EnterDcsIgnore :: "'e state_machine \<Rightarrow> 'e state_machine" where
  "EnterDcsIgnore s = s\<lparr>sm_state := DcsIgnore\<rparr>"

definition EnterDcsIntermediate :: "'e state_machine \<Rightarrow> 'e state_machine" where
  "EnterDcsIntermediate s = s\<lparr>sm_state := DcsIntermediate\<rparr>"

definition EnterDcsPassThrough :: "'e state_machine \<Rightarrow> 'e state_machine" where
  "EnterDcsPassThrough s = s\<lparr>sm_state := DcsPassThrough\<rparr>"

definition EnterSosPmApcString :: "'e state_machine \<Rightarrow> 'e state_machine" where
  "EnterSosPmApcString s = s\<lparr>sm_state := SosPmApcString\<rparr>"

definition sm_ActionDcsDispatch :: "'e engine_ops \<Rightarrow> wchar \<Rightarrow> 'e state_machine \<Rightarrow> 'e state_machine" where
  "sm_ActionDcsDispatch eng wch s =
     (case ActionDcsDispatch eng (Finalize wch (sm_identifier s)) (sm_parameters s) s of
        (handler, s') \<Rightarrow>
          (let s' = s'\<lparr>sm_dcsStringHandler := handler\<rparr> in
           case handler of Some _ \<Rightarrow> EnterDcsPassThrough s' | None \<Rightarrow> EnterDcsIgnore s'))"

section \<open>Events: one function per state\<close>

definition EventGround :: "'e engine_ops \<Rightarrow> wchar \<Rightarrow> 'e state_machine \<Rightarrow> 'e state_machine" where
  "EventGround eng wch s =
     (if isC0Code wch \<or> isDelete wch then sm_ActionExecute eng wch s else sm_ActionPrint eng wch s)"

definition EventEscape :: "'e engine_ops \<Rightarrow> wchar \<Rightarrow> 'e state_machine \<Rightarrow> 'e state_machine" where
  "EventEscape eng wch s =
     (if isC0Code wch then
        (if DispatchControlCharsFromEscape eng (sm_engine s)
         then EnterGround (sm_ActionExecuteFromEscape eng wch s)
         else sm_ActionExecute eng wch s)
      else if isDelete wch then s
      else if isIntermediate wch then
        (if DispatchIntermediatesFromEscape eng (sm_engine s)
         then EnterGround (sm_ActionEscDispatch eng wch s)
         else EnterEscapeIntermediate (sm_ActionCollect wch s))
      else if sm_isInAnsiMode s then
        (if isCsiIndicator wch then EnterCsiEntry eng s
         else if isOscIndicator wch then EnterOscParam s
         else if isSs3Indicator wch \<and> ParseControlSequenceAfterSs3 eng (sm_engine s)
         then EnterSs3Entry eng s
         else if isDcsIndicator wch then EnterDcsEntry eng s
         else if isSosIndicator wch \<or> isPmIndicator wch \<or> isApcIndicator wch
         then EnterSosPmApcString s
         else EnterGround (sm_ActionEscDispatch eng wch s))
      else if isVt52CursorAddress wch then EnterVt52Param s
      else EnterGround (sm_ActionVt52EscDispatch eng wch s))"

definition EventEscapeIntermediate :: "'e engine_ops \<Rightarrow> wchar \<Rightarrow> 'e state_machine \<Rightarrow> 'e state_machine" where
  "EventEscapeIntermediate eng wch s =
     (if isC0Code wch then sm_ActionExecute eng wch s
      else if isIntermediate wch then sm_ActionCollect wch s
      else if isDelete wch then s
      else if sm_isInAnsiMode s then EnterGround (sm_ActionEscDispatch eng wch s)
      else if isVt52CursorAddress wch then EnterVt52Param s
      else EnterGround (sm_ActionVt52EscDispatch eng wch s))"

definition EventCsiEntry :: "'e engine_ops \<Rightarrow> wchar \<Rightarrow> 'e state_machine \<Rightarrow> 'e state_machine" where
  "EventCsiEntry eng wch s =
     (if isC0Code wch then sm_ActionExecute eng wch s
      else if isDelete wch then s
      else if isIntermediate wch then EnterCsiIntermediate (sm_ActionCollect wch s)
      else if isCsiInvalid wch then EnterCsiIgnore s
      else if isNumericParamValue wch \<or> isParameterDelimiter wch
      then EnterCsiParam (sm_ActionParam wch s)
      else if isCsiPrivateMarker wch then EnterCsiParam (sm_ActionCollect wch s)
      else EnterGround (sm_ActionCsiDispatch eng wch s))"

definition EventCsiIntermediate :: "'e engine_ops \<Rightarrow> wchar \<Rightarrow> 'e state_machine \<Rightarrow> 'e state_machine" where
  "EventCsiIntermediate eng wch s =
     (if isC0Code wch then sm_ActionExecute eng wch s
      else if isIntermediate wch then sm_ActionCollect wch s
      else if isDelete wch then s
      else if isIntermediateInvalid wch then EnterCsiIgnore s
      else EnterGround (sm_ActionCsiDispatch eng wch s))"

definition EventCsiIgnore :: "'e engine_ops \<Rightarrow> wchar \<Rightarrow> 'e state_machine \<Rightarrow> 'e state_machine" where
  "EventCsiIgnore eng wch s =
     (if isC0Code wch then sm_ActionExecute eng wch s
      else if isDelete wch then s
      else if isIntermediate wch then s
      else if isIntermediateInvalid wch then s
      else EnterGround s)"

definition EventCsiParam :: "'e engine_ops \<Rightarrow> wchar \<Rightarrow> 'e state_machine \<Rightarrow> 'e state_machine" where
  "EventCsiParam eng wch s =
     (if isC0Code wch then sm_ActionExecute eng wch s
      else if isDelete wch then s
      else if isNumericParamValue wch \<or> isParameterDelimiter wch then sm_ActionParam wch s
      else if isIntermediate wch then EnterCsiIntermediate (sm_ActionCollect wch s)
      else if isParameterInvalid wch then EnterCsiIgnore s
      else EnterGround (sm_ActionCsiDispatch eng wch s))"

definition EventOscParam :: "wchar \<Rightarrow> 'e state_machine \<Rightarrow> 'e state_machine" where
  "EventOscParam wch s =
     (if isOscTerminator wch then EnterGround s
      else if isNumericParamValue wch then sm_ActionOscParam wch s
      else if isOscDelimiter wch then EnterOscString s
      else s)"

definition EventOscString :: "'e engine_ops \<Rightarrow> wchar \<Rightarrow> 'e state_machine \<Rightarrow> 'e state_machine" where
  "EventOscString eng wch s =
     (if isOscTerminator wch then EnterGround (sm_ActionOscDispatch eng wch s)
      else if isEscape wch then EnterOscTermination s
      else if isOscInvalid wch then s
      else sm_ActionOscPut wch s)"

definition EventOscTermination :: "'e engine_ops \<Rightarrow> wchar \<Rightarrow> 'e state_machine \<Rightarrow> 'e state_machine" where
  "EventOscTermination eng wch s =
     (if isStringTerminatorIndicator wch then EnterGround (sm_ActionOscDispatch eng wch s)
      else EventEscape eng wch (EnterEscape eng s))"

definition EventSs3Entry :: "'e engine_ops \<Rightarrow> wchar \<Rightarrow> 'e state_machine \<Rightarrow> 'e state_machine" where
  "EventSs3Entry eng wch s =
     (if isC0Code wch then sm_ActionExecute eng wch s
      else if isDelete wch then s
      else if isCsiInvalid wch then EnterCsiIgnore s
      else if isNumericParamValue wch \<or> isParameterDelimiter wch
      then EnterSs3Param (sm_ActionParam wch s)
      else EnterGround (sm_ActionSs3Dispatch eng wch s))"

definition EventSs3Param :: "'e engine_ops \<Rightarrow> wchar \<Rightarrow> 'e state_machine \<Rightarrow> 'e state_machine" where
  "EventSs3Param eng wch s =
     (if isC0Code wch then sm_ActionExecute eng wch s
      else if isDelete wch then s
      else if isNumericParamValue wch \<or> isParameterDelimiter wch then sm_ActionParam wch s
      else if isParameterInvalid wch then EnterCsiIgnore s
      else EnterGround (sm_ActionSs3Dispatch eng wch s))"

definition EventVt52Param :: "'e engine_ops \<Rightarrow> wchar \<Rightarrow> 'e state_machine \<Rightarrow> 'e state_machine" where
  "EventVt52Param eng wch s =
     (if isC0Code wch then sm_ActionExecute eng wch s
      else if isDelete wch then s
      else
        (let s = s\<lparr>sm_parameters := sm_parameters s @ [vtp_of_size (ucast wch)]\<rparr> in
         if length (sm_parameters s) = 2
         then EnterGround (sm_ActionVt52EscDispatch eng 0x59 s)
         else s))"

definition EventDcsEntry :: "'e engine_ops \<Rightarrow> wchar \<Rightarrow> 'e state_machine \<Rightarrow> 'e state_machine" where
  "EventDcsEntry eng wch s =
     (if isC0Code wch then s
      else if isDelete wch then s
      else if isCsiInvalid wch then EnterDcsIgnore s
      else if isNumericParamValue wch \<or> isParameterDelimiter wch
      then EnterDcsParam (sm_ActionParam wch s)
      else if isIntermediate wch then EnterDcsIntermediate (sm_ActionCollect wch s)
      else sm_ActionDcsDispatch eng wch s)"

definition EventDcsIgnore :: "'e state_machine \<Rightarrow> 'e state_machine" where
  "EventDcsIgnore s = s"

definition EventDcsIntermediate :: "'e engine_ops \<Rightarrow> wchar \<Rightarrow> 'e state_machine \<Rightarrow> 'e state_machine" where
  "EventDcsIntermediate eng wch s =
     (if isC0Code wch then s
      else if isDelete wch then s
      else if isIntermediate wch then sm_ActionCollect wch s
      else if isIntermediateInvalid wch then EnterDcsIgnore s
      else sm_ActionDcsDispatch eng wch s)"

text \<open>The first two tests of \<^verbatim>\<open>_EventDcsParam\<close> only ignore the character; the third \<^verbatim>\<open>if\<close> is not an \<^verbatim>\<open>else if\<close>,
  so every character goes on to the chain below them.\<close>

definition EventDcsParam :: "'e engine_ops \<Rightarrow> wchar \<Rightarrow> 'e state_machine \<Rightarrow> 'e state_machine" where
  "EventDcsParam eng wch s =
     (let s = (if isC0Code wch then s else if isDelete wch then s else s) in
      if isNumericParamValue wch \<or> isParameterDelimiter wch then sm_ActionParam wch s
      else if isIntermediate wch then EnterDcsIntermediate (sm_ActionCollect wch s)
      else if isParameterInvalid wch then EnterDcsIgnore s
      else sm_ActionDcsDispatch eng wch s)"

definition EventDcsPassThrough :: "wchar \<Rightarrow> 'e state_machine \<Rightarrow> sm_error + 'e state_machine" where
  "EventDcsPassThrough wch s =
     (if isC0Code wch \<or> isDcsPassThroughValid wch then
        (case call_handler wch s of
           Inl e \<Rightarrow> Inl e
         | Inr (r, s') \<Rightarrow> Inr (if \<not> r then EnterDcsIgnore s' else s'))
      else Inr s)"

definition EventSosPmApcString :: "wchar \<Rightarrow> 'e state_machine \<Rightarrow> 'e state_machine" where
  "EventSosPmApcString wch s = s"

section \<open>Processing characters and strings\<close>

definition dispatch_event ::
  "'e engine_ops \<Rightarrow> wchar \<Rightarrow> 'e state_machine \<Rightarrow> sm_error + 'e state_machine" where
  "dispatch_event eng wch s =
     (case sm_state s of
        Ground \<Rightarrow> Inr (EventGround eng wch s)
      | Escape \<Rightarrow> Inr (EventEscape eng wch s)
      | EscapeIntermediate \<Rightarrow> Inr (EventEscapeIntermediate eng wch s)
      | CsiEntry \<Rightarrow> Inr (EventCsiEntry eng wch s)
      | CsiIntermediate \<Rightarrow> Inr (EventCsiIntermediate eng wch s)
      | CsiIgnore \<Rightarrow> Inr (EventCsiIgnore eng wch s)
      | CsiParam \<Rightarrow> Inr (EventCsiParam eng wch s)
      | OscParam \<Rightarrow> Inr (EventOscParam wch s)
      | OscString \<Rightarrow> Inr (EventOscString eng wch s)
      | OscTermination \<Rightarrow> Inr (EventOscTermination eng wch s)
      | Ss3Entry \<Rightarrow> Inr (EventSs3Entry eng wch s)
      | Ss3Param \<Rightarrow> Inr (EventSs3Param eng wch s)
      | Vt52Param \<Rightarrow> Inr (EventVt52Param eng wch s)
      | DcsEntry \<Rightarrow> Inr (EventDcsEntry eng wch s)
      | DcsIgnore \<Rightarrow> Inr (EventDcsIgnore s)
      | DcsIntermediate \<Rightarrow> Inr (EventDcsIntermediate eng wch s)
      | DcsParam \<Rightarrow> Inr (EventDcsParam eng wch s)
      | DcsPassThrough \<Rightarrow> EventDcsPassThrough wch s
      | SosPmApcString \<Rightarrow> Inr (EventSosPmApcString wch s))"

lemma c1_range:
  assumes "isC1ControlCharacter wch"
  shows "0x40 \<le> unat (c1To7Bit wch)" and "unat (c1To7Bit wch) \<le> 0x5F"
proof -
  have "0x80 \<le> unat wch" "unat wch \<le> 0x9F"
    using assms by (simp_all add: char_class word_le_nat_alt)
  moreover from this have "unat (c1To7Bit wch) = unat wch - 0x40"
    by (simp add: c1To7Bit_def unat_sub_no_underflow)
  ultimately show "0x40 \<le> unat (c1To7Bit wch)" and "unat (c1To7Bit wch) \<le> 0x5F" by simp_all
qed

lemma c1To7Bit_not_c1: "isC1ControlCharacter wch \<Longrightarrow> \<not> isC1ControlCharacter (c1To7Bit wch)"
  using c1_range [of wch] by (auto simp: char_class word_le_nat_alt)

lemma escape_not_c1: "\<not> isC1ControlCharacter ASCII_ESC"
  by (simp add: char_class)

function ProcessCharacter ::
  "'e engine_ops \<Rightarrow> wchar \<Rightarrow> 'e state_machine \<Rightarrow> sm_error + 'e state_machine" where
  "ProcessCharacter eng wch s =
     (let isFromAnywhereChar = wch = ASCII_CAN \<or> wch = ASCII_SUB in
      if isFromAnywhereChar
         \<and> \<not> (sm_state s = Escape \<and> DispatchControlCharsFromEscape eng (sm_engine s))
      then (case sm_ActionInterrupt s of
              Inl e \<Rightarrow> Inl e
            | Inr s' \<Rightarrow> Inr (EnterGround (sm_ActionExecute eng wch s')))
      else if isC1ControlCharacter wch
      then (case ProcessCharacter eng ASCII_ESC s of
              Inl e \<Rightarrow> Inl e
            | Inr s' \<Rightarrow> ProcessCharacter eng (c1To7Bit wch) s')
      else if isEscape wch \<and> sm_state s \<noteq> OscString
      then (case sm_ActionInterrupt s of
              Inl e \<Rightarrow> Inl e
            | Inr s' \<Rightarrow> Inr (EnterEscape eng s'))
      else dispatch_event eng wch s)"
  by pat_completeness auto
termination
  by (relation "measure (\<lambda>(eng, wch, s). if isC1ControlCharacter wch then 1 else 0)")
    (auto simp: c1To7Bit_not_c1 escape_not_c1)

declare ProcessCharacter.simps [simp del]

text \<open>\<open>pass\<close> is the engine's \<^verbatim>\<open>ActionPassThroughString\<close>.\<close>

definition FlushToTerminal :: "(wstring \<Rightarrow> 'e engine_action) \<Rightarrow> 'e engine_action" where
  "FlushToTerminal pass s =
     (case (case sm_cachedSequence s of
              Some cached \<Rightarrow>
                (case pass cached s of (r, s') \<Rightarrow> (r, s'\<lparr>sm_cachedSequence := None\<rparr>))
            | None \<Rightarrow> (True, s)) of
        (success, s) \<Rightarrow> if success then pass (sm_run s) s else (success, s))"

definition ResetState :: "'e state_machine \<Rightarrow> 'e state_machine" where
  "ResetState s = EnterGround s"

function process_loop ::
  "'e engine_ops \<Rightarrow> wstring \<Rightarrow> nat \<Rightarrow> nat \<Rightarrow> 'e state_machine \<Rightarrow> sm_error + nat \<times> 'e state_machine" where
  "process_loop eng str start current s =
     (if current < length str then
        (let s = s\<lparr>sm_run := take (current - start + 1) (drop start str)\<rparr> in
         if sm_processingIndividually s then
           (case ProcessCharacter eng (str ! current) s of
              Inl e \<Rightarrow> Inl e
            | Inr s' \<Rightarrow>
                (if sm_state s' = Ground
                 then process_loop eng str (current + 1) (current + 1)
                        (s'\<lparr>sm_processingIndividually := False\<rparr>)
                 else process_loop eng str start (current + 1) s'))
         else if isActionableFromGround (str ! current) then
           (let s = (if sm_run s \<noteq> []
                     then snd (ActionPrintString eng (take (length (sm_run s) - 1) (sm_run s)) s) else s)
            in process_loop eng str current current (s\<lparr>sm_processingIndividually := True\<rparr>))
         else process_loop eng str start (current + 1) s)
      else Inr (start, s))"
  by pat_completeness auto
termination
  by (relation "measure (\<lambda>(eng, str, start, current, s).
        2 * (length str - current) + (if sm_processingIndividually s then 0 else 1))")
    auto

declare process_loop.simps [simp del]

fun process_chars ::
  "'e engine_ops \<Rightarrow> wstring \<Rightarrow> 'e state_machine \<Rightarrow> sm_error + 'e state_machine" where
  "process_chars eng [] s = Inr s"
| "process_chars eng (wch # str) s =
     (case ProcessCharacter eng wch s of Inl e \<Rightarrow> Inl e | Inr s' \<Rightarrow> process_chars eng str s')"

text \<open>The re-processing of an unfinished sequence at the end of a string, for engines that flush there.\<close>

definition flush_sequence :: "'e engine_ops \<Rightarrow> 'e state_machine \<Rightarrow> sm_error + 'e state_machine" where
  "flush_sequence eng s =
     (let s = ResetState s in
      if sm_run s = [] then Inl Empty_run
      else
        (case process_chars eng (butlast (sm_run s)) s of
           Inl e \<Rightarrow> Inl e
         | Inr s' \<Rightarrow>
             (let wch = last (sm_run s);
                  s' = (case sm_state s' of
                          Ground \<Rightarrow> sm_ActionExecute eng wch s'
                        | Escape \<Rightarrow> sm_ActionEscDispatch eng wch s'
                        | EscapeIntermediate \<Rightarrow> sm_ActionEscDispatch eng wch s'
                        | CsiEntry \<Rightarrow> sm_ActionCsiDispatch eng wch s'
                        | CsiIntermediate \<Rightarrow> sm_ActionCsiDispatch eng wch s'
                        | CsiIgnore \<Rightarrow> sm_ActionCsiDispatch eng wch s'
                        | CsiParam \<Rightarrow> sm_ActionCsiDispatch eng wch s'
                        | OscParam \<Rightarrow> sm_ActionOscDispatch eng wch s'
                        | OscString \<Rightarrow> sm_ActionOscDispatch eng wch s'
                        | OscTermination \<Rightarrow> sm_ActionOscDispatch eng wch s'
                        | Ss3Entry \<Rightarrow> sm_ActionSs3Dispatch eng wch s'
                        | Ss3Param \<Rightarrow> sm_ActionSs3Dispatch eng wch s'
                        | _ \<Rightarrow> s')
              in Inr (EnterGround s'))))"

definition ProcessString ::
  "'e engine_ops \<Rightarrow> wstring \<Rightarrow> 'e state_machine \<Rightarrow> sm_error + 'e state_machine" where
  "ProcessString eng str s =
     (case process_loop eng str 0 0 s of
        Inl e \<Rightarrow> Inl e
      | Inr (start, s) \<Rightarrow>
          (let s = s\<lparr>sm_run := (if start < length str then drop start str else [])\<rparr> in
           if \<not> sm_processingIndividually s \<and> sm_run s \<noteq> []
           then Inr (snd (ActionPrintString eng (sm_run s) s))
           else if sm_processingIndividually s then
             (if FlushAtEndOfString eng (sm_engine s) then flush_sequence eng s
              else Inr (s\<lparr>sm_cachedSequence :=
                     Some ((case sm_cachedSequence s of Some c \<Rightarrow> c | None \<Rightarrow> []) @ sm_run s)\<rparr>))
           else Inr s))"

text \<open>The constructor, on a freshly constructed engine.\<close>

definition StateMachine :: "'e engine_ops \<Rightarrow> 'e \<Rightarrow> 'e state_machine" where
  "StateMachine eng engine =
     sm_ActionClear eng
       \<lparr>sm_engine = engine, sm_state = Ground, sm_isInAnsiMode = True, sm_run = [],
        sm_identifier = \<lparr>idAccumulator = 0, idShift = 0\<rparr>, sm_parameters = [],
        sm_parameterLimitReached = False, sm_oscString = [], sm_oscParameter = 0,
        sm_dcsStringHandler = None, sm_cachedSequence = None, sm_processingIndividually = False\<rparr>"

end
