(* ===== verification/State_Machine_Inv.thy ===== *)
theory State_Machine_Inv
  imports State_Machine
begin

text \<open>
  The contract between the parser and its engine (locale \<open>parser_engine\<close>), the invariant of the parser
  and the proof that every event keeps it. The contract is what the class boundary enforces: an engine
  cannot reach the parser's members, except that \<^verbatim>\<open>FlushToTerminal\<close> drops the cached partial sequence
  and that \<^verbatim>\<open>SetAnsiMode\<close> may be called back when a dispatched sequence switches to or from VT52 mode.
\<close>

section \<open>The engine contract\<close>

definition same_parser :: "'e state_machine \<Rightarrow> 'e state_machine \<Rightarrow> bool" where
  "same_parser s s' \<longleftrightarrow>
     s' = s\<lparr>sm_engine := sm_engine s', sm_isInAnsiMode := sm_isInAnsiMode s',
            sm_cachedSequence := sm_cachedSequence s'\<rparr>
     \<and> (sm_cachedSequence s' = sm_cachedSequence s \<or> sm_cachedSequence s' = None)"

lemma same_parser_fields:
  assumes "same_parser s s'"
  shows "sm_state s' = sm_state s" "sm_run s' = sm_run s"
    "sm_identifier s' = sm_identifier s" "sm_parameters s' = sm_parameters s"
    "sm_parameterLimitReached s' = sm_parameterLimitReached s" "sm_oscString s' = sm_oscString s"
    "sm_oscParameter s' = sm_oscParameter s" "sm_dcsStringHandler s' = sm_dcsStringHandler s"
    "sm_processingIndividually s' = sm_processingIndividually s"
  using assms by (cases s; cases s'; simp add: same_parser_def)+

lemma same_parser_refl [simp]: "same_parser s s"
  by (cases s) (simp add: same_parser_def)

lemma same_parser_trans: "same_parser s t \<Longrightarrow> same_parser t u \<Longrightarrow> same_parser s u"
  by (cases s; cases t; cases u; auto simp: same_parser_def)

lemma same_parser_engine [simp]: "same_parser s (s\<lparr>sm_engine := e\<rparr>)"
  by (cases s) (simp add: same_parser_def)

lemma same_parser_mode [simp]: "same_parser s (s\<lparr>sm_engine := e, sm_isInAnsiMode := m\<rparr>)"
  by (cases s) (simp add: same_parser_def)

locale parser_engine =
  fixes eng :: "'e engine_ops"
  assumes keeps_Execute: "same_parser s (snd (ActionExecute eng wch s))"
    and keeps_ExecuteFromEscape: "same_parser s (snd (ActionExecuteFromEscape eng wch s))"
    and keeps_Print: "same_parser s (snd (ActionPrint eng wch s))"
    and keeps_PrintString: "same_parser s (snd (ActionPrintString eng str s))"
    and keeps_PassThrough: "same_parser s (snd (ActionPassThroughString eng str s))"
    and keeps_EscDispatch: "same_parser s (snd (ActionEscDispatch eng vtid s))"
    and keeps_Vt52EscDispatch: "same_parser s (snd (ActionVt52EscDispatch eng vtid ps s))"
    and keeps_CsiDispatch: "same_parser s (snd (ActionCsiDispatch eng vtid ps s))"
    and keeps_DcsDispatch: "same_parser s (snd (ActionDcsDispatch eng vtid ps s))"
    and keeps_Clear: "same_parser s (snd (ActionClear eng s))"
    and keeps_Clear_mode: "sm_isInAnsiMode (snd (ActionClear eng s)) = sm_isInAnsiMode s"
    and keeps_OscDispatch: "same_parser s (snd (ActionOscDispatch eng wch n str s))"
    and keeps_Ss3Dispatch: "same_parser s (snd (ActionSs3Dispatch eng wch ps s))"

section \<open>The parser's invariant\<close>

definition param_ok :: "int \<Rightarrow> VTParameter \<Rightarrow> bool" where
  "param_ok m p \<longleftrightarrow> - 1 \<le> param_value p \<and> param_value p \<le> m"

text \<open>VT52 parameters are raw characters; all others are decimal numbers clamped to 32767.\<close>

definition param_limit :: "VTStates \<Rightarrow> int" where
  "param_limit st =
     (if st \<in> {CsiEntry, CsiIntermediate, CsiIgnore, CsiParam, Ss3Entry, Ss3Param,
              DcsEntry, DcsIgnore, DcsIntermediate, DcsParam, DcsPassThrough}
      then 32767 else 65535)"

definition params_inv :: "'e state_machine \<Rightarrow> bool" where
  "params_inv s \<longleftrightarrow>
     length (sm_parameters s) \<le> MAX_PARAMETER_COUNT
     \<and> list_all (param_ok (param_limit (sm_state s))) (sm_parameters s)
     \<and> (sm_parameterLimitReached s \<longrightarrow> length (sm_parameters s) = MAX_PARAMETER_COUNT)
     \<and> (sm_state s \<in> {Escape, EscapeIntermediate} \<longrightarrow> sm_parameters s = [])
     \<and> (sm_state s = Vt52Param \<longrightarrow> length (sm_parameters s) \<le> 1)"

definition sm_inv :: "'e state_machine \<Rightarrow> bool" where
  "sm_inv s \<longleftrightarrow>
     params_inv s
     \<and> sm_oscParameter s \<le> MAX_PARAMETER_VALUE
     \<and> (sm_state s = DcsPassThrough \<longrightarrow> sm_dcsStringHandler s \<noteq> None)
     \<and> 8 dvd idShift (sm_identifier s) \<and> idShift (sm_identifier s) \<le> 56"

lemma sm_inv_same_parser: "same_parser s s' \<Longrightarrow> sm_inv s' \<longleftrightarrow> sm_inv s"
  by (simp add: sm_inv_def params_inv_def same_parser_fields)

lemma param_limit_mono: "list_all (param_ok 32767) ps \<Longrightarrow> list_all (param_ok (param_limit st)) ps"
  by (auto simp: list_all_iff param_ok_def param_limit_def)

lemma AccumulateTo_le: "AccumulateTo wch v \<le> MAX_PARAMETER_VALUE"
  by (simp add: AccumulateTo_def Let_def not_less)

lemma unat_ucast_char: "unat (ucast (wch :: wchar) :: size_t) = unat wch"
proof -
  have lt: "unat wch < 2 ^ 16" using unsigned_less [of wch] by simp
  then have "take_bit 64 (unat wch) = unat wch" by (intro take_bit_nat_eq_self) (rule less_trans, assumption, simp)
  then show ?thesis by (simp add: unsigned_ucast_eq)
qed

lemma sint_small:
  assumes "unat (v :: size_t) < 2 ^ 63"
  shows "sint v = int (unat v)"
proof -
  have "int (unat v) < int (2 ^ 63)" using assms by (simp only: of_nat_less_iff)
  then have "uint v < 2 ^ 63" by simp
  moreover have "- (2 ^ 63) \<le> uint v" by (rule order_trans [of _ 0]) simp_all
  ultimately have "signed_take_bit 63 (uint v) = uint v" by (intro signed_take_bit_int_eq_self)
  then show ?thesis by (simp add: sint_uint)
qed

lemma param_ok_accumulated:
  assumes "v \<le> MAX_PARAMETER_VALUE"
  shows "param_ok 32767 (vtp_of_size v)"
proof -
  have "unat v \<le> 32767" using assms by (simp add: MAX_PARAMETER_VALUE_def word_le_nat_alt)
  then show ?thesis using sint_small [of v] by (simp add: param_ok_def vtp_of_size_def del: of_nat_unat)
qed

lemma param_ok_char: "param_ok 65535 (vtp_of_size (ucast (wch :: wchar)))"
proof -
  have "unat wch < 2 ^ 16" using unsigned_less [of wch] by simp
  then show ?thesis
    using sint_small [of "ucast wch"] unat_ucast_char [of wch]
    by (simp add: param_ok_def vtp_of_size_def del: of_nat_unat)
qed

section \<open>Actions and state entries\<close>

lemmas Enter_defs =
  EnterGround_def EnterEscapeIntermediate_def EnterCsiParam_def EnterCsiIgnore_def
  EnterCsiIntermediate_def EnterOscParam_def EnterOscString_def EnterOscTermination_def
  EnterSs3Param_def EnterVt52Param_def EnterDcsParam_def EnterDcsIgnore_def EnterDcsIntermediate_def
  EnterDcsPassThrough_def EnterSosPmApcString_def

lemma set_state_inv:
  assumes "sm_inv s" and "param_limit (sm_state s) \<le> param_limit st"
    and "st \<notin> {Escape, EscapeIntermediate, Vt52Param, DcsPassThrough}"
  shows "sm_inv (s\<lparr>sm_state := st\<rparr>)"
  using assms by (fastforce simp: sm_inv_def params_inv_def list_all_iff param_ok_def)

lemma EnterGround_inv: "sm_inv s \<Longrightarrow> sm_inv (EnterGround s)"
  using set_state_inv [of s Ground]
  by (simp add: EnterGround_def sm_inv_def params_inv_def param_limit_def split: if_splits)

lemma ActionCollect_inv: "sm_inv s \<Longrightarrow> sm_inv (sm_ActionCollect wch s)"
  by (auto simp: sm_inv_def params_inv_def sm_ActionCollect_def AddIntermediate_def elim!: dvdE)

lemma ActionCollect_state [simp]: "sm_state (sm_ActionCollect wch s) = sm_state s"
  by (simp add: sm_ActionCollect_def)

lemma ActionParam_state [simp]: "sm_state (sm_ActionParam wch s) = sm_state s"
  by (simp add: sm_ActionParam_def Let_def)

lemma ActionParam_frame:
  "sm_oscParameter (sm_ActionParam wch s) = sm_oscParameter s"
  "sm_dcsStringHandler (sm_ActionParam wch s) = sm_dcsStringHandler s"
  "sm_identifier (sm_ActionParam wch s) = sm_identifier s"
  "sm_run (sm_ActionParam wch s) = sm_run s"
  "sm_isInAnsiMode (sm_ActionParam wch s) = sm_isInAnsiMode s"
  "sm_processingIndividually (sm_ActionParam wch s) = sm_processingIndividually s"
  by (simp_all add: sm_ActionParam_def Let_def)

lemma ActionParam_params:
  assumes "length (sm_parameters s) \<le> MAX_PARAMETER_COUNT" and "list_all (param_ok 32767) (sm_parameters s)"
    and "sm_parameterLimitReached s \<longrightarrow> length (sm_parameters s) = MAX_PARAMETER_COUNT"
  shows "length (sm_parameters (sm_ActionParam wch s)) \<le> MAX_PARAMETER_COUNT
    \<and> list_all (param_ok 32767) (sm_parameters (sm_ActionParam wch s))
    \<and> (sm_parameterLimitReached (sm_ActionParam wch s)
        \<longrightarrow> length (sm_parameters (sm_ActionParam wch s)) = MAX_PARAMETER_COUNT)"
proof -
  have om: "param_ok 32767 vtp_omitted" by (simp add: param_ok_def vtp_omitted_def)
  have acc: "param_ok 32767 (vtp_of_size (AccumulateTo wch v))" for v
    by (rule param_ok_accumulated [OF AccumulateTo_le])
  have but: "list_all (param_ok 32767) (butlast (sm_parameters s))"
    using assms(2) by (auto simp: list_all_iff dest: in_set_butlastD)
  show ?thesis
    using assms om acc but
    by (cases "sm_parameters s" rule: rev_cases)
      (auto simp: sm_ActionParam_def Let_def MAX_PARAMETER_COUNT_def)
qed

lemma ActionParam_inv:
  assumes "sm_inv s" and "param_limit (sm_state s) = 32767"
  shows "sm_inv (sm_ActionParam wch s)"
proof -
  have "sm_state s \<notin> {Escape, EscapeIntermediate, Vt52Param}"
    using assms(2) by (auto simp: param_limit_def)
  then show ?thesis
    using assms ActionParam_params [of s wch] by (simp add: sm_inv_def params_inv_def ActionParam_frame)
qed

lemma OscParam_inv: "sm_inv s \<Longrightarrow> sm_inv (sm_ActionOscParam wch s)"
  by (simp add: sm_inv_def params_inv_def sm_ActionOscParam_def AccumulateTo_le)

lemma OscPut_inv: "sm_inv s \<Longrightarrow> sm_inv (sm_ActionOscPut wch s)"
  by (simp add: sm_inv_def params_inv_def sm_ActionOscPut_def)

lemma call_handler_inv:
  assumes "sm_inv s" and "sm_state s = DcsPassThrough"
  shows "\<exists>r s'. call_handler wch s = Inr (r, s') \<and> same_parser s s'"
  using assms by (auto simp: sm_inv_def call_handler_def split: prod.splits)

lemma ActionInterrupt_ok:
  assumes "sm_inv s"
  shows "\<exists>s'. sm_ActionInterrupt s = Inr s' \<and> same_parser (s\<lparr>sm_dcsStringHandler := sm_dcsStringHandler s'\<rparr>) s'"
proof (cases "sm_state s = DcsPassThrough")
  case True
  obtain r s' where "call_handler ASCII_ESC s = Inr (r, s')" and "same_parser s s'"
    using call_handler_inv [OF assms True] by blast
  with True show ?thesis
    by (cases s; cases s'; auto simp: sm_ActionInterrupt_def same_parser_def)
next
  case False
  then show ?thesis by (cases s) (simp add: sm_ActionInterrupt_def)
qed

definition frame :: "'e state_machine \<Rightarrow> 'e state_machine \<Rightarrow> bool" where
  "frame s s' \<longleftrightarrow> sm_run s' = sm_run s
     \<and> sm_processingIndividually s' = sm_processingIndividually s"

lemma frame_refl [simp]: "frame s s"
  by (simp add: frame_def)

lemma frame_trans: "frame s t \<Longrightarrow> frame t u \<Longrightarrow> frame s u"
  by (simp add: frame_def)

lemma same_parser_frame: "same_parser s s' \<Longrightarrow> frame s s'"
  by (simp add: frame_def same_parser_fields)

text \<open>The invariant between two calls of \<^verbatim>\<open>ProcessString\<close>: outside of the ground state, characters are
  processed one by one, so that no part of a sequence is ever printed.\<close>

definition str_inv :: "'e state_machine \<Rightarrow> bool" where
  "str_inv s \<longleftrightarrow> sm_inv s \<and> (sm_state s \<noteq> Ground \<longrightarrow> sm_processingIndividually s)"

lemma sm_inv_updates [simp]:
  "sm_inv (s\<lparr>sm_run := r\<rparr>) = sm_inv s" "sm_inv (s\<lparr>sm_cachedSequence := c\<rparr>) = sm_inv s"
  "sm_inv (s\<lparr>sm_processingIndividually := b\<rparr>) = sm_inv s" "sm_inv (s\<lparr>sm_isInAnsiMode := b\<rparr>) = sm_inv s"
  by (simp_all add: sm_inv_def params_inv_def)

section \<open>Every event keeps the invariant\<close>

context parser_engine
begin

lemma action_same_parser:
  "same_parser s (sm_ActionExecute eng wch s)" "same_parser s (sm_ActionExecuteFromEscape eng wch s)"
  "same_parser s (sm_ActionPrint eng wch s)" "same_parser s (sm_ActionEscDispatch eng wch s)"
  "same_parser s (sm_ActionVt52EscDispatch eng wch s)" "same_parser s (sm_ActionCsiDispatch eng wch s)"
  "same_parser s (sm_ActionOscDispatch eng wch s)" "same_parser s (sm_ActionSs3Dispatch eng wch s)"
  by (simp_all add: sm_ActionExecute_def sm_ActionExecuteFromEscape_def sm_ActionPrint_def
      sm_ActionEscDispatch_def sm_ActionVt52EscDispatch_def sm_ActionCsiDispatch_def
      sm_ActionOscDispatch_def sm_ActionSs3Dispatch_def keeps_Execute keeps_ExecuteFromEscape
      keeps_Print keeps_EscDispatch keeps_Vt52EscDispatch keeps_CsiDispatch keeps_OscDispatch
      keeps_Ss3Dispatch)

lemmas action_inv = action_same_parser [THEN sm_inv_same_parser, THEN iffD2]

lemmas action_fields = action_same_parser [THEN same_parser_fields(1)]
  action_same_parser [THEN same_parser_fields(9)]

lemma clear_same_parser:
  "same_parser (s\<lparr>sm_identifier := vtid_Clear (sm_identifier s), sm_parameters := [],
     sm_parameterLimitReached := False, sm_oscString := [], sm_oscParameter := 0,
     sm_dcsStringHandler := None\<rparr>) (sm_ActionClear eng s)"
  unfolding sm_ActionClear_def by (rule keeps_Clear)

lemma clear_fields:
  "sm_state (sm_ActionClear eng s) = sm_state s"
  "sm_isInAnsiMode (sm_ActionClear eng s) = sm_isInAnsiMode s"
  "sm_run (sm_ActionClear eng s) = sm_run s"
  "sm_identifier (sm_ActionClear eng s) = \<lparr>idAccumulator = 0, idShift = 0\<rparr>"
  "sm_parameters (sm_ActionClear eng s) = []"
  "sm_parameterLimitReached (sm_ActionClear eng s) = False"
  "sm_oscString (sm_ActionClear eng s) = []"
  "sm_oscParameter (sm_ActionClear eng s) = 0"
  "sm_dcsStringHandler (sm_ActionClear eng s) = None"
  "sm_processingIndividually (sm_ActionClear eng s) = sm_processingIndividually s"
  using same_parser_fields [OF clear_same_parser [of s]]
  by (simp_all add: vtid_Clear_def sm_ActionClear_def keeps_Clear_mode)

lemma clear_inv: "sm_state s \<noteq> DcsPassThrough \<Longrightarrow> sm_inv (sm_ActionClear eng s)"
  by (simp add: sm_inv_def params_inv_def clear_fields MAX_PARAMETER_COUNT_def)

lemma enter_inv:
  "sm_inv (EnterEscape eng s)" "sm_inv (EnterCsiEntry eng s)" "sm_inv (EnterSs3Entry eng s)"
  "sm_inv (EnterDcsEntry eng s)"
  by (simp_all add: EnterEscape_def EnterCsiEntry_def EnterSs3Entry_def EnterDcsEntry_def clear_inv)

lemma EnterEscape_fields:
  "sm_state (EnterEscape eng s) = Escape" "sm_parameters (EnterEscape eng s) = []"
  by (simp_all add: EnterEscape_def clear_fields)

lemmas event_intros = action_inv enter_inv EnterGround_inv ActionCollect_inv ActionParam_inv
  OscParam_inv OscPut_inv set_state_inv

lemma EventGround_inv: "sm_inv s \<Longrightarrow> sm_inv (EventGround eng wch s)"
  by (simp add: EventGround_def event_intros)

lemma EnterEscapeIntermediate_inv:
  "sm_inv s \<Longrightarrow> sm_parameters s = [] \<Longrightarrow> sm_inv (EnterEscapeIntermediate (sm_ActionCollect wch s))"
  using ActionCollect_inv [of s wch]
  by (simp add: EnterEscapeIntermediate_def sm_inv_def params_inv_def sm_ActionCollect_def)

lemma EnterVt52Param_inv: "sm_inv s \<Longrightarrow> sm_parameters s = [] \<Longrightarrow> sm_inv (EnterVt52Param s)"
  by (simp add: EnterVt52Param_def sm_inv_def params_inv_def)

lemma empty_params_inv:
  assumes "sm_inv s" and "sm_parameters s = []"
    and "st \<notin> {Escape, EscapeIntermediate, Vt52Param, DcsPassThrough}"
  shows "sm_inv (s\<lparr>sm_state := st\<rparr>)"
  using assms by (simp add: sm_inv_def params_inv_def)

lemma EventEscape_inv:
  assumes "sm_inv s" and "sm_state s = Escape"
  shows "sm_inv (EventEscape eng wch s)"
proof -
  have "sm_parameters s = []" using assms by (simp add: sm_inv_def params_inv_def)
  then show ?thesis
    using assms(1)
    by (simp add: EventEscape_def event_intros EnterEscapeIntermediate_inv EnterVt52Param_inv
        EnterOscParam_def EnterSosPmApcString_def empty_params_inv)
qed

lemma EventEscapeIntermediate_inv:
  assumes "sm_inv s" and "sm_state s = EscapeIntermediate"
  shows "sm_inv (EventEscapeIntermediate eng wch s)"
proof -
  have "sm_parameters s = []" using assms by (simp add: sm_inv_def params_inv_def)
  then show ?thesis
    using assms(1) by (simp add: EventEscapeIntermediate_def event_intros EnterVt52Param_inv)
qed

lemma csi_event_inv:
  assumes "sm_inv s"
  shows "sm_state s = CsiEntry \<Longrightarrow> sm_inv (EventCsiEntry eng wch s)"
    and "sm_state s = CsiIntermediate \<Longrightarrow> sm_inv (EventCsiIntermediate eng wch s)"
    and "sm_state s = CsiIgnore \<Longrightarrow> sm_inv (EventCsiIgnore eng wch s)"
    and "sm_state s = CsiParam \<Longrightarrow> sm_inv (EventCsiParam eng wch s)"
  using assms
  by (simp_all add: EventCsiEntry_def EventCsiIntermediate_def EventCsiIgnore_def EventCsiParam_def
      event_intros param_limit_def EnterCsiParam_def EnterCsiIgnore_def EnterCsiIntermediate_def)

lemma osc_event_inv:
  assumes "sm_inv s"
  shows "sm_state s = OscParam \<Longrightarrow> sm_inv (EventOscParam wch s)"
    and "sm_state s = OscString \<Longrightarrow> sm_inv (EventOscString eng wch s)"
    and "sm_state s = OscTermination \<Longrightarrow> sm_inv (EventOscTermination eng wch s)"
  using assms
  by (simp_all add: EventOscParam_def EventOscString_def EventOscTermination_def event_intros
      param_limit_def EnterOscString_def EnterOscTermination_def EventEscape_inv EnterEscape_fields)

lemma ss3_event_inv:
  assumes "sm_inv s"
  shows "sm_state s = Ss3Entry \<Longrightarrow> sm_inv (EventSs3Entry eng wch s)"
    and "sm_state s = Ss3Param \<Longrightarrow> sm_inv (EventSs3Param eng wch s)"
  using assms
  by (simp_all add: EventSs3Entry_def EventSs3Param_def event_intros param_limit_def
      EnterSs3Param_def EnterCsiIgnore_def)

lemma EventVt52Param_inv:
  assumes "sm_inv s" and "sm_state s = Vt52Param"
  shows "sm_inv (EventVt52Param eng wch s)"
proof -
  let ?s = "s\<lparr>sm_parameters := sm_parameters s @ [vtp_of_size (ucast wch)]\<rparr>"
  have ground: "sm_inv (?s\<lparr>sm_state := Ground\<rparr>)"
    using assms by (auto simp: sm_inv_def params_inv_def param_limit_def MAX_PARAMETER_COUNT_def param_ok_char)
  have "sm_inv (EnterGround (sm_ActionVt52EscDispatch eng 0x59 ?s))"
    using ground same_parser_fields [OF action_same_parser(5) [of ?s "0x59"]]
    by (simp add: EnterGround_def sm_inv_def params_inv_def)
  moreover have "length (sm_parameters s) \<noteq> 1 \<Longrightarrow> sm_inv ?s"
    using assms
    by (auto simp: sm_inv_def params_inv_def param_limit_def MAX_PARAMETER_COUNT_def param_ok_char le_Suc_eq)
  ultimately show ?thesis
    using assms by (simp add: EventVt52Param_def Let_def event_intros)
qed

lemma ActionDcsDispatch_inv:
  assumes "sm_inv s" and "param_limit (sm_state s) = 32767"
  shows "sm_inv (sm_ActionDcsDispatch eng wch s)"
proof -
  obtain h t where t: "ActionDcsDispatch eng (Finalize wch (sm_identifier s)) (sm_parameters s) s = (h, t)"
    by (metis surj_pair)
  then have "same_parser s t"
    using keeps_DcsDispatch [of s "Finalize wch (sm_identifier s)" "sm_parameters s"] by simp
  then have "sm_inv t" and "param_limit (sm_state t) = 32767"
    using assms sm_inv_same_parser same_parser_fields(1) by fastforce+
  then show ?thesis
    by (cases h) (auto simp: sm_ActionDcsDispatch_def t Let_def EnterDcsPassThrough_def EnterDcsIgnore_def
        sm_inv_def params_inv_def param_limit_def)
qed

lemma dcs_event_inv:
  assumes "sm_inv s"
  shows "sm_state s = DcsEntry \<Longrightarrow> sm_inv (EventDcsEntry eng wch s)"
    and "sm_state s = DcsIntermediate \<Longrightarrow> sm_inv (EventDcsIntermediate eng wch s)"
    and "sm_state s = DcsParam \<Longrightarrow> sm_inv (EventDcsParam eng wch s)"
  using assms
  by (simp_all add: EventDcsEntry_def EventDcsIntermediate_def EventDcsParam_def event_intros
      param_limit_def EnterDcsParam_def EnterDcsIgnore_def EnterDcsIntermediate_def ActionDcsDispatch_inv)

lemma EventDcsPassThrough_inv:
  assumes "sm_inv s" and "sm_state s = DcsPassThrough"
  shows "\<exists>s'. EventDcsPassThrough wch s = Inr s' \<and> sm_inv s'"
proof -
  obtain r t where t: "call_handler wch s = Inr (r, t)" "same_parser s t"
    using call_handler_inv [OF assms] by blast
  then have "sm_inv t" using assms(1) sm_inv_same_parser by blast
  moreover have "sm_state t = DcsPassThrough" using t(2) assms(2) same_parser_fields(1) by fastforce
  ultimately show ?thesis
    using assms(1) by (simp add: EventDcsPassThrough_def t(1) EnterDcsIgnore_def set_state_inv param_limit_def)
qed

lemma dispatch_event_ok:
  assumes "sm_inv s"
  shows "\<exists>s'. dispatch_event eng wch s = Inr s' \<and> sm_inv s'"
proof (cases "sm_state s = DcsPassThrough")
  case True
  then show ?thesis using EventDcsPassThrough_inv [OF assms] by (simp add: dispatch_event_def)
next
  case False
  with assms show ?thesis
    by (cases "sm_state s")
      (simp_all add: dispatch_event_def EventGround_inv EventEscape_inv EventEscapeIntermediate_inv
        csi_event_inv osc_event_inv ss3_event_inv EventVt52Param_inv dcs_event_inv EventDcsIgnore_def
        EventSosPmApcString_def)
qed

lemma Interrupt_then_clear:
  assumes "sm_inv s" and "sm_ActionInterrupt s = Inr t"
  shows "sm_inv (EnterEscape eng t)" and "sm_inv (EnterGround (sm_ActionExecute eng wch t))"
proof -
  show "sm_inv (EnterEscape eng t)" by (rule enter_inv)
  have "same_parser (s\<lparr>sm_dcsStringHandler := sm_dcsStringHandler t\<rparr>) t"
    using ActionInterrupt_ok [OF assms(1)] assms(2) by auto
  note t = same_parser_fields [OF this]
  have "sm_inv (s\<lparr>sm_state := Ground\<rparr>)"
    using assms(1) by (intro set_state_inv) (simp_all add: param_limit_def)
  then have "sm_inv (t\<lparr>sm_state := Ground\<rparr>)"
    using t by (simp add: sm_inv_def params_inv_def)
  then show "sm_inv (EnterGround (sm_ActionExecute eng wch t))"
    using same_parser_fields [OF action_same_parser(1) [of t wch]]
    by (simp add: EnterGround_def sm_inv_def params_inv_def)
qed

lemma ProcessCharacter_not_c1_ok:
  assumes "sm_inv s" and "\<not> isC1ControlCharacter wch"
  shows "\<exists>s'. ProcessCharacter eng wch s = Inr s' \<and> sm_inv s'"
proof -
  obtain t where t: "sm_ActionInterrupt s = Inr t"
    using ActionInterrupt_ok [OF assms(1)] by blast
  show ?thesis
    using assms(2) t Interrupt_then_clear [OF assms(1) t] dispatch_event_ok [OF assms(1), of wch]
    by (subst ProcessCharacter.simps) (simp add: Let_def)
qed

lemma ProcessCharacter_c1:
  assumes "isC1ControlCharacter wch"
  shows "ProcessCharacter eng wch s =
    (case ProcessCharacter eng ASCII_ESC s of
       Inl e \<Rightarrow> Inl e | Inr s' \<Rightarrow> ProcessCharacter eng (c1To7Bit wch) s')"
proof -
  have "wch \<noteq> ASCII_CAN" "wch \<noteq> ASCII_SUB" using assms by (auto simp: char_class)
  with assms show ?thesis by (subst ProcessCharacter.simps) (simp add: Let_def)
qed

lemma ProcessCharacter_ok:
  assumes "sm_inv s"
  shows "\<exists>s'. ProcessCharacter eng wch s = Inr s' \<and> sm_inv s'"
proof (cases "isC1ControlCharacter wch")
  case True
  obtain t where t: "ProcessCharacter eng ASCII_ESC s = Inr t" "sm_inv t"
    using ProcessCharacter_not_c1_ok [OF assms escape_not_c1] by blast
  then show ?thesis
    using ProcessCharacter_not_c1_ok [OF t(2) c1To7Bit_not_c1 [OF True]]
    by (simp add: ProcessCharacter_c1 [OF True])
next
  case False
  then show ?thesis by (rule ProcessCharacter_not_c1_ok [OF assms])
qed

text \<open>What a character never touches: the run, the processing mode and the ANSI mode.\<close>

lemma action_frame:
  "frame s (sm_ActionExecute eng wch s)" "frame s (sm_ActionExecuteFromEscape eng wch s)"
  "frame s (sm_ActionPrint eng wch s)" "frame s (sm_ActionEscDispatch eng wch s)"
  "frame s (sm_ActionVt52EscDispatch eng wch s)" "frame s (sm_ActionCsiDispatch eng wch s)"
  "frame s (sm_ActionOscDispatch eng wch s)" "frame s (sm_ActionSs3Dispatch eng wch s)"
  "frame s (sm_ActionClear eng s)"
  using action_same_parser [THEN same_parser_frame] by (simp_all add: frame_def clear_fields)

lemma ActionDcsDispatch_frame: "frame s (sm_ActionDcsDispatch eng wch s)"
proof -
  obtain h t where t: "ActionDcsDispatch eng (Finalize wch (sm_identifier s)) (sm_parameters s) s = (h, t)"
    by (metis surj_pair)
  then have "frame s t"
    using same_parser_frame [OF keeps_DcsDispatch [of s "Finalize wch (sm_identifier s)" "sm_parameters s"]]
    by simp
  then show ?thesis
    by (cases h) (simp_all add: sm_ActionDcsDispatch_def t Let_def Enter_defs frame_def)
qed

lemmas frame_facts = action_frame [unfolded frame_def] ActionDcsDispatch_frame [unfolded frame_def]

lemma EventEscape_frame: "frame s (EventEscape eng wch s)"
  by (simp add: EventEscape_def Enter_defs EnterCsiEntry_def EnterSs3Entry_def EnterDcsEntry_def
      sm_ActionCollect_def frame_def frame_facts)

lemma event_frame:
  "frame s (EventGround eng wch s)" "frame s (EventEscapeIntermediate eng wch s)"
  "frame s (EventCsiEntry eng wch s)" "frame s (EventCsiIntermediate eng wch s)"
  "frame s (EventCsiIgnore eng wch s)" "frame s (EventCsiParam eng wch s)"
  "frame s (EventOscParam wch s)" "frame s (EventOscString eng wch s)"
  "frame s (EventSs3Entry eng wch s)" "frame s (EventSs3Param eng wch s)"
  "frame s (EventVt52Param eng wch s)" "frame s (EventDcsEntry eng wch s)"
  "frame s (EventDcsIntermediate eng wch s)" "frame s (EventDcsParam eng wch s)"
  by (simp_all add: EventGround_def EventEscapeIntermediate_def EventCsiEntry_def EventCsiIntermediate_def
      EventCsiIgnore_def EventCsiParam_def EventOscParam_def EventOscString_def EventSs3Entry_def
      EventSs3Param_def EventVt52Param_def EventDcsEntry_def EventDcsIntermediate_def EventDcsParam_def
      Enter_defs sm_ActionCollect_def sm_ActionOscParam_def sm_ActionOscPut_def ActionParam_frame
      frame_def frame_facts Let_def)

lemma EventOscTermination_frame: "frame s (EventOscTermination eng wch s)"
  using EventEscape_frame [of "EnterEscape eng s" wch]
  by (simp add: EventOscTermination_def Enter_defs EnterEscape_def frame_def frame_facts)

lemma dispatch_event_frame:
  assumes "dispatch_event eng wch s = Inr s'"
  shows "frame s s'"
proof (cases "sm_state s = DcsPassThrough")
  case True
  with assms show ?thesis
    by (auto simp: dispatch_event_def EventDcsPassThrough_def call_handler_def EnterDcsIgnore_def frame_def
        split: if_splits option.splits prod.splits sum.splits)
next
  case False
  with assms show ?thesis
    by (cases "sm_state s")
      (auto simp: dispatch_event_def event_frame EventEscape_frame EventOscTermination_frame
        EventDcsIgnore_def EventSosPmApcString_def)
qed

lemma ProcessCharacter_frame:
  assumes "ProcessCharacter eng wch s = Inr s'"
  shows "frame s s'"
proof -
  have plain: "frame t t'" if "ProcessCharacter eng c t = Inr t'" and "\<not> isC1ControlCharacter c" for c t t'
  proof -
    have int: "frame t u" if "sm_ActionInterrupt t = Inr u" for u
      using that by (auto simp: sm_ActionInterrupt_def call_handler_def frame_def
          split: if_splits option.splits prod.splits sum.splits)
    show ?thesis
      using that dispatch_event_frame [of c t t'] int
      by (subst (asm) ProcessCharacter.simps)
        (auto simp: Let_def frame_def EnterGround_def EnterEscape_def frame_facts split: if_splits sum.splits)
  qed
  show ?thesis
  proof (cases "isC1ControlCharacter wch")
    case True
    then obtain t where "ProcessCharacter eng ASCII_ESC s = Inr t" "ProcessCharacter eng (c1To7Bit wch) t = Inr s'"
      using assms by (auto simp: ProcessCharacter_c1 split: sum.splits)
    with plain escape_not_c1 c1To7Bit_not_c1 [OF True] show ?thesis
      by (metis frame_trans)
  qed (use assms plain in blast)
qed

section \<open>Strings\<close>

lemma process_chars_ok: "sm_inv s \<Longrightarrow> \<exists>s'. process_chars eng str s = Inr s' \<and> sm_inv s' \<and> frame s s'"
proof (induction str arbitrary: s)
  case (Cons wch str)
  obtain t where t: "ProcessCharacter eng wch s = Inr t" "sm_inv t"
    using ProcessCharacter_ok [OF Cons.prems] by blast
  from Cons.IH [OF t(2)] obtain s' where "process_chars eng str t = Inr s'" "sm_inv s'" "frame t s'"
    by blast
  with t ProcessCharacter_frame [OF t(1)] frame_trans show ?case by auto
qed simp

lemma process_loop_ok:
  assumes "str_inv s" and "sm_processingIndividually s \<longrightarrow> start < length str \<or> str = []"
    and "start \<le> current" and "current \<le> length str"
  shows "\<exists>start' s'. process_loop eng str start current s = Inr (start', s') \<and> str_inv s'
    \<and> (sm_processingIndividually s' \<longrightarrow> start' < length str \<or> str = [])"
  using assms
proof (induction "2 * (length str - current) + (if sm_processingIndividually s then 0 else 1)"
    arbitrary: start current s rule: less_induct)
  case less
  define r where "r = take (current - start + 1) (drop start str)"
  show ?case
  proof (cases "current < length str")
    case False
    with less.prems show ?thesis by (subst process_loop.simps) auto
  next
    case lt: True
    show ?thesis
    proof (cases "sm_processingIndividually s")
      case True
      have "sm_inv (s\<lparr>sm_run := r\<rparr>)" using less.prems(1) by (simp add: str_inv_def)
      from ProcessCharacter_ok [OF this] obtain t where
        t: "ProcessCharacter eng (str ! current) (s\<lparr>sm_run := r\<rparr>) = Inr t" "sm_inv t" by blast
      have p: "sm_processingIndividually t"
        using ProcessCharacter_frame [OF t(1)] True by (simp add: frame_def)
      let ?ground = "process_loop eng str (current + 1) (current + 1) (t\<lparr>sm_processingIndividually := False\<rparr>)"
      let ?more = "process_loop eng str start (current + 1) t"
      have "process_loop eng str start current s = (if sm_state t = Ground then ?ground else ?more)"
        using lt True t(1) by (subst process_loop.simps) (simp add: Let_def r_def)
      moreover have "sm_state t = Ground \<Longrightarrow> \<exists>start' s'. ?ground = Inr (start', s') \<and> str_inv s'
          \<and> (sm_processingIndividually s' \<longrightarrow> start' < length str \<or> str = [])"
        using lt t(2) True by (intro less.hyps) (auto simp: str_inv_def)
      moreover have "\<exists>start' s'. ?more = Inr (start', s') \<and> str_inv s'
          \<and> (sm_processingIndividually s' \<longrightarrow> start' < length str \<or> str = [])"
        using lt t(2) True p less.prems by (intro less.hyps) (auto simp: str_inv_def)
      ultimately show ?thesis by simp
    next
      case False
      have ground: "sm_state s = Ground" and inv: "sm_inv s"
        using less.prems(1) False by (auto simp: str_inv_def)
      define t where "t = (if r \<noteq> [] then snd (ActionPrintString eng (take (length r - 1) r) (s\<lparr>sm_run := r\<rparr>))
        else s\<lparr>sm_run := r\<rparr>)"
      have "same_parser (s\<lparr>sm_run := r\<rparr>) t" unfolding t_def using keeps_PrintString by simp
      then have t: "sm_inv t" "sm_state t = Ground"
        using inv ground by (simp_all add: sm_inv_same_parser same_parser_fields)
      let ?start = "process_loop eng str current current (t\<lparr>sm_processingIndividually := True\<rparr>)"
      let ?skip = "process_loop eng str start (current + 1) (s\<lparr>sm_run := r\<rparr>)"
      have "process_loop eng str start current s =
          (if isActionableFromGround (str ! current) then ?start else ?skip)"
        using lt False by (subst process_loop.simps) (simp add: Let_def r_def t_def)
      moreover have "\<exists>start' s'. ?start = Inr (start', s') \<and> str_inv s'
          \<and> (sm_processingIndividually s' \<longrightarrow> start' < length str \<or> str = [])"
        using lt t False by (intro less.hyps) (auto simp: str_inv_def)
      moreover have "\<exists>start' s'. ?skip = Inr (start', s') \<and> str_inv s'
          \<and> (sm_processingIndividually s' \<longrightarrow> start' < length str \<or> str = [])"
        using lt inv ground False less.prems by (intro less.hyps) (auto simp: str_inv_def)
      ultimately show ?thesis by simp
    qed
  qed
qed

lemma flush_sequence_ok:
  assumes "sm_inv s" and "sm_run s \<noteq> []"
  shows "\<exists>s'. flush_sequence eng s = Inr s' \<and> str_inv s'"
proof -
  have "sm_inv (ResetState s)" using assms(1) by (simp add: ResetState_def EnterGround_inv)
  then obtain t where t: "process_chars eng (butlast (sm_run s)) (ResetState s) = Inr t" "sm_inv t"
    using process_chars_ok by blast
  have "sm_inv (EnterGround u)" if "same_parser t u" for u
    using that t(2) by (simp add: EnterGround_inv sm_inv_same_parser)
  then have "str_inv (EnterGround u)" if "same_parser t u" for u
    using that by (simp add: str_inv_def EnterGround_def)
  then show ?thesis
    using assms(2) t(1)
    by (simp add: flush_sequence_def Let_def ResetState_def EnterGround_def action_same_parser split: VTStates.split)
qed

theorem ProcessString_ok:
  assumes "str_inv s" and "str \<noteq> [] \<or> (\<forall>e. \<not> FlushAtEndOfString eng e)"
  shows "\<exists>s'. ProcessString eng str s = Inr s' \<and> str_inv s'"
proof -
  obtain start t where t: "process_loop eng str 0 0 s = Inr (start, t)" "str_inv t"
    "sm_processingIndividually t \<longrightarrow> start < length str \<or> str = []"
    using process_loop_ok [OF assms(1), of 0 str 0] by auto
  define u where "u = t\<lparr>sm_run := (if start < length str then drop start str else [])\<rparr>"
  have u: "str_inv u" "sm_inv u" using t(2) by (simp_all add: u_def str_inv_def)
  have "str_inv (snd (ActionPrintString eng (sm_run u) u))"
    using keeps_PrintString [of u "sm_run u"] u
    by (auto simp: str_inv_def sm_inv_same_parser same_parser_fields)
  moreover have "str_inv (u\<lparr>sm_cachedSequence := c\<rparr>)" for c using u by (simp add: str_inv_def)
  moreover have "sm_processingIndividually u \<Longrightarrow> FlushAtEndOfString eng (sm_engine u) \<Longrightarrow>
      \<exists>s'. flush_sequence eng u = Inr s' \<and> str_inv s'"
    using t(3) assms(2) u(2) by (intro flush_sequence_ok) (auto simp: u_def)
  moreover have "ProcessString eng str s =
      (if \<not> sm_processingIndividually u \<and> sm_run u \<noteq> [] then Inr (snd (ActionPrintString eng (sm_run u) u))
       else if sm_processingIndividually u then
         (if FlushAtEndOfString eng (sm_engine u) then flush_sequence eng u
          else Inr (u\<lparr>sm_cachedSequence :=
                 Some ((case sm_cachedSequence u of Some c \<Rightarrow> c | None \<Rightarrow> []) @ sm_run u)\<rparr>))
       else Inr u)"
    unfolding ProcessString_def t(1) u_def Let_def by (simp only: sum.case prod.case)
  ultimately show ?thesis using u(1) by auto
qed

lemma StateMachine_str_inv: "str_inv (StateMachine eng e)"
proof -
  have "sm_inv (StateMachine eng e)"
    unfolding StateMachine_def by (rule clear_inv) simp
  then show ?thesis by (simp add: str_inv_def StateMachine_def clear_fields)
qed

lemma ResetState_str_inv: "str_inv s \<Longrightarrow> str_inv (ResetState s)"
  by (simp add: str_inv_def ResetState_def EnterGround_inv) (simp add: EnterGround_def)

lemma SetAnsiMode_str_inv: "str_inv s \<Longrightarrow> str_inv (SetAnsiMode b s)"
  by (simp add: str_inv_def SetAnsiMode_def)

end

end
