(* ===== verification/State_Machine_Seq.thy ===== *)
theory State_Machine_Seq
  imports State_Machine_Inv
begin

text \<open>
  What the parser makes of a complete control sequence. A control sequence is written out by
  \<open>csi_text\<close> and \<open>osc_text\<close> from its parts; the lemmas show that the parser recovers exactly those parts
  and hands them to the engine in one call.
\<close>

section \<open>Writing sequences\<close>

abbreviation digit_ok :: "nat \<Rightarrow> bool" where
  "digit_ok d \<equiv> d < 10"

definition digit_char :: "nat \<Rightarrow> wchar" where
  "digit_char d = of_nat (0x30 + d)"

text \<open>A parameter is its decimal digits (none for an omitted one); parameters are separated by semicolons.\<close>

fun param_text :: "nat list list \<Rightarrow> wstring" where
  "param_text [] = []"
| "param_text [ds] = map digit_char ds"
| "param_text (ds # p # ps) = map digit_char ds @ 0x3B # param_text (p # ps)"

definition csi_text :: "wstring \<Rightarrow> nat list list \<Rightarrow> wstring \<Rightarrow> wchar \<Rightarrow> wstring" where
  "csi_text marker ps intermediates final =
     [0x1B, 0x5B] @ marker @ param_text ps @ intermediates @ [final]"

definition osc_text :: "nat list \<Rightarrow> wstring \<Rightarrow> wstring \<Rightarrow> wstring" where
  "osc_text ds str terminator = [0x1B, 0x5D] @ map digit_char ds @ 0x3B # str @ terminator"

definition decimal :: "nat list \<Rightarrow> nat" where
  "decimal ds = foldl (\<lambda>v d. v * 10 + d) 0 ds"

text \<open>What a written parameter means: omitted, or its value capped at 32767.\<close>

definition param_of :: "nat list \<Rightarrow> VTParameter" where
  "param_of ds = (if ds = [] then VTParameter (- 1) else VTParameter (int (min 32767 (decimal ds))))"

section \<open>Accumulating digits\<close>

definition clamp_step :: "nat \<Rightarrow> nat \<Rightarrow> nat" where
  "clamp_step v d = min 32767 (v * 10 + d)"

lemma foldl_clamp: "foldl clamp_step (min 32767 v) ds = min 32767 (foldl (\<lambda>v d. v * 10 + d) v ds)"
proof (induction ds arbitrary: v)
  case (Cons d ds)
  have "clamp_step (min 32767 v) d = min 32767 (v * 10 + d)" by (auto simp: clamp_step_def)
  with Cons show ?case by simp
qed simp

lemma unat_of_nat_small: "v < 2 ^ 64 \<Longrightarrow> unat (of_nat v :: size_t) = v"
  by (simp add: unat_of_nat)

lemma unat_digit_char: "d < 10 \<Longrightarrow> unat (digit_char d) = 0x30 + d"
  unfolding digit_char_def by (subst unat_of_nat) simp

lemma ucast_digit: "d < 10 \<Longrightarrow> (ucast (digit_char d) :: size_t) - 0x30 = of_nat d"
proof -
  assume d: "d < 10"
  have "unat (ucast (digit_char d) :: size_t) = unat (of_nat (0x30 + d) :: size_t)"
    unfolding unat_ucast_char unat_digit_char [OF d] using d by (subst unat_of_nat_small) simp_all
  then have "ucast (digit_char d) = (of_nat (0x30 + d) :: size_t)" by (simp only: word_unat_eq_iff)
  then show ?thesis by simp
qed

lemma AccumulateTo_digit:
  assumes "v \<le> 32767" and "d < 10"
  shows "AccumulateTo (digit_char d) (of_nat v) = of_nat (clamp_step v d)"
proof -
  have eq: "of_nat v * 10 + (ucast (digit_char d) - 0x30) = (of_nat (v * 10 + d) :: size_t)"
    by (simp add: ucast_digit [OF assms(2)])
  have "unat (of_nat (v * 10 + d) :: size_t) = v * 10 + d"
    using assms by (intro unat_of_nat_small) simp
  then have "(32767 < (of_nat (v * 10 + d) :: size_t)) = (32767 < v * 10 + d)"
    by (simp only: word_less_nat_alt) simp
  then show ?thesis
    unfolding AccumulateTo_def Let_def eq MAX_PARAMETER_VALUE_def
    by (simp only: clamp_step_def min_def not_le split: if_splits) auto
qed

section \<open>Collecting parameters\<close>

definition parsed_params :: "nat list list \<Rightarrow> VTParameters" where
  "parsed_params ps = (if param_text ps = [] then [] else take 32 (map param_of ps))"

lemma digit_classes:
  assumes "d < 10"
  shows "isNumericParamValue (digit_char d)" "\<not> isParameterDelimiter (digit_char d)"
proof -
  have "unat (digit_char d) = 0x30 + d" using assms by (rule unat_digit_char)
  then show "isNumericParamValue (digit_char d)" "\<not> isParameterDelimiter (digit_char d)"
    using assms by (auto simp: char_class word_le_nat_alt word_unat_eq_iff)
qed

lemma vtp_of_size_small: "v \<le> 32767 \<Longrightarrow> vtp_of_size (of_nat v) = VTParameter (int v)"
  using sint_small [of "of_nat v"] unat_of_nat_small [of v] by (simp add: vtp_of_size_def del: of_nat_unat)

lemma ActionParam_digit:
  assumes "d < 10" and "\<not> sm_parameterLimitReached s" and "sm_parameters s = ps @ [p]"
    and "value_or p 0 = of_nat v" and "v \<le> 32767"
  shows "sm_ActionParam (digit_char d) s = s\<lparr>sm_parameters := ps @ [VTParameter (int (clamp_step v d))]\<rparr>"
proof -
  have "clamp_step v d \<le> 32767" by (simp add: clamp_step_def)
  then show ?thesis
    using assms AccumulateTo_digit [OF assms(5,1)] digit_classes [OF assms(1)]
    by (simp add: sm_ActionParam_def vtp_of_size_small)
qed

lemma digits_fold:
  assumes "ds \<noteq> []" and "\<forall>d \<in> set ds. d < 10" and "\<not> sm_parameterLimitReached s"
    and "sm_parameters s = ps @ [p]" and "value_or p 0 = of_nat v" and "v \<le> 32767"
  shows "fold sm_ActionParam (map digit_char ds) s
    = s\<lparr>sm_parameters := ps @ [VTParameter (int (foldl clamp_step v ds))]\<rparr>"
  using assms
proof (induction ds arbitrary: s p v)
  case (Cons d ds)
  let ?p = "VTParameter (int (clamp_step v d))"
  have step: "sm_ActionParam (digit_char d) s = s\<lparr>sm_parameters := ps @ [?p]\<rparr>"
    using Cons.prems by (intro ActionParam_digit) auto
  show ?case
  proof (cases "ds = []")
    case False
    have "fold sm_ActionParam (map digit_char ds) (s\<lparr>sm_parameters := ps @ [?p]\<rparr>)
        = s\<lparr>sm_parameters := ps @ [?p]\<rparr>\<lparr>sm_parameters :=
            ps @ [VTParameter (int (foldl clamp_step (clamp_step v d) ds))]\<rparr>"
      using Cons.prems False
      by (intro Cons.IH) (auto simp: value_or_def has_value_def clamp_step_def)
    then show ?thesis by (simp add: step)
  qed (simp add: step)
qed simp

lemma param_digits:
  assumes "\<forall>d \<in> set ds. d < 10" and "\<not> sm_parameterLimitReached s"
    and "sm_parameters s = ps @ [vtp_omitted]"
  shows "fold sm_ActionParam (map digit_char ds) s = s\<lparr>sm_parameters := ps @ [param_of ds]\<rparr>"
proof (cases "ds = []")
  case True
  then have "param_of ds = vtp_omitted" by (simp add: param_of_def vtp_omitted_def)
  with True assms(3) show ?thesis by (cases s) simp
next
  case False
  then show ?thesis
    using digits_fold [OF False assms, of 0] foldl_clamp [of 0 ds]
    by (simp add: value_or_def has_value_def vtp_omitted_def param_of_def decimal_def)
qed

lemma limit_fold: "sm_parameterLimitReached s \<Longrightarrow> fold sm_ActionParam cs s = s"
  by (induction cs) (simp_all add: sm_ActionParam_def)

lemma ActionParam_delimiter:
  assumes "\<not> sm_parameterLimitReached s" and "sm_parameters s \<noteq> []"
  shows "sm_ActionParam 0x3B s =
    (if length (sm_parameters s) \<ge> 32 then s\<lparr>sm_parameterLimitReached := True\<rparr>
     else s\<lparr>sm_parameters := sm_parameters s @ [vtp_omitted]\<rparr>)"
  using assms by (simp add: sm_ActionParam_def Let_def isParameterDelimiter_def MAX_PARAMETER_COUNT_def)

lemma param_text_fold:
  assumes "\<forall>ds \<in> set (ds # rest). \<forall>d \<in> set ds. d < 10" and "\<not> sm_parameterLimitReached s"
    and "sm_parameters s = ps @ [vtp_omitted]" and "length ps < 32"
  shows "fold sm_ActionParam (param_text (ds # rest)) s =
    s\<lparr>sm_parameters := take 32 (ps @ map param_of (ds # rest)),
       sm_parameterLimitReached := 32 < length ps + length (ds # rest)\<rparr>"
  using assms
proof (induction rest arbitrary: ds ps s)
  case Nil
  then show ?case using param_digits [of ds s ps] by simp
next
  case (Cons p rest)
  let ?s = "s\<lparr>sm_parameters := ps @ [param_of ds]\<rparr>"
  have ds: "fold sm_ActionParam (map digit_char ds) s = ?s"
    using Cons.prems by (intro param_digits) simp_all
  show ?case
  proof (cases "length ps = 31")
    case True
    then have "sm_ActionParam 0x3B ?s = ?s\<lparr>sm_parameterLimitReached := True\<rparr>"
      using Cons.prems(2) by (simp add: ActionParam_delimiter)
    with True ds show ?thesis by (simp add: limit_fold)
  next
    case False
    then have delim: "sm_ActionParam 0x3B ?s = s\<lparr>sm_parameters := (ps @ [param_of ds]) @ [vtp_omitted]\<rparr>"
      using Cons.prems(2,4) by (simp add: ActionParam_delimiter)
    show ?thesis
      using Cons.prems False ds Cons.IH [of p "s\<lparr>sm_parameters := (ps @ [param_of ds]) @ [vtp_omitted]\<rparr>" "ps @ [param_of ds]"]
      by (simp add: delim)
  qed
qed

lemma ActionParam_first:
  assumes "\<not> sm_parameterLimitReached s" and "sm_parameters s = []"
  shows "sm_ActionParam c s = sm_ActionParam c (s\<lparr>sm_parameters := [vtp_omitted]\<rparr>)"
  using assms by (simp add: sm_ActionParam_def Let_def)

lemma parsed_params_fold:
  assumes "\<forall>ds \<in> set ps. \<forall>d \<in> set ds. d < 10" and "\<not> sm_parameterLimitReached s"
    and "sm_parameters s = []"
  shows "\<exists>l. fold sm_ActionParam (param_text ps) s =
    s\<lparr>sm_parameters := parsed_params ps, sm_parameterLimitReached := l\<rparr>"
proof (cases "param_text ps")
  case Nil
  with assms show ?thesis by (cases s) (auto simp: parsed_params_def)
next
  case (Cons c cs)
  then obtain ds rest where ps: "ps = ds # rest" by (cases ps) auto
  have "fold sm_ActionParam (param_text ps) s
      = fold sm_ActionParam (param_text ps) (s\<lparr>sm_parameters := [vtp_omitted]\<rparr>)"
    unfolding Cons using ActionParam_first [OF assms(2,3), of c] by simp
  also have "\<dots> = s\<lparr>sm_parameters := take 32 (map param_of ps), sm_parameterLimitReached := 32 < length ps\<rparr>"
    using assms param_text_fold [of ds rest "s\<lparr>sm_parameters := [vtp_omitted]\<rparr>" "[]"] by (simp add: ps)
  finally show ?thesis using Cons by (auto simp: parsed_params_def)
qed

section \<open>Running characters\<close>

lemma process_chars_append:
  "process_chars eng (xs @ ys) s =
     (case process_chars eng xs s of Inl e \<Rightarrow> Inl e | Inr s' \<Rightarrow> process_chars eng ys s')"
  by (induction xs arbitrary: s) (auto split: sum.splits)

lemma process_chars_seq:
  "process_chars eng xs s = Inr t \<Longrightarrow> process_chars eng (xs @ ys) s = process_chars eng ys t"
  by (simp add: process_chars_append)

lemma plain_char:
  assumes "0x20 \<le> unat c" and "unat c \<le> 0x7F"
  shows "ProcessCharacter eng c s = dispatch_event eng c s"
proof -
  have "c \<noteq> ASCII_CAN" "c \<noteq> ASCII_SUB" "\<not> isC1ControlCharacter c" "\<not> isEscape c"
    using assms by (auto simp: char_class word_le_nat_alt)
  then show ?thesis by (subst ProcessCharacter.simps) (simp add: Let_def)
qed

lemma escape_char:
  assumes "sm_state s \<noteq> OscString" and "sm_state s \<noteq> DcsPassThrough"
  shows "ProcessCharacter eng ASCII_ESC s = Inr (EnterEscape eng s)"
  using assms escape_not_c1
  by (subst ProcessCharacter.simps) (simp add: Let_def isEscape_def sm_ActionInterrupt_def)

definition param_char :: "wchar \<Rightarrow> bool" where
  "param_char c \<longleftrightarrow> isNumericParamValue c \<or> isParameterDelimiter c"

lemma param_char_range: "param_char c \<Longrightarrow> 0x30 \<le> unat c \<and> unat c \<le> 0x3B"
  by (auto simp: param_char_def char_class word_le_nat_alt)

lemma param_text_chars: "\<forall>ds \<in> set ps. \<forall>d \<in> set ds. d < 10 \<Longrightarrow> \<forall>c \<in> set (param_text ps). param_char c"
  by (induction ps rule: param_text.induct)
    (auto simp: param_char_def digit_classes isParameterDelimiter_def [of "0x3B"])

lemma ActionParam_set_state: "sm_ActionParam c (s\<lparr>sm_state := st\<rparr>) = (sm_ActionParam c s)\<lparr>sm_state := st\<rparr>"
  by (simp add: sm_ActionParam_def Let_def)

lemma fold_ActionParam_set_state:
  "fold sm_ActionParam cs (s\<lparr>sm_state := st\<rparr>) = (fold sm_ActionParam cs s)\<lparr>sm_state := st\<rparr>"
  by (induction cs arbitrary: s) (simp_all add: ActionParam_set_state)

lemma not_in_range:
  "0x20 \<le> unat c \<Longrightarrow> \<not> isC0Code c" "unat c \<noteq> 0x7F \<Longrightarrow> \<not> isDelete c"
  "0x30 \<le> unat c \<Longrightarrow> \<not> isIntermediate c" "unat c \<noteq> 0x3A \<Longrightarrow> \<not> isCsiInvalid c"
  "0x40 \<le> unat c \<Longrightarrow> \<not> isNumericParamValue c" "0x40 \<le> unat c \<Longrightarrow> \<not> isParameterDelimiter c"
  "0x40 \<le> unat c \<Longrightarrow> \<not> isCsiPrivateMarker c" "unat c < 0x3C \<Longrightarrow> \<not> isCsiPrivateMarker c"
  "unat c < 0x30 \<Longrightarrow> \<not> isNumericParamValue c" "unat c < 0x30 \<Longrightarrow> \<not> isParameterDelimiter c"
  "0x3C \<le> unat c \<Longrightarrow> \<not> isNumericParamValue c" "0x3C \<le> unat c \<Longrightarrow> \<not> isParameterDelimiter c"
  by (auto simp: char_class word_le_nat_alt)

lemma csi_param_char:
  assumes "param_char c"
  shows "sm_state s = CsiParam \<Longrightarrow> ProcessCharacter eng c s = Inr (sm_ActionParam c s)"
    and "sm_state s = CsiEntry \<Longrightarrow> ProcessCharacter eng c s = Inr ((sm_ActionParam c s)\<lparr>sm_state := CsiParam\<rparr>)"
proof -
  note r = param_char_range [OF assms]
  have "isNumericParamValue c \<or> isParameterDelimiter c" using assms by (simp add: param_char_def)
  moreover have "\<not> isCsiInvalid c" using assms by (auto simp: param_char_def char_class)
  ultimately show "sm_state s = CsiParam \<Longrightarrow> ProcessCharacter eng c s = Inr (sm_ActionParam c s)"
    and "sm_state s = CsiEntry \<Longrightarrow> ProcessCharacter eng c s = Inr ((sm_ActionParam c s)\<lparr>sm_state := CsiParam\<rparr>)"
    using r by (simp_all add: plain_char dispatch_event_def EventCsiParam_def EventCsiEntry_def
        not_in_range EnterCsiParam_def)
qed

lemma csi_param_chars:
  assumes "\<forall>c \<in> set cs. param_char c" and "sm_state s = CsiParam"
  shows "process_chars eng cs s = Inr (fold sm_ActionParam cs s)"
  using assms by (induction cs arbitrary: s) (simp_all add: csi_param_char)

lemma csi_marker_params:
  assumes "sm_state t = CsiEntry" and "sm_parameters t = []" and "\<not> sm_parameterLimitReached t"
    and "sm_identifier t = builder_of []"
    and "marker = [] \<or> (\<exists>m. marker = [m] \<and> isCsiPrivateMarker m)"
    and "\<forall>ds \<in> set ps. \<forall>d \<in> set ds. d < 10"
  shows "\<exists>st l. process_chars eng (marker @ param_text ps) t =
      Inr (t\<lparr>sm_state := st, sm_identifier := builder_of marker, sm_parameters := parsed_params ps,
             sm_parameterLimitReached := l\<rparr>) \<and> st \<in> {CsiEntry, CsiParam}"
  using assms(5)
proof
  assume marker: "marker = []"
  show ?thesis
  proof (cases "param_text ps")
    case Nil
    with marker assms(1-4) show ?thesis
      by (cases t) (auto simp: parsed_params_def)
  next
    case (Cons c cs)
    have chars: "\<forall>c \<in> set (param_text ps). param_char c" using assms(6) by (rule param_text_chars)
    obtain l where l: "fold sm_ActionParam (param_text ps) t =
        t\<lparr>sm_parameters := parsed_params ps, sm_parameterLimitReached := l\<rparr>"
      using parsed_params_fold [OF assms(6,3,2)] by blast
    have "process_chars eng (param_text ps) t =
        Inr ((fold sm_ActionParam (param_text ps) t)\<lparr>sm_state := CsiParam\<rparr>)"
      using chars assms(1) unfolding Cons
      by (simp add: csi_param_char(2) csi_param_chars fold_ActionParam_set_state)
    with l marker assms(1-4) show ?thesis by (cases t) auto
  qed
next
  assume "\<exists>m. marker = [m] \<and> isCsiPrivateMarker m"
  then obtain m where m: "marker = [m]" "isCsiPrivateMarker m" by blast
  then have r: "0x3C \<le> unat m" "unat m \<le> 0x3F" by (auto simp: char_class)
  let ?t = "t\<lparr>sm_state := CsiParam, sm_identifier := builder_of [m]\<rparr>"
  have "ProcessCharacter eng m t = Inr ?t"
    using r m(2) assms(1,4)
    by (simp add: plain_char dispatch_event_def EventCsiEntry_def not_in_range EnterCsiParam_def
        sm_ActionCollect_def builder_of_def)
  moreover obtain l where "fold sm_ActionParam (param_text ps) ?t =
      ?t\<lparr>sm_parameters := parsed_params ps, sm_parameterLimitReached := l\<rparr>"
    using parsed_params_fold [OF assms(6), of ?t] assms(2,3) by auto
  ultimately show ?thesis
    using m(1) csi_param_chars [OF param_text_chars [OF assms(6)], of ?t]
    by (auto intro!: exI [of _ CsiParam])
qed

lemma csi_intermediate_char:
  assumes "isIntermediate c" and "sm_state s \<in> {CsiEntry, CsiParam, CsiIntermediate}"
  shows "ProcessCharacter eng c s =
    Inr (s\<lparr>sm_state := CsiIntermediate, sm_identifier := AddIntermediate c (sm_identifier s)\<rparr>)"
proof -
  have r: "0x20 \<le> unat c" "unat c \<le> 0x2F" using assms(1) by (auto simp: char_class word_le_nat_alt)
  show ?thesis
    using assms r
    by (cases s) (auto simp: plain_char dispatch_event_def EventCsiEntry_def EventCsiParam_def
        EventCsiIntermediate_def not_in_range EnterCsiIntermediate_def sm_ActionCollect_def)
qed

lemma csi_intermediates:
  assumes "\<forall>c \<in> set cs. isIntermediate c" and "sm_state s \<in> {CsiEntry, CsiParam, CsiIntermediate}"
  shows "\<exists>st. process_chars eng cs s =
      Inr (s\<lparr>sm_state := st, sm_identifier := fold AddIntermediate cs (sm_identifier s)\<rparr>)
    \<and> st \<in> {CsiEntry, CsiParam, CsiIntermediate}"
  using assms
proof (induction cs arbitrary: s)
  case Nil
  then show ?case by (cases s) auto
next
  case (Cons c cs)
  let ?s = "s\<lparr>sm_state := CsiIntermediate, sm_identifier := AddIntermediate c (sm_identifier s)\<rparr>"
  have "ProcessCharacter eng c s = Inr ?s" using Cons.prems by (intro csi_intermediate_char) auto
  moreover obtain st where "process_chars eng cs ?s =
      Inr (?s\<lparr>sm_state := st, sm_identifier := fold AddIntermediate cs (sm_identifier ?s)\<rparr>)"
    "st \<in> {CsiEntry, CsiParam, CsiIntermediate}"
    using Cons.IH [of ?s] Cons.prems(1) by auto
  ultimately show ?case by (auto intro!: exI [of _ st])
qed

abbreviation final_char :: "wchar \<Rightarrow> bool" where
  "final_char c \<equiv> 0x40 \<le> unat c \<and> unat c \<le> 0x7E"

lemma csi_final:
  assumes "final_char c" and "sm_state s \<in> {CsiEntry, CsiParam, CsiIntermediate}"
  shows "ProcessCharacter eng c s = Inr (EnterGround (sm_ActionCsiDispatch eng c s))"
  using assms
  by (auto simp: plain_char dispatch_event_def EventCsiEntry_def EventCsiParam_def EventCsiIntermediate_def
      isIntermediateInvalid_def isParameterInvalid_def not_in_range)

context parser_engine
begin

lemma esc_csi:
  assumes "sm_isInAnsiMode s" and "sm_state s \<noteq> OscString" and "sm_state s \<noteq> DcsPassThrough"
  shows "process_chars eng [0x1B, 0x5B] s = Inr (EnterCsiEntry eng (EnterEscape eng s))"
proof -
  have "sm_state (EnterEscape eng s) = Escape" "sm_isInAnsiMode (EnterEscape eng s)"
    using assms(1) by (simp_all add: EnterEscape_def clear_fields)
  then show ?thesis
    using escape_char [OF assms(2,3), of eng]
    by (simp add: plain_char dispatch_event_def EventEscape_def char_class)
qed

lemma csi_body:
  assumes s: "sm_isInAnsiMode s" "sm_state s \<noteq> OscString" "sm_state s \<noteq> DcsPassThrough"
    and marker: "marker = [] \<or> (\<exists>m. marker = [m] \<and> isCsiPrivateMarker m)"
    and ps: "\<forall>ds \<in> set ps. \<forall>d \<in> set ds. d < 10"
    and ims: "\<forall>c \<in> set ims. isIntermediate c"
  shows "\<exists>st l. process_chars eng ([0x1B, 0x5B] @ marker @ param_text ps @ ims) s =
      Inr ((EnterCsiEntry eng (EnterEscape eng s))\<lparr>sm_state := st, sm_identifier := builder_of (marker @ ims),
             sm_parameters := parsed_params ps, sm_parameterLimitReached := l\<rparr>)
    \<and> st \<in> {CsiEntry, CsiParam, CsiIntermediate}"
proof -
  define t0 where "t0 = EnterCsiEntry eng (EnterEscape eng s)"
  have t0: "sm_state t0 = CsiEntry" "sm_parameters t0 = []" "\<not> sm_parameterLimitReached t0"
    "sm_identifier t0 = builder_of []"
    by (simp_all add: t0_def EnterCsiEntry_def EnterEscape_def clear_fields builder_of_def)
  obtain st l where t1: "process_chars eng (marker @ param_text ps) t0 =
      Inr (t0\<lparr>sm_state := st, sm_identifier := builder_of marker, sm_parameters := parsed_params ps,
             sm_parameterLimitReached := l\<rparr>)" "st \<in> {CsiEntry, CsiParam}"
    using csi_marker_params [OF t0(1-4) marker ps] by blast
  define t1 where "t1 = t0\<lparr>sm_state := st, sm_identifier := builder_of marker,
      sm_parameters := parsed_params ps, sm_parameterLimitReached := l\<rparr>"
  obtain st' where t2: "process_chars eng ims t1 =
      Inr (t1\<lparr>sm_state := st', sm_identifier := fold AddIntermediate ims (builder_of marker)\<rparr>)"
    "st' \<in> {CsiEntry, CsiParam, CsiIntermediate}"
    using csi_intermediates [OF ims, of t1] t1(2) by (auto simp: t1_def)
  have "fold AddIntermediate ims (builder_of marker) = builder_of (marker @ ims)"
    by (simp add: builder_of_def)
  then have ims: "process_chars eng ims t1 = Inr (t0\<lparr>sm_state := st', sm_identifier := builder_of (marker @ ims),
      sm_parameters := parsed_params ps, sm_parameterLimitReached := l\<rparr>)"
    using t2(1) by (simp add: t1_def)
  have "[0x1B, 0x5B] @ marker @ param_text ps @ ims = [0x1B, 0x5B] @ (marker @ param_text ps) @ ims" by simp
  then show ?thesis
    using t2(2) ims
    by (simp only: process_chars_seq [OF esc_csi [OF s]] process_chars_seq [OF t1(1)] t0_def [symmetric]
        t1_def [symmetric]) blast
qed

lemma csi_sequence:
  assumes s: "sm_isInAnsiMode s" "sm_state s \<noteq> OscString" "sm_state s \<noteq> DcsPassThrough"
    and marker: "marker = [] \<or> (\<exists>m. marker = [m] \<and> isCsiPrivateMarker m)"
    and ps: "\<forall>ds \<in> set ps. \<forall>d \<in> set ds. d < 10"
    and ims: "\<forall>c \<in> set ims. isIntermediate c" and final: "final_char final"
  shows "\<exists>t. process_chars eng (csi_text marker ps ims final) s =
      Inr (EnterGround (snd (ActionCsiDispatch eng (Finalize final (builder_of (marker @ ims)))
        (parsed_params ps) t)))
    \<and> sm_engine t = sm_engine (EnterCsiEntry eng (EnterEscape eng s)) \<and> sm_isInAnsiMode t = sm_isInAnsiMode s"
proof -
  define t0 where "t0 = EnterCsiEntry eng (EnterEscape eng s)"
  obtain st l where b: "process_chars eng ([0x1B, 0x5B] @ marker @ param_text ps @ ims) s =
      Inr (t0\<lparr>sm_state := st, sm_identifier := builder_of (marker @ ims), sm_parameters := parsed_params ps,
         sm_parameterLimitReached := l\<rparr>)" "st \<in> {CsiEntry, CsiParam, CsiIntermediate}"
    using csi_body [OF s marker ps ims] unfolding t0_def by blast
  define t where "t = t0\<lparr>sm_state := st, sm_identifier := builder_of (marker @ ims), sm_parameters := parsed_params ps,
      sm_parameterLimitReached := l\<rparr>"
  have "process_chars eng [final] t = Inr (EnterGround (sm_ActionCsiDispatch eng final t))"
    using csi_final [OF final, of t] b(2) by (simp add: t_def)
  moreover have "csi_text marker ps ims final = ([0x1B, 0x5B] @ marker @ param_text ps @ ims) @ [final]"
    by (simp add: csi_text_def)
  ultimately have "process_chars eng (csi_text marker ps ims final) s =
      Inr (EnterGround (sm_ActionCsiDispatch eng final t))"
    by (simp only: process_chars_seq [OF b(1)] t_def [symmetric])
  moreover have "sm_isInAnsiMode t0 = sm_isInAnsiMode s"
    by (simp add: t0_def EnterCsiEntry_def EnterEscape_def clear_fields)
  ultimately show ?thesis by (auto simp: sm_ActionCsiDispatch_def t_def t0_def)
qed

end

section \<open>Operating system commands\<close>

definition osc_char :: "wchar \<Rightarrow> bool" where
  "osc_char c \<longleftrightarrow> 0x20 \<le> unat c \<and> \<not> isC1ControlCharacter c"

lemma osc_digits:
  assumes "\<forall>d \<in> set ds. d < 10" and "sm_state s = OscParam" and "sm_oscParameter s = of_nat v" and "v \<le> 32767"
  shows "process_chars eng (map digit_char ds) s = Inr (s\<lparr>sm_oscParameter := of_nat (foldl clamp_step v ds)\<rparr>)"
  using assms
proof (induction ds arbitrary: s v)
  case Nil
  then show ?case by (cases s) simp
next
  case (Cons d ds)
  then have d: "d < 10" by simp
  then have range: "unat (digit_char d) = 0x30 + d" by (rule unat_digit_char)
  then have "\<not> isOscTerminator (digit_char d)" by (auto simp: isOscTerminator_def)
  with range have "ProcessCharacter eng (digit_char d) s = Inr (s\<lparr>sm_oscParameter := of_nat (clamp_step v d)\<rparr>)"
    using d Cons.prems digit_classes [OF d] AccumulateTo_digit [of v d]
    by (simp add: plain_char dispatch_event_def EventOscParam_def sm_ActionOscParam_def)
  moreover have "clamp_step v d \<le> 32767" by (simp add: clamp_step_def)
  ultimately show ?case
    using Cons.IH [of "s\<lparr>sm_oscParameter := of_nat (clamp_step v d)\<rparr>" "clamp_step v d"] Cons.prems by simp
qed

lemma osc_string_char:
  assumes "osc_char c" and "sm_state s = OscString"
  shows "ProcessCharacter eng c s = Inr (s\<lparr>sm_oscString := sm_oscString s @ [c]\<rparr>)"
proof -
  have "c \<noteq> ASCII_CAN" "c \<noteq> ASCII_SUB" "\<not> isEscape c" "\<not> isOscTerminator c" "\<not> isOscInvalid c"
    using assms(1) by (auto simp: osc_char_def char_class word_le_nat_alt)
  with assms show ?thesis
    by (subst ProcessCharacter.simps)
      (simp add: Let_def osc_char_def dispatch_event_def EventOscString_def sm_ActionOscPut_def)
qed

lemma osc_string_chars:
  assumes "\<forall>c \<in> set cs. osc_char c" and "sm_state s = OscString"
  shows "process_chars eng cs s = Inr (s\<lparr>sm_oscString := sm_oscString s @ cs\<rparr>)"
  using assms
proof (induction cs arbitrary: s)
  case Nil
  then show ?case by (cases s) simp
qed (simp add: osc_string_char)

text \<open>An OSC string ends with BEL, with ESC and a backslash, or with the 8-bit string terminator.\<close>

definition osc_terminator :: "wstring \<Rightarrow> bool" where
  "osc_terminator ts \<longleftrightarrow> ts \<in> {[0x07], [0x1B, 0x5C], [0x9C]}"

lemma osc_escape:
  "sm_state s = OscString \<Longrightarrow> ProcessCharacter eng 0x1B s = Inr (s\<lparr>sm_state := OscTermination\<rparr>)"
  by (subst ProcessCharacter.simps)
    (simp add: Let_def char_class dispatch_event_def EventOscString_def EnterOscTermination_def)

lemma osc_backslash:
  "sm_state s = OscTermination \<Longrightarrow>
     ProcessCharacter eng 0x5C s = Inr (EnterGround (sm_ActionOscDispatch eng 0x5C s))"
  by (simp add: plain_char dispatch_event_def EventOscTermination_def isStringTerminatorIndicator_def)

lemma osc_end:
  assumes "osc_terminator ts" and "sm_state s = OscString"
  shows "\<exists>c st. process_chars eng ts s =
    Inr (EnterGround (snd (ActionOscDispatch eng c (sm_oscParameter s) (sm_oscString s) (s\<lparr>sm_state := st\<rparr>))))"
proof -
  have bel: "ProcessCharacter eng 0x07 s = Inr (EnterGround (sm_ActionOscDispatch eng 0x07 s))"
    using assms(2) by (subst ProcessCharacter.simps)
      (simp add: Let_def char_class dispatch_event_def EventOscString_def)
  let ?s = "s\<lparr>sm_state := OscTermination\<rparr>"
  have st: "process_chars eng [0x1B, 0x5C] s = Inr (EnterGround (sm_ActionOscDispatch eng 0x5C ?s))"
    using assms(2) by (simp add: osc_escape osc_backslash)
  have c1: "ProcessCharacter eng 0x9C s = Inr (EnterGround (sm_ActionOscDispatch eng 0x5C ?s))"
    using assms(2)
    by (subst ProcessCharacter.simps)
      (simp add: Let_def char_class c1To7Bit_def osc_escape osc_backslash)
  have self: "s\<lparr>sm_state := OscString\<rparr> = s" using assms(2) by (cases s) simp
  from assms(1) consider "ts = [0x07]" | "ts = [0x1B, 0x5C]" | "ts = [0x9C]"
    by (auto simp: osc_terminator_def)
  then show ?thesis
  proof cases
    case 1
    with bel show ?thesis
      by (intro exI [of _ "0x07"] exI [of _ OscString]) (simp add: self sm_ActionOscDispatch_def)
  next
    case 2
    with st show ?thesis
      by (intro exI [of _ "0x5C"] exI [of _ OscTermination]) (simp add: sm_ActionOscDispatch_def)
  next
    case 3
    with c1 show ?thesis
      by (intro exI [of _ "0x5C"] exI [of _ OscTermination]) (simp add: sm_ActionOscDispatch_def)
  qed
qed

context parser_engine
begin

lemma esc_osc:
  assumes "sm_isInAnsiMode s" and "sm_state s \<noteq> OscString" and "sm_state s \<noteq> DcsPassThrough"
  shows "process_chars eng [0x1B, 0x5D] s = Inr ((EnterEscape eng s)\<lparr>sm_state := OscParam\<rparr>)"
proof -
  have "sm_state (EnterEscape eng s) = Escape" "sm_isInAnsiMode (EnterEscape eng s)"
    using assms(1) by (simp_all add: EnterEscape_def clear_fields)
  then show ?thesis
    using escape_char [OF assms(2,3), of eng]
    by (simp add: plain_char dispatch_event_def EventEscape_def char_class EnterOscParam_def)
qed

lemma osc_sequence:
  assumes s: "sm_isInAnsiMode s" "sm_state s \<noteq> OscString" "sm_state s \<noteq> DcsPassThrough"
    and ds: "\<forall>d \<in> set ds. d < 10" and str: "\<forall>c \<in> set str. osc_char c" and ts: "osc_terminator ts"
  shows "\<exists>c t. process_chars eng (osc_text ds str ts) s =
      Inr (EnterGround (snd (ActionOscDispatch eng c (of_nat (min 32767 (decimal ds))) str t)))
    \<and> sm_engine t = sm_engine (EnterEscape eng s) \<and> sm_isInAnsiMode t = sm_isInAnsiMode s"
proof -
  define n where "n = (of_nat (min 32767 (decimal ds)) :: size_t)"
  define t0 where "t0 = (EnterEscape eng s)\<lparr>sm_state := OscParam\<rparr>"
  have t0: "sm_state t0 = OscParam" "sm_oscParameter t0 = of_nat 0" "sm_oscString t0 = []" "sm_isInAnsiMode t0 = sm_isInAnsiMode s"
    by (simp_all add: t0_def EnterEscape_def clear_fields)
  have digits: "process_chars eng (map digit_char ds) t0 = Inr (t0\<lparr>sm_oscParameter := n\<rparr>)"
    using osc_digits [OF ds t0(1,2)] foldl_clamp [of 0 ds] by (simp add: n_def decimal_def)
  define t1 where "t1 = t0\<lparr>sm_oscParameter := n, sm_state := OscString\<rparr>"
  have semi: "process_chars eng [0x3B] (t0\<lparr>sm_oscParameter := n\<rparr>) = Inr t1"
    using t0(1) by (simp add: plain_char dispatch_event_def EventOscParam_def char_class EnterOscString_def t1_def)
  have put: "process_chars eng str t1 = Inr (t1\<lparr>sm_oscString := str\<rparr>)"
    using osc_string_chars [OF str, of t1 eng] t0(3) by (simp add: t1_def)
  obtain c st where fin: "process_chars eng ts (t1\<lparr>sm_oscString := str\<rparr>) =
      Inr (EnterGround (snd (ActionOscDispatch eng c n str (t1\<lparr>sm_oscString := str, sm_state := st\<rparr>))))"
    using osc_end [OF ts, of "t1\<lparr>sm_oscString := str\<rparr>" eng] by (auto simp: t1_def)
  have "osc_text ds str ts = [0x1B, 0x5D] @ map digit_char ds @ [0x3B] @ str @ ts"
    by (simp add: osc_text_def)
  then have "process_chars eng (osc_text ds str ts) s =
      Inr (EnterGround (snd (ActionOscDispatch eng c n str (t1\<lparr>sm_oscString := str, sm_state := st\<rparr>))))"
    using fin
    by (simp only: process_chars_seq [OF esc_osc [OF s]] t0_def [symmetric] process_chars_seq [OF digits]
        process_chars_seq [OF semi] process_chars_seq [OF put])
  moreover have "sm_engine (t1\<lparr>sm_oscString := str, sm_state := st\<rparr>) = sm_engine (EnterEscape eng s)"
    "sm_isInAnsiMode (t1\<lparr>sm_oscString := str, sm_state := st\<rparr>) = sm_isInAnsiMode s"
    using t0(4) by (simp_all add: t1_def t0_def)
  ultimately show ?thesis unfolding n_def by blast
qed

end

end
