(* ===== verification/State_Machine_Stream.thy ===== *)
theory State_Machine_Stream
  imports State_Machine_Inv
begin

text \<open>
  The parser as a consumer of a character stream. \<^verbatim>\<open>ProcessString\<close> gathers printable text into runs and
  keeps the text of an unfinished sequence for a later flush; for an engine that does not look at that text
  (locale \<open>stream_engine\<close>) it is equivalent to a step per character, so that the way a program splits its
  output into writes does not matter.
\<close>

section \<open>Machines up to the text of the current write\<close>

definition core :: "'e state_machine \<Rightarrow> 'e state_machine" where
  "core s = s\<lparr>sm_run := [], sm_cachedSequence := None\<rparr>"

lemma core_fields:
  assumes "core s = core t"
  shows "sm_engine s = sm_engine t" "sm_state s = sm_state t" "sm_isInAnsiMode s = sm_isInAnsiMode t"
    "sm_identifier s = sm_identifier t" "sm_parameters s = sm_parameters t"
    "sm_parameterLimitReached s = sm_parameterLimitReached t" "sm_oscString s = sm_oscString t"
    "sm_oscParameter s = sm_oscParameter t" "sm_dcsStringHandler s = sm_dcsStringHandler t"
    "sm_processingIndividually s = sm_processingIndividually t"
  using assms by (cases s; cases t; simp add: core_def)+

lemma core_idem [simp]: "core (core s) = core s"
  by (simp add: core_def)

lemma core_updates [simp]:
  "core (s\<lparr>sm_run := r\<rparr>) = core s" "core (s\<lparr>sm_cachedSequence := c\<rparr>) = core s"
  by (simp_all add: core_def)

definition blind :: "('e \<Rightarrow> bool) \<Rightarrow> ('e state_machine \<Rightarrow> 'r \<times> 'e state_machine) \<Rightarrow> bool" where
  "blind ok f \<longleftrightarrow>
     (\<forall>s t. ok (sm_engine s) \<longrightarrow> core s = core t \<longrightarrow>
        fst (f s) = fst (f t) \<and> core (snd (f s)) = core (snd (f t)) \<and> ok (sm_engine (snd (f s))))"

locale stream_engine = parser_engine eng for eng :: "'e engine_ops" +
  fixes ok :: "'e \<Rightarrow> bool"
  assumes blind_Execute: "blind ok (ActionExecute eng wch)"
    and blind_ExecuteFromEscape: "blind ok (ActionExecuteFromEscape eng wch)"
    and blind_Print: "blind ok (ActionPrint eng wch)"
    and blind_PrintString: "blind ok (ActionPrintString eng str)"
    and blind_EscDispatch: "blind ok (ActionEscDispatch eng vtid)"
    and blind_Vt52EscDispatch: "blind ok (ActionVt52EscDispatch eng vtid ps)"
    and blind_CsiDispatch: "blind ok (ActionCsiDispatch eng vtid ps)"
    and blind_DcsDispatch: "blind ok (ActionDcsDispatch eng vtid ps)"
    and blind_Clear: "blind ok (ActionClear eng)"
    and blind_OscDispatch: "blind ok (ActionOscDispatch eng wch n str)"
    and blind_Ss3Dispatch: "blind ok (ActionSs3Dispatch eng wch ps)"
    and handler_ok: "ok (sm_engine s) \<Longrightarrow> fst (ActionDcsDispatch eng vtid ps s) = Some h \<Longrightarrow> ok e \<Longrightarrow> ok (snd (h wch e))"
    and no_flush: "ok e \<Longrightarrow> \<not> FlushAtEndOfString eng e"
    and print_nil: "snd (ActionPrintString eng [] s) = s"

definition ok_machine :: "('e \<Rightarrow> bool) \<Rightarrow> 'e state_machine \<Rightarrow> bool" where
  "ok_machine ok s \<longleftrightarrow>
     ok (sm_engine s) \<and>
     (\<forall>h. sm_dcsStringHandler s = Some h \<longrightarrow> (\<forall>wch e. ok e \<longrightarrow> ok (snd (h wch e))))"

definition sim :: "('e \<Rightarrow> bool) \<Rightarrow> 'e state_machine \<Rightarrow> 'e state_machine \<Rightarrow> bool" where
  "sim ok s t \<longleftrightarrow> core s = core t \<and> ok_machine ok s"

lemma sim_fields:
  assumes "sim ok s t"
  shows "sm_engine t = sm_engine s" "sm_state t = sm_state s" "sm_isInAnsiMode t = sm_isInAnsiMode s"
    "sm_identifier t = sm_identifier s" "sm_parameters t = sm_parameters s"
    "sm_parameterLimitReached t = sm_parameterLimitReached s" "sm_oscString t = sm_oscString s"
    "sm_oscParameter t = sm_oscParameter s" "sm_dcsStringHandler t = sm_dcsStringHandler s"
    "sm_processingIndividually t = sm_processingIndividually s"
  using assms core_fields [of s t] by (simp_all add: sim_def)

lemma sim_refl: "ok_machine ok s \<Longrightarrow> sim ok s s"
  by (simp add: sim_def)

lemma sim_trans: "sim ok s t \<Longrightarrow> sim ok t u \<Longrightarrow> sim ok s u"
  by (simp add: sim_def)

lemma ok_machine_core: "core s = core t \<Longrightarrow> ok_machine ok s = ok_machine ok t"
  by (simp add: ok_machine_def core_fields [of s t])

lemma sim_sym: "sim ok s t \<Longrightarrow> sim ok t s"
  using ok_machine_core [of s t] by (simp add: sim_def)

text \<open>Updates of both machines.\<close>

lemma sim_updates:
  assumes "sim ok s t"
  shows "sim ok (s\<lparr>sm_state := st\<rparr>) (t\<lparr>sm_state := st\<rparr>)"
    "sim ok (s\<lparr>sm_identifier := i\<rparr>) (t\<lparr>sm_identifier := i\<rparr>)"
    "sim ok (s\<lparr>sm_parameters := ps\<rparr>) (t\<lparr>sm_parameters := ps\<rparr>)"
    "sim ok (s\<lparr>sm_parameterLimitReached := b\<rparr>) (t\<lparr>sm_parameterLimitReached := b\<rparr>)"
    "sim ok (s\<lparr>sm_oscString := str\<rparr>) (t\<lparr>sm_oscString := str\<rparr>)"
    "sim ok (s\<lparr>sm_oscParameter := n\<rparr>) (t\<lparr>sm_oscParameter := n\<rparr>)"
    "sim ok (s\<lparr>sm_dcsStringHandler := None\<rparr>) (t\<lparr>sm_dcsStringHandler := None\<rparr>)"
    "sim ok (s\<lparr>sm_processingIndividually := b\<rparr>) (t\<lparr>sm_processingIndividually := b\<rparr>)"
    "sim ok (s\<lparr>sm_run := r\<rparr>) t" "sim ok (s\<lparr>sm_cachedSequence := c\<rparr>) t"
    "sim ok s (t\<lparr>sm_run := r\<rparr>)" "sim ok s (t\<lparr>sm_cachedSequence := c\<rparr>)"
    "ok e \<Longrightarrow> sim ok (s\<lparr>sm_engine := e\<rparr>) (t\<lparr>sm_engine := e\<rparr>)"
  using assms by (cases s; cases t; auto simp: sim_def core_def ok_machine_def)+

lemma sim_machine_actions:
  assumes "sim ok s t"
  shows "sim ok (sm_ActionCollect wch s) (sm_ActionCollect wch t)"
    "sim ok (sm_ActionParam wch s) (sm_ActionParam wch t)"
    "sim ok (sm_ActionOscParam wch s) (sm_ActionOscParam wch t)"
    "sim ok (sm_ActionOscPut wch s) (sm_ActionOscPut wch t)"
    "sim ok (EnterGround s) (EnterGround t)"
    "sim ok (EnterEscapeIntermediate s) (EnterEscapeIntermediate t)"
    "sim ok (EnterCsiParam s) (EnterCsiParam t)" "sim ok (EnterCsiIgnore s) (EnterCsiIgnore t)"
    "sim ok (EnterCsiIntermediate s) (EnterCsiIntermediate t)" "sim ok (EnterOscParam s) (EnterOscParam t)"
    "sim ok (EnterOscString s) (EnterOscString t)" "sim ok (EnterOscTermination s) (EnterOscTermination t)"
    "sim ok (EnterSs3Param s) (EnterSs3Param t)" "sim ok (EnterVt52Param s) (EnterVt52Param t)"
    "sim ok (EnterDcsParam s) (EnterDcsParam t)" "sim ok (EnterDcsIgnore s) (EnterDcsIgnore t)"
    "sim ok (EnterDcsIntermediate s) (EnterDcsIntermediate t)"
    "sim ok (EnterDcsPassThrough s) (EnterDcsPassThrough t)"
    "sim ok (EnterSosPmApcString s) (EnterSosPmApcString t)"
proof -
  show "sim ok (sm_ActionParam wch s) (sm_ActionParam wch t)"
    using assms sim_fields [OF assms]
    by (auto simp: sm_ActionParam_def Let_def intro!: sim_updates)
  show "sim ok (EnterGround s) (EnterGround t)"
    unfolding EnterGround_def by (intro sim_updates assms)
qed (simp_all add: sm_ActionCollect_def sm_ActionOscParam_def sm_ActionOscPut_def sim_fields [OF assms]
      Enter_defs sim_updates assms)

definition sim_result :: "('e \<Rightarrow> bool) \<Rightarrow> sm_error + 'e state_machine \<Rightarrow> sm_error + 'e state_machine \<Rightarrow> bool" where
  "sim_result ok = rel_sum (=) (sim ok)"

lemma sim_result_simps [simp]:
  "sim_result ok (Inr s) (Inr t) = sim ok s t" "sim_result ok (Inl e) (Inl e') = (e = e')"
  "\<not> sim_result ok (Inl e) (Inr t)" "\<not> sim_result ok (Inr s) (Inl e)"
  by (simp_all add: sim_result_def)

lemma sim_result_join: "sim_result ok x y \<Longrightarrow> sim_result ok z y \<Longrightarrow> sim_result ok x z"
  by (cases x; cases y; cases z) (auto intro: sim_trans sim_sym)

lemma sim_result_case:
  assumes "sim_result ok x y" "\<And>s t. sim ok s t \<Longrightarrow> sim_result ok (f s) (g t)"
  shows "sim_result ok (case x of Inl e \<Rightarrow> Inl e | Inr s \<Rightarrow> f s) (case y of Inl e \<Rightarrow> Inl e | Inr s \<Rightarrow> g s)"
  using assms by (cases x; cases y) auto

lemma sim_handler:
  assumes "sim ok s t" and "\<And>r s t. sim ok s t \<Longrightarrow> sim ok (f r s) (f r t)"
  shows "sim_result ok (case call_handler wch s of Inl e \<Rightarrow> Inl e | Inr (r, s') \<Rightarrow> Inr (f r s'))
     (case call_handler wch t of Inl e \<Rightarrow> Inl e | Inr (r, s') \<Rightarrow> Inr (f r s'))"
proof (cases "sm_dcsStringHandler s")
  case None
  then show ?thesis using sim_fields [OF assms(1)] by (simp add: call_handler_def)
next
  case (Some h)
  obtain r e where h: "h wch (sm_engine s) = (r, e)" by fastforce
  have "ok (snd (h wch (sm_engine s)))" using assms(1) Some by (simp add: sim_def ok_machine_def)
  then have "ok e" using h by simp
  then show ?thesis
    using Some h sim_fields [OF assms(1)] assms(2) [OF sim_updates(13) [OF assms(1)]]
    by (simp add: call_handler_def)
qed

section \<open>A program's writes\<close>

text \<open>The writes of a program, each handed to \<^verbatim>\<open>ProcessString\<close>.\<close>

fun process_writes :: "'e engine_ops \<Rightarrow> wstring list \<Rightarrow> 'e state_machine \<Rightarrow> sm_error + 'e state_machine" where
  "process_writes eng [] s = Inr s"
| "process_writes eng (w # ws) s =
     (case ProcessString eng w s of Inl e \<Rightarrow> Inl e | Inr s' \<Rightarrow> process_writes eng ws s')"

lemma process_writes_append:
  "process_writes eng (vs @ ws) s =
     (case process_writes eng vs s of Inl e \<Rightarrow> Inl e | Inr t \<Rightarrow> process_writes eng ws t)"
  by (induction vs arbitrary: s) (auto split: sum.splits)

context parser_engine
begin

lemma process_writes_ok:
  assumes "\<And>e. \<not> FlushAtEndOfString eng e" "str_inv s"
  shows "\<exists>s'. process_writes eng ws s = Inr s' \<and> str_inv s'"
  using assms(2)
proof (induction ws arbitrary: s)
  case (Cons w ws)
  obtain t where "ProcessString eng w s = Inr t" "str_inv t"
    using ProcessString_ok [OF Cons.prems, of w] assms(1) by blast
  then show ?case using Cons.IH by simp
qed simp

end

section \<open>Every event respects the similarity\<close>

context stream_engine
begin

lemma blind_sim:
  assumes "blind ok f" "\<And>s. same_parser s (snd (f s))" "sim ok s t"
  shows "sim ok (snd (f s)) (snd (f t))"
proof -
  have "ok_machine ok (snd (f s))"
    using assms same_parser_fields(8) [OF assms(2) [of s]]
    by (auto simp: sim_def blind_def ok_machine_def)
  then show ?thesis using assms by (auto simp: sim_def blind_def ok_machine_def)
qed

lemmas op_sim =
  blind_sim [OF blind_Execute keeps_Execute]
  blind_sim [OF blind_ExecuteFromEscape keeps_ExecuteFromEscape]
  blind_sim [OF blind_Print keeps_Print]
  blind_sim [OF blind_PrintString keeps_PrintString]
  blind_sim [OF blind_EscDispatch keeps_EscDispatch]
  blind_sim [OF blind_Vt52EscDispatch keeps_Vt52EscDispatch]
  blind_sim [OF blind_CsiDispatch keeps_CsiDispatch]
  blind_sim [OF blind_OscDispatch keeps_OscDispatch]
  blind_sim [OF blind_Ss3Dispatch keeps_Ss3Dispatch]
  blind_sim [OF blind_Clear keeps_Clear]

lemma action_sim:
  assumes "sim ok s t"
  shows "sim ok (sm_ActionExecute eng wch s) (sm_ActionExecute eng wch t)"
    "sim ok (sm_ActionExecuteFromEscape eng wch s) (sm_ActionExecuteFromEscape eng wch t)"
    "sim ok (sm_ActionPrint eng wch s) (sm_ActionPrint eng wch t)"
    "sim ok (sm_ActionEscDispatch eng wch s) (sm_ActionEscDispatch eng wch t)"
    "sim ok (sm_ActionVt52EscDispatch eng wch s) (sm_ActionVt52EscDispatch eng wch t)"
    "sim ok (sm_ActionCsiDispatch eng wch s) (sm_ActionCsiDispatch eng wch t)"
    "sim ok (sm_ActionOscDispatch eng wch s) (sm_ActionOscDispatch eng wch t)"
    "sim ok (sm_ActionSs3Dispatch eng wch s) (sm_ActionSs3Dispatch eng wch t)"
  using sim_fields [OF assms]
  by (simp_all add: sm_ActionExecute_def sm_ActionExecuteFromEscape_def sm_ActionPrint_def
      sm_ActionEscDispatch_def sm_ActionVt52EscDispatch_def sm_ActionCsiDispatch_def
      sm_ActionOscDispatch_def sm_ActionSs3Dispatch_def op_sim [OF assms])

lemma clear_sim: "sim ok s t \<Longrightarrow> sim ok (sm_ActionClear eng s) (sm_ActionClear eng t)"
  using sim_fields [of ok s t]
  by (auto simp: sm_ActionClear_def intro!: op_sim sim_updates)

lemma enter_sim:
  assumes "sim ok s t"
  shows "sim ok (EnterEscape eng s) (EnterEscape eng t)" "sim ok (EnterCsiEntry eng s) (EnterCsiEntry eng t)"
    "sim ok (EnterSs3Entry eng s) (EnterSs3Entry eng t)" "sim ok (EnterDcsEntry eng s) (EnterDcsEntry eng t)"
  by (simp_all add: EnterEscape_def EnterCsiEntry_def EnterSs3Entry_def EnterDcsEntry_def
      clear_sim sim_updates assms)

lemma dcs_dispatch_sim:
  assumes "sim ok s t"
  shows "sim ok (sm_ActionDcsDispatch eng wch s) (sm_ActionDcsDispatch eng wch t)"
proof -
  let ?f = "ActionDcsDispatch eng (Finalize wch (sm_identifier s)) (sm_parameters s)"
  obtain h s' where f: "?f s = (h, s')" by fastforce
  obtain h' t' where g: "?f t = (h', t')" by fastforce
  have st: "sim ok s' t'" using blind_sim [OF blind_DcsDispatch keeps_DcsDispatch assms] f g by (metis snd_conv)
  have h: "h' = h" using blind_DcsDispatch assms f g by (auto simp: blind_def sim_def ok_machine_def) (metis fst_conv)+
  have "ok (snd (g w e))" if "h = Some g" "ok e" for g w e
    using handler_ok [of s "Finalize wch (sm_identifier s)" "sm_parameters s" g e w] assms f that
    by (simp add: sim_def ok_machine_def)
  then have "ok_machine ok (s'\<lparr>sm_dcsStringHandler := h\<rparr>)"
    using st by (auto simp: sim_def ok_machine_def)
  then have "sim ok (s'\<lparr>sm_dcsStringHandler := h\<rparr>) (t'\<lparr>sm_dcsStringHandler := h\<rparr>)"
    using st by (cases s'; cases t'; auto simp: sim_def core_def)
  then show ?thesis
    using f g h sim_fields [OF assms]
    by (auto simp: sm_ActionDcsDispatch_def Let_def intro: sim_machine_actions split: option.splits)
qed

lemmas event_sims = sim_machine_actions action_sim enter_sim dcs_dispatch_sim

lemma EventEscape_sim: "sim ok s t \<Longrightarrow> sim ok (EventEscape eng wch s) (EventEscape eng wch t)"
  unfolding EventEscape_def by (frule sim_fields(1), frule sim_fields(3)) (simp add: event_sims)

lemma event_sim:
  assumes "sim ok s t"
  shows "sim ok (EventGround eng wch s) (EventGround eng wch t)"
    "sim ok (EventEscapeIntermediate eng wch s) (EventEscapeIntermediate eng wch t)"
    "sim ok (EventCsiEntry eng wch s) (EventCsiEntry eng wch t)"
    "sim ok (EventCsiIntermediate eng wch s) (EventCsiIntermediate eng wch t)"
    "sim ok (EventCsiIgnore eng wch s) (EventCsiIgnore eng wch t)"
    "sim ok (EventCsiParam eng wch s) (EventCsiParam eng wch t)"
    "sim ok (EventOscParam wch s) (EventOscParam wch t)"
    "sim ok (EventOscString eng wch s) (EventOscString eng wch t)"
    "sim ok (EventOscTermination eng wch s) (EventOscTermination eng wch t)"
    "sim ok (EventSs3Entry eng wch s) (EventSs3Entry eng wch t)"
    "sim ok (EventSs3Param eng wch s) (EventSs3Param eng wch t)"
    "sim ok (EventVt52Param eng wch s) (EventVt52Param eng wch t)"
    "sim ok (EventDcsEntry eng wch s) (EventDcsEntry eng wch t)"
    "sim ok (EventDcsIntermediate eng wch s) (EventDcsIntermediate eng wch t)"
    "sim ok (EventDcsParam eng wch s) (EventDcsParam eng wch t)"
  using sim_fields [OF assms] assms
  by (simp_all add: EventGround_def EventEscapeIntermediate_def EventCsiEntry_def EventCsiIntermediate_def
      EventCsiIgnore_def EventCsiParam_def EventOscParam_def EventOscString_def EventOscTermination_def
      EventSs3Entry_def EventSs3Param_def EventVt52Param_def EventDcsEntry_def EventDcsIntermediate_def
      EventDcsParam_def Let_def event_sims EventEscape_sim sim_updates)

lemma dispatch_event_sim:
  "sim ok s t \<Longrightarrow> sim_result ok (dispatch_event eng wch s) (dispatch_event eng wch t)"
  using sim_fields(2) [of ok s t]
  by (cases "sm_state s")
    (simp_all add: dispatch_event_def event_sim EventEscape_sim EventDcsIgnore_def EventSosPmApcString_def
      EventDcsPassThrough_def sim_handler sim_machine_actions)

lemma interrupt_sim: "sim ok s t \<Longrightarrow> sim_result ok (sm_ActionInterrupt s) (sm_ActionInterrupt t)"
  using sim_fields(2) [of ok s t]
  by (simp add: sm_ActionInterrupt_def sim_handler sim_updates)

lemma ProcessCharacter_sim:
  assumes "sim ok s t"
  shows "sim_result ok (ProcessCharacter eng wch s) (ProcessCharacter eng wch t)"
proof -
  have plain: "sim_result ok (ProcessCharacter eng c s) (ProcessCharacter eng c t)"
    if "sim ok s t" "\<not> isC1ControlCharacter c" for c s t
    using that sim_fields [OF that(1)] dispatch_event_sim [OF that(1), of c]
      sim_result_case [OF interrupt_sim [OF that(1)], of "\<lambda>s. Inr (EnterEscape eng s)" "\<lambda>s. Inr (EnterEscape eng s)"]
      sim_result_case [OF interrupt_sim [OF that(1)], of "\<lambda>s. Inr (EnterGround (sm_ActionExecute eng c s))"
        "\<lambda>s. Inr (EnterGround (sm_ActionExecute eng c s))"]
    by (subst (1 2) ProcessCharacter.simps) (simp add: Let_def event_sims)
  show ?thesis
  proof (cases "isC1ControlCharacter wch")
    case True
    then show ?thesis
      unfolding ProcessCharacter_c1 [OF True]
      by (intro sim_result_case plain assms escape_not_c1 c1To7Bit_not_c1)
  qed (rule plain [OF assms])
qed

end

section \<open>One step per character\<close>

definition stream_step :: "'e engine_ops \<Rightarrow> wchar \<Rightarrow> 'e state_machine \<Rightarrow> sm_error + 'e state_machine" where
  "stream_step eng wch s =
     (if sm_processingIndividually s \<or> isActionableFromGround wch
      then (case ProcessCharacter eng wch (s\<lparr>sm_processingIndividually := True\<rparr>) of
              Inl e \<Rightarrow> Inl e
            | Inr s' \<Rightarrow> Inr (s'\<lparr>sm_processingIndividually := sm_state s' \<noteq> Ground\<rparr>))
      else Inr (snd (ActionPrintString eng [wch] s)))"

fun stream :: "'e engine_ops \<Rightarrow> wstring \<Rightarrow> 'e state_machine \<Rightarrow> sm_error + 'e state_machine" where
  "stream eng [] s = Inr s"
| "stream eng (wch # str) s =
     (case stream_step eng wch s of Inl e \<Rightarrow> Inl e | Inr s' \<Rightarrow> stream eng str s')"

lemma stream_append:
  "stream eng (a @ b) s = (case stream eng a s of Inl e \<Rightarrow> Inl e | Inr s' \<Rightarrow> stream eng b s')"
  by (induction a arbitrary: s) (auto split: sum.splits)

lemma stream_individually:
  assumes "isActionableFromGround wch"
  shows "stream eng (wch # str) (s\<lparr>sm_processingIndividually := True\<rparr>) = stream eng (wch # str) s"
  using assms by (simp add: stream_step_def)

text \<open>Printing a text without control characters is printing its parts one after the other.\<close>

definition print_compositional :: "('e \<Rightarrow> bool) \<Rightarrow> 'e engine_ops \<Rightarrow> bool" where
  "print_compositional ok eng \<longleftrightarrow>
     (\<forall>a b s. ok (sm_engine s) \<longrightarrow> list_all (\<lambda>c. \<not> isActionableFromGround c) (a @ b) \<longrightarrow>
        snd (ActionPrintString eng (a @ b) s) = snd (ActionPrintString eng b (snd (ActionPrintString eng a s))))"

text \<open>The part of \<^verbatim>\<open>ProcessString\<close> behind its loop, for an engine that does not flush.\<close>

definition finish_string :: "'e engine_ops \<Rightarrow> wstring \<Rightarrow> nat \<times> 'e state_machine \<Rightarrow> 'e state_machine" where
  "finish_string eng str r =
     (case r of (start, s) \<Rightarrow>
        let s = s\<lparr>sm_run := (if start < length str then drop start str else [])\<rparr> in
        if \<not> sm_processingIndividually s \<and> sm_run s \<noteq> [] then snd (ActionPrintString eng (sm_run s) s)
        else if sm_processingIndividually s
        then s\<lparr>sm_cachedSequence := Some ((case sm_cachedSequence s of Some c \<Rightarrow> c | None \<Rightarrow> []) @ sm_run s)\<rparr>
        else s)"

text \<open>The loop, by its four cases.\<close>

lemma process_loop_end: "length str \<le> current \<Longrightarrow> process_loop eng str start current s = Inr (start, s)"
  by (subst process_loop.simps) simp

lemma process_loop_individually:
  assumes "current < length str" "sm_processingIndividually s"
  shows "process_loop eng str start current s =
    (case ProcessCharacter eng (str ! current) (s\<lparr>sm_run := take (current - start + 1) (drop start str)\<rparr>) of
       Inl e \<Rightarrow> Inl e
     | Inr t \<Rightarrow> if sm_state t = Ground
                 then process_loop eng str (current + 1) (current + 1) (t\<lparr>sm_processingIndividually := False\<rparr>)
                 else process_loop eng str start (current + 1) t)"
  using assms by (subst process_loop.simps) (simp add: Let_def)

lemma process_loop_actionable:
  assumes "current < length str" "\<not> sm_processingIndividually s" "isActionableFromGround (str ! current)" "start \<le> current"
  shows "process_loop eng str start current s =
    process_loop eng str current current
      ((snd (ActionPrintString eng (take (current - start) (drop start str))
          (s\<lparr>sm_run := take (current - start + 1) (drop start str)\<rparr>)))\<lparr>sm_processingIndividually := True\<rparr>)"
proof -
  have "length (take (current - start + 1) (drop start str)) = current - start + 1" using assms by simp
  then have "take (length (take (current - start + 1) (drop start str)) - 1) (take (current - start + 1) (drop start str)) =
      take (current - start) (drop start str)" "take (current - start + 1) (drop start str) \<noteq> []"
    by (simp_all only: take_take) (simp, fastforce)
  then show ?thesis using assms(1-3) by (subst process_loop.simps) (simp only: Let_def, simp)
qed

lemma process_loop_plain:
  assumes "current < length str" "\<not> sm_processingIndividually s" "\<not> isActionableFromGround (str ! current)"
  shows "process_loop eng str start current s =
    process_loop eng str start (current + 1) (s\<lparr>sm_run := take (current - start + 1) (drop start str)\<rparr>)"
  using assms by (subst process_loop.simps) (simp add: Let_def)

context stream_engine
begin

lemma stream_step_sim: "sim ok s t \<Longrightarrow> sim_result ok (stream_step eng wch s) (stream_step eng wch t)"
proof -
  assume st: "sim ok s t"
  have "sim_result ok (ProcessCharacter eng wch (s\<lparr>sm_processingIndividually := True\<rparr>))
     (ProcessCharacter eng wch (t\<lparr>sm_processingIndividually := True\<rparr>))"
    by (intro ProcessCharacter_sim sim_updates st)
  from sim_result_case [OF this, of "\<lambda>s. Inr (s\<lparr>sm_processingIndividually := sm_state s \<noteq> Ground\<rparr>)"
      "\<lambda>s. Inr (s\<lparr>sm_processingIndividually := sm_state s \<noteq> Ground\<rparr>)"]
  show ?thesis
    using st sim_fields(10) [OF st]
    by (simp add: stream_step_def op_sim sim_updates sim_fields(2))
qed

lemma stream_sim: "sim ok s t \<Longrightarrow> sim_result ok (stream eng str s) (stream eng str t)"
proof (induction str arbitrary: s t)
  case (Cons c str)
  show ?case using sim_result_case [OF stream_step_sim [OF Cons.prems] Cons.IH] by simp
qed simp

lemma finish_string_sim:
  assumes "sim ok s t" "start \<le> length str"
  shows "sim ok (finish_string eng str (start, s))
     (if sm_processingIndividually s then t else snd (ActionPrintString eng (drop start str) t))"
proof -
  have r: "(if start < length str then drop start str else []) = drop start str" using assms(2) by simp
  have "sim ok (snd (ActionPrintString eng (drop start str) (s\<lparr>sm_run := drop start str\<rparr>)))
      (snd (ActionPrintString eng (drop start str) t))"
    by (intro op_sim sim_updates assms(1))
  moreover have "sim ok (s\<lparr>sm_run := r'\<rparr>) t" "sim ok (s\<lparr>sm_run := r', sm_cachedSequence := c\<rparr>) t" for r' c
    by (intro sim_updates assms(1))+
  ultimately show ?thesis
    unfolding finish_string_def Let_def prod.case r by (simp add: print_nil)
qed

lemma print_step:
  assumes "print_compositional ok eng" "sim ok s t" "\<not> sm_processingIndividually t" "\<not> isActionableFromGround c"
    "list_all (\<lambda>c. \<not> isActionableFromGround c) xs"
  shows "stream eng (c # str) (snd (ActionPrintString eng xs t)) =
    stream eng str (snd (ActionPrintString eng (xs @ [c]) t))"
proof -
  have "sm_processingIndividually (snd (ActionPrintString eng xs t)) = sm_processingIndividually t"
    using same_parser_fields(9) [OF keeps_PrintString] .
  moreover have "ok (sm_engine t)" using assms(2) sim_fields(1) [OF assms(2)] by (simp add: sim_def ok_machine_def)
  ultimately show ?thesis
    using assms by (simp add: stream_step_def print_compositional_def)
qed

lemma process_loop_stream:
  assumes "print_compositional ok eng" and "sim ok s t" and "start \<le> current" and "current \<le> length str"
    and "sm_processingIndividually s \<or> list_all (\<lambda>c. \<not> isActionableFromGround c) (take (current - start) (drop start str))"
  shows "sim_result ok
     (case process_loop eng str start current s of Inl e \<Rightarrow> Inl e | Inr r \<Rightarrow> Inr (finish_string eng str r))
     (stream eng (drop current str)
       (if sm_processingIndividually s then t
        else snd (ActionPrintString eng (take (current - start) (drop start str)) t)))"
  using assms(2-5)
proof (induction "2 * (length str - current) + (if sm_processingIndividually s then 0 else 1)"
    arbitrary: start current s t rule: less_induct)
  case less
  note sim = less.prems(1)
  let ?r = "take (current - start + 1) (drop start str)"
  show ?case
  proof (cases "current < length str")
    case False
    then have "current = length str" using less.prems by simp
    then show ?thesis
      using finish_string_sim [OF sim, of start str] less.prems
      by (auto simp: process_loop_end split: if_splits)
  next
    case lt: True
    have d: "drop current str = str ! current # drop (Suc current) str" using lt by (simp add: Cons_nth_drop_Suc)
    consider (ind) "sm_processingIndividually s"
      | (act) "\<not> sm_processingIndividually s" "isActionableFromGround (str ! current)"
      | (plain) "\<not> sm_processingIndividually s" "\<not> isActionableFromGround (str ! current)" by blast
    then show ?thesis
    proof cases
      case ind
      have tt: "t\<lparr>sm_processingIndividually := True\<rparr> = t" using ind sim_fields(10) [OF sim] by simp
      have step: "stream eng (drop current str) t =
        (case ProcessCharacter eng (str ! current) t of
           Inl e \<Rightarrow> Inl e
         | Inr t' \<Rightarrow> stream eng (drop (Suc current) str) (t'\<lparr>sm_processingIndividually := sm_state t' \<noteq> Ground\<rparr>))"
        unfolding d stream.simps stream_step_def tt
        using ind sim_fields(10) [OF sim] by (simp split: sum.splits)
      have "sim_result ok (ProcessCharacter eng (str ! current) (s\<lparr>sm_run := ?r\<rparr>)) (ProcessCharacter eng (str ! current) t)"
        by (intro ProcessCharacter_sim sim_updates sim)
      then consider (err) e where "ProcessCharacter eng (str ! current) (s\<lparr>sm_run := ?r\<rparr>) = Inl e"
          "ProcessCharacter eng (str ! current) t = Inl e"
        | (res) s' t' where "ProcessCharacter eng (str ! current) (s\<lparr>sm_run := ?r\<rparr>) = Inr s'"
          "ProcessCharacter eng (str ! current) t = Inr t'" "sim ok s' t'"
        unfolding sim_result_def by (cases rule: rel_sum.cases) auto
      then show ?thesis
      proof cases
        case err
        then show ?thesis using ind lt by (simp add: step process_loop_individually)
      next
        case res
        have p: "sm_processingIndividually s'"
          using ProcessCharacter_frame [OF res(1)] ind by (simp add: frame_def)
        have ground: "sim ok (s'\<lparr>sm_processingIndividually := False\<rparr>) (t'\<lparr>sm_processingIndividually := False\<rparr>)"
          by (intro sim_updates res(3))
        have tt': "t'\<lparr>sm_processingIndividually := True\<rparr> = t'" using p sim_fields(10) [OF res(3)] by simp
        show ?thesis
        proof (cases "sm_state s' = Ground")
          case True
          have "sim_result ok (case process_loop eng str (current + 1) (current + 1) (s'\<lparr>sm_processingIndividually := False\<rparr>) of
              Inl e \<Rightarrow> Inl e | Inr r \<Rightarrow> Inr (finish_string eng str r))
            (stream eng (drop (current + 1) str) (t'\<lparr>sm_processingIndividually := False\<rparr>))"
            using less.hyps [OF _ ground, of "current + 1" "current + 1"] ind lt by (simp add: print_nil)
          then show ?thesis
            using True ind lt res(1,2) sim_fields(2) [OF res(3)] by (simp add: step process_loop_individually)
        next
          case False
          have "sim_result ok (case process_loop eng str start (current + 1) s' of
              Inl e \<Rightarrow> Inl e | Inr r \<Rightarrow> Inr (finish_string eng str r)) (stream eng (drop (current + 1) str) t')"
            using less.hyps [OF _ res(3), of "current + 1" start] ind p lt less.prems(2) by simp
          then show ?thesis
            using False ind lt res(1,2) sim_fields(2) [OF res(3)] tt' by (simp add: step process_loop_individually)
        qed
      qed
    next
      case act
      let ?p = "take (current - start) (drop start str)"
      let ?s = "(snd (ActionPrintString eng ?p (s\<lparr>sm_run := ?r\<rparr>)))\<lparr>sm_processingIndividually := True\<rparr>"
      let ?t = "(snd (ActionPrintString eng ?p t))\<lparr>sm_processingIndividually := True\<rparr>"
      have "sim ok ?s ?t" by (intro op_sim sim_updates sim)
      then show ?thesis
        using less.hyps [of current ?s ?t current] lt act less.prems
          stream_individually [OF act(2), of eng "drop (Suc current) str" "snd (ActionPrintString eng ?p t)"]
        by (simp add: process_loop_actionable d)
    next
      case plain
      have "sim ok (s\<lparr>sm_run := ?r\<rparr>) t" by (intro sim_updates sim)
      moreover have "take (Suc current - start) (drop start str) = take (current - start) (drop start str) @ [str ! current]"
        using lt less.prems by (simp add: Suc_diff_le take_Suc_conv_app_nth)
      ultimately show ?thesis
        using less.hyps [of "current + 1" "s\<lparr>sm_run := ?r\<rparr>" t start] lt plain less.prems
          print_step [OF assms(1) sim _ plain(2), of "take (current - start) (drop start str)" "drop (Suc current) str"]
          sim_fields(10) [OF sim]
        by (simp add: process_loop_plain d)
    qed
  qed
qed

lemma ProcessCharacter_ok_machine: "ok_machine ok s \<Longrightarrow> ProcessCharacter eng wch s = Inr s' \<Longrightarrow> ok_machine ok s'"
  using ProcessCharacter_sim [OF sim_refl [of ok s], of wch] by (simp add: sim_def)

lemma ok_machine_updates [simp]:
  "ok_machine ok (s\<lparr>sm_run := r\<rparr>) = ok_machine ok s"
  "ok_machine ok (s\<lparr>sm_processingIndividually := b\<rparr>) = ok_machine ok s"
  by (simp_all add: ok_machine_def)

lemma process_loop_ok_machine:
  assumes "ok_machine ok s" "start \<le> current" "process_loop eng str start current s = Inr (start', s')"
  shows "ok_machine ok s'"
  using assms
proof (induction "2 * (length str - current) + (if sm_processingIndividually s then 0 else 1)"
    arbitrary: start current s rule: less_induct)
  case less
  have print: "ok_machine ok (snd (ActionPrintString eng xs t))" if "ok_machine ok t" for xs t
    using op_sim(4) [OF sim_refl [OF that], of xs] by (simp add: sim_def)
  show ?case
  proof (cases "current < length str")
    case lt: True
    show ?thesis
    proof (cases "sm_processingIndividually s")
      case True
      then obtain t where t: "ProcessCharacter eng (str ! current) (s\<lparr>sm_run := take (current - start + 1) (drop start str)\<rparr>) = Inr t"
        using less.prems(3) lt by (auto simp: process_loop_individually split: sum.splits)
      have "ok_machine ok t" "sm_processingIndividually t"
        using ProcessCharacter_ok_machine [OF _ t] ProcessCharacter_frame [OF t] less.prems(1) True by (simp_all add: frame_def)
      note t_ok = this
      show ?thesis
      proof (cases "sm_state t = Ground")
        case ground: True
        show ?thesis
          by (rule less.hyps [of "current + 1" "t\<lparr>sm_processingIndividually := False\<rparr>" "current + 1"])
            (use less.prems(3) True lt t t_ok ground in \<open>simp_all add: process_loop_individually\<close>)
      next
        case ground: False
        show ?thesis
          by (rule less.hyps [of "current + 1" t start])
            (use less.prems(2,3) True lt t t_ok ground in \<open>simp_all add: process_loop_individually\<close>)
      qed
    next
      case False
      show ?thesis
      proof (cases "isActionableFromGround (str ! current)")
        case act: True
        show ?thesis
          by (rule less.hyps [of current "(snd (ActionPrintString eng (take (current - start) (drop start str))
            (s\<lparr>sm_run := take (current - start + 1) (drop start str)\<rparr>)))\<lparr>sm_processingIndividually := True\<rparr>" current])
            (use less.prems False lt act in \<open>simp_all add: process_loop_actionable print\<close>)
      next
        case act: False
        show ?thesis
          by (rule less.hyps [of "current + 1" "s\<lparr>sm_run := take (current - start + 1) (drop start str)\<rparr>" start])
            (use less.prems False lt act in \<open>simp_all add: process_loop_plain\<close>)
      qed
    qed
  qed (use less.prems in \<open>simp add: process_loop_end\<close>)
qed

lemma ProcessString_stream:
  assumes "print_compositional ok eng" "sim ok s t"
  shows "sim_result ok (ProcessString eng str s) (stream eng str t)"
proof -
  have "sim_result ok
     (case process_loop eng str 0 0 s of Inl e \<Rightarrow> Inl e | Inr r \<Rightarrow> Inr (finish_string eng str r)) (stream eng str t)"
    using process_loop_stream [OF assms, of 0 0 str] by (cases "sm_processingIndividually s") (simp_all add: print_nil)
  moreover have "ProcessString eng str s =
     (case process_loop eng str 0 0 s of Inl e \<Rightarrow> Inl e | Inr r \<Rightarrow> Inr (finish_string eng str r))"
  proof (cases "process_loop eng str 0 0 s")
    case (Inr r)
    obtain start s' where r: "r = (start, s')" by fastforce
    have "ok_machine ok s" using assms(2) by (simp only: sim_def)
    then have "ok_machine ok s'"
      by (rule process_loop_ok_machine [OF _ order_refl Inr [unfolded r]])
    then have "ok (sm_engine s')" by (simp only: ok_machine_def)
    then have nf: "FlushAtEndOfString eng (sm_engine (s'\<lparr>sm_run := x\<rparr>)) = False" for x using no_flush by simp
    show ?thesis
      unfolding ProcessString_def finish_string_def Inr r sum.case prod.case Let_def nf if_False
      by (simp only: if_distrib [of Inr])
  qed (simp add: ProcessString_def)
  ultimately show ?thesis by simp
qed

text \<open>The output may be cut into writes at any place.\<close>

lemma process_writes_stream:
  assumes "print_compositional ok eng" "sim ok s t"
  shows "sim_result ok (process_writes eng ws s) (stream eng (concat ws) t)"
  using assms(2)
proof (induction ws arbitrary: s t)
  case (Cons w ws)
  show ?case
    using sim_result_case [OF ProcessString_stream [OF assms(1) Cons.prems, of w] Cons.IH]
    by (simp add: stream_append)
qed simp

end

end
