(* ===== verification/State_Machine_Text.thy ===== *)
theory State_Machine_Text
  imports State_Machine_Seq State_Machine_Stream
begin

text \<open>
  Written sequences as part of the character stream: from its escape character to the character in front of
  its last one, a control sequence keeps the parser out of the ground state, so that \<^verbatim>\<open>ProcessString\<close> feeds
  all of it to the state machine and prints nothing of it.
\<close>

fun stays :: "'e engine_ops \<Rightarrow> wstring \<Rightarrow> 'e state_machine \<Rightarrow> bool" where
  "stays eng [] s = True"
| "stays eng (c # cs) s =
     (case ProcessCharacter eng c s of Inl e \<Rightarrow> False | Inr t \<Rightarrow> sm_state t \<noteq> Ground \<and> stays eng cs t)"

lemma stays_append:
  "stays eng (xs @ ys) s \<longleftrightarrow>
     stays eng xs s \<and> (case process_chars eng xs s of Inl e \<Rightarrow> False | Inr t \<Rightarrow> stays eng ys t)"
proof (induction xs arbitrary: s)
  case (Cons x xs)
  then show ?case by (cases "ProcessCharacter eng x s") auto
qed simp

lemma stays_seq:
  "process_chars eng xs s = Inr t \<Longrightarrow> stays eng xs s \<Longrightarrow> stays eng ys t \<Longrightarrow> stays eng (xs @ ys) s"
  by (simp add: stays_append)

context parser_engine
begin

lemma stream_stays:
  assumes "stays eng xs s" "process_chars eng xs s = Inr t" "sm_processingIndividually s"
  shows "stream eng xs s = Inr t \<and> sm_processingIndividually t"
  using assms
proof (induction xs arbitrary: s)
  case (Cons x xs)
  obtain u where u: "ProcessCharacter eng x s = Inr u" "sm_state u \<noteq> Ground" "stays eng xs u"
    using Cons.prems(1) by (auto split: sum.splits)
  have p: "sm_processingIndividually u"
    using ProcessCharacter_frame [OF u(1)] Cons.prems(3) by (simp add: frame_def)
  have "s\<lparr>sm_processingIndividually := True\<rparr> = s" "u\<lparr>sm_processingIndividually := True\<rparr> = u"
    using p Cons.prems(3) by simp_all
  then have "stream_step eng x s = Inr u"
    unfolding stream_step_def using Cons.prems(3) u(1,2) by (simp only: simp_thms if_True sum.case)
  then show ?case using Cons.IH [OF u(3)] Cons.prems(2) u(1) p by simp
qed simp

text \<open>A whole sequence: an escape first, outside of the ground state until its last character.\<close>

lemma stream_sequence:
  assumes "stays eng xs (s\<lparr>sm_processingIndividually := True\<rparr>)"
    and "process_chars eng (xs @ [c]) (s\<lparr>sm_processingIndividually := True\<rparr>) = Inr u" and "sm_state u = Ground"
    and "xs \<noteq> []" "isActionableFromGround (hd xs)"
  shows "stream eng (xs @ [c]) s = Inr (u\<lparr>sm_processingIndividually := False\<rparr>)"
proof -
  let ?s = "s\<lparr>sm_processingIndividually := True\<rparr>"
  obtain t where t: "process_chars eng xs ?s = Inr t" "ProcessCharacter eng c t = Inr u"
    using assms(2) by (auto simp: process_chars_append split: sum.splits)
  have "stream eng xs ?s = Inr t" and p: "sm_processingIndividually t"
    using stream_stays [OF assms(1) t(1)] by simp_all
  then have xs: "stream eng xs s = Inr t"
    using stream_individually [OF assms(5), of eng "tl xs" s] assms(4) by simp
  have "t\<lparr>sm_processingIndividually := True\<rparr> = t" using p by simp
  then have "stream_step eng c t = Inr (u\<lparr>sm_processingIndividually := False\<rparr>)"
    unfolding stream_step_def using p t(2) assms(3) by (simp only: simp_thms if_True sum.case)
  then show ?thesis using xs by (simp add: stream_append)
qed

end

section \<open>Control sequences\<close>

definition csi_states :: "VTStates set" where
  "csi_states = {CsiEntry, CsiParam, CsiIntermediate, CsiIgnore}"

lemma csi_states_not_ground: "st \<in> csi_states \<Longrightarrow> st \<noteq> Ground"
  by (auto simp: csi_states_def)

lemma csi_char_stays:
  assumes "sm_state s \<in> csi_states" "0x20 \<le> unat c" "unat c < 0x40"
  shows "\<exists>t. ProcessCharacter eng c s = Inr t \<and> sm_state t \<in> csi_states"
proof -
  have c: "\<not> isC0Code c" "\<not> isDelete c" using assms(2,3) by (simp_all add: not_in_range)
  have cls: "isIntermediate c \<or> isCsiInvalid c \<or> isNumericParamValue c \<or> isParameterDelimiter c \<or> isCsiPrivateMarker c"
    "isIntermediate c \<or> isIntermediateInvalid c"
    "isNumericParamValue c \<or> isParameterDelimiter c \<or> isIntermediate c \<or> isParameterInvalid c"
    using assms(2,3) by (auto simp: char_class word_le_nat_alt word_unat_eq_iff)
  have "ProcessCharacter eng c s = dispatch_event eng c s" using assms by (intro plain_char) auto
  then show ?thesis
    using assms(1) c cls
    by (auto simp: csi_states_def dispatch_event_def EventCsiEntry_def EventCsiParam_def EventCsiIntermediate_def
        EventCsiIgnore_def EnterCsiIntermediate_def EnterCsiIgnore_def EnterCsiParam_def)
qed

lemma csi_chars_stay:
  assumes "sm_state s \<in> csi_states" "\<forall>c \<in> set cs. 0x20 \<le> unat c \<and> unat c < 0x40"
  shows "stays eng cs s"
  using assms
proof (induction cs arbitrary: s)
  case (Cons c cs)
  obtain t where "ProcessCharacter eng c s = Inr t" "sm_state t \<in> csi_states"
    using csi_char_stays [OF Cons.prems(1), of c eng] Cons.prems(2) by auto
  then show ?case using Cons csi_states_not_ground by auto
qed simp

definition csi_ok :: "wstring \<Rightarrow> nat list list \<Rightarrow> wstring \<Rightarrow> wchar \<Rightarrow> bool" where
  "csi_ok marker ps ims final \<longleftrightarrow>
     (case marker of [] \<Rightarrow> True | [m] \<Rightarrow> isCsiPrivateMarker m | _ \<Rightarrow> False) \<and>
     list_all (list_all (\<lambda>d. d < 10)) ps \<and> list_all isIntermediate ims \<and> final_char final"

lemma csi_ok_parts:
  assumes "csi_ok marker ps ims final"
  shows "marker = [] \<or> (\<exists>m. marker = [m] \<and> isCsiPrivateMarker m)" "\<forall>ds \<in> set ps. \<forall>d \<in> set ds. d < 10"
    "\<forall>c \<in> set ims. isIntermediate c" "final_char final"
  using assms by (auto simp: csi_ok_def list_all_iff split: list.splits)

lemma csi_body_range:
  assumes "csi_ok marker ps ims final"
  shows "\<forall>c \<in> set (marker @ param_text ps @ ims). 0x20 \<le> unat c \<and> unat c < 0x40"
proof -
  have "0x20 \<le> unat c \<and> unat c < 0x40" if "c \<in> set marker" for c
    using csi_ok_parts(1) [OF assms] that by (auto simp: char_class word_le_nat_alt)
  moreover have "0x20 \<le> unat c \<and> unat c < 0x40" if "c \<in> set (param_text ps)" for c
    using param_text_chars [OF csi_ok_parts(2) [OF assms]] that param_char_range [of c] by auto
  moreover have "0x20 \<le> unat c \<and> unat c < 0x40" if "c \<in> set ims" for c
    using csi_ok_parts(3) [OF assms] that by (auto simp: char_class word_le_nat_alt)
  ultimately show ?thesis by auto
qed

definition ready :: "'e state_machine \<Rightarrow> bool" where
  "ready s \<longleftrightarrow> sm_state s = Ground \<and> sm_isInAnsiMode s"

context parser_engine
begin

lemma esc_csi_stays:
  assumes "ready s"
  shows "stays eng [0x1B, 0x5B] s" "sm_state (EnterCsiEntry eng (EnterEscape eng s)) \<in> csi_states"
proof -
  have a: "sm_isInAnsiMode s" "sm_state s \<noteq> OscString" "sm_state s \<noteq> DcsPassThrough" using assms by (auto simp: ready_def)
  have e: "ProcessCharacter eng 0x1B s = Inr (EnterEscape eng s)" by (rule escape_char [OF a(2,3)])
  show c: "sm_state (EnterCsiEntry eng (EnterEscape eng s)) \<in> csi_states"
    by (simp add: EnterCsiEntry_def clear_fields csi_states_def)
  show "stays eng [0x1B, 0x5B] s"
    using esc_csi [OF a] e csi_states_not_ground [OF c] by (auto simp: EnterEscape_def clear_fields split: sum.splits)
qed

lemma stream_csi:
  assumes "ready s" "csi_ok marker ps ims final"
  shows "\<exists>t. stream eng (csi_text marker ps ims final) s =
      Inr ((EnterGround (snd (ActionCsiDispatch eng (Finalize final (builder_of (marker @ ims)))
        (parsed_params ps) t)))\<lparr>sm_processingIndividually := False\<rparr>)
    \<and> sm_engine t = sm_engine (EnterCsiEntry eng (EnterEscape eng (s\<lparr>sm_processingIndividually := True\<rparr>)))
    \<and> sm_isInAnsiMode t"
proof -
  let ?s = "s\<lparr>sm_processingIndividually := True\<rparr>"
  let ?xs = "[0x1B, 0x5B] @ marker @ param_text ps @ ims"
  have s: "ready ?s" "sm_isInAnsiMode ?s" "sm_state ?s \<noteq> OscString" "sm_state ?s \<noteq> DcsPassThrough"
    using assms(1) by (auto simp: ready_def)
  have whole: "csi_text marker ps ims final = ?xs @ [final]" by (simp add: csi_text_def)
  obtain t where t: "process_chars eng (?xs @ [final]) ?s =
      Inr (EnterGround (snd (ActionCsiDispatch eng (Finalize final (builder_of (marker @ ims))) (parsed_params ps) t)))"
    "sm_engine t = sm_engine (EnterCsiEntry eng (EnterEscape eng ?s))" "sm_isInAnsiMode t"
    using s(2) csi_sequence [OF s(2-4) csi_ok_parts [OF assms(2)]] whole by auto
  have "stays eng ?xs ?s"
    using stays_seq [OF esc_csi [OF s(2-4)] esc_csi_stays(1) [OF s(1)]
      csi_chars_stay [OF esc_csi_stays(2) [OF s(1)] csi_body_range [OF assms(2)]]] .
  then have "stream eng (?xs @ [final]) s = Inr ((EnterGround (snd (ActionCsiDispatch eng
      (Finalize final (builder_of (marker @ ims))) (parsed_params ps) t)))\<lparr>sm_processingIndividually := False\<rparr>)"
    by (rule stream_sequence [OF _ t(1)]) (simp_all add: EnterGround_def char_class)
  then show ?thesis using t(2,3) whole by auto
qed

end

section \<open>Operating system commands in the stream\<close>

lemma osc_digits_stay:
  assumes "\<forall>d \<in> set ds. d < 10" "sm_state s = OscParam"
  shows "stays eng (map digit_char ds) s"
  using assms
proof (induction ds arbitrary: s)
  case (Cons d ds)
  then have d: "d < 10" by simp
  then have r: "unat (digit_char d) = 0x30 + d" by (rule unat_digit_char)
  then have "\<not> isOscTerminator (digit_char d)" by (auto simp: isOscTerminator_def)
  then have "ProcessCharacter eng (digit_char d) s = Inr (sm_ActionOscParam (digit_char d) s)"
    using r d Cons.prems digit_classes [OF d] by (simp add: plain_char dispatch_event_def EventOscParam_def)
  then show ?case using Cons by (simp add: sm_ActionOscParam_def)
qed simp

lemma osc_string_stays:
  assumes "\<forall>c \<in> set cs. osc_char c" "sm_state s = OscString"
  shows "stays eng cs s"
  using assms by (induction cs arbitrary: s) (simp_all add: osc_string_char)

definition osc_ok :: "nat list \<Rightarrow> wstring \<Rightarrow> wstring \<Rightarrow> bool" where
  "osc_ok ds str ts \<longleftrightarrow> list_all (\<lambda>d. d < 10) ds \<and> list_all osc_char str \<and> osc_terminator ts"

context parser_engine
begin

lemma osc_body_stays:
  assumes "ready s" "osc_ok ds str ts"
  shows "stays eng ([0x1B, 0x5D] @ map digit_char ds @ [0x3B] @ str @ butlast ts) s"
proof -
  have a: "sm_isInAnsiMode s" "sm_state s \<noteq> OscString" "sm_state s \<noteq> DcsPassThrough"
    using assms(1) by (auto simp: ready_def)
  have ds: "\<forall>d \<in> set ds. d < 10" and str: "\<forall>c \<in> set str. osc_char c" and ts: "osc_terminator ts"
    using assms(2) by (simp_all add: osc_ok_def list_all_iff)
  let ?t0 = "(EnterEscape eng s)\<lparr>sm_state := OscParam\<rparr>"
  have p0: "process_chars eng [0x1B, 0x5D] s = Inr ?t0" by (rule esc_osc [OF a])
  have e: "ProcessCharacter eng 0x1B s = Inr (EnterEscape eng s)" by (rule escape_char [OF a(2,3)])
  have s0: "stays eng [0x1B, 0x5D] s"
    using p0 e by (auto simp: EnterEscape_def clear_fields split: sum.splits)
  have "sm_oscParameter ?t0 = of_nat 0" by (simp add: EnterEscape_def clear_fields)
  then obtain n where p1: "process_chars eng (map digit_char ds) ?t0 = Inr (?t0\<lparr>sm_oscParameter := n\<rparr>)"
    using osc_digits [OF ds, of ?t0 0] by auto
  have s1: "stays eng (map digit_char ds) ?t0" by (rule osc_digits_stay [OF ds]) simp
  let ?t1 = "?t0\<lparr>sm_oscParameter := n, sm_state := OscString\<rparr>"
  have p2: "process_chars eng [0x3B] (?t0\<lparr>sm_oscParameter := n\<rparr>) = Inr ?t1"
    and s2: "stays eng [0x3B] (?t0\<lparr>sm_oscParameter := n\<rparr>)"
    by (simp_all add: plain_char dispatch_event_def EventOscParam_def char_class EnterOscString_def)
  have p3: "process_chars eng str ?t1 = Inr (?t1\<lparr>sm_oscString := sm_oscString ?t1 @ str\<rparr>)"
    by (rule osc_string_chars [OF str]) simp
  have s3: "stays eng str ?t1" by (rule osc_string_stays [OF str]) simp
  have s4: "stays eng (butlast ts) (?t1\<lparr>sm_oscString := sm_oscString ?t1 @ str\<rparr>)"
    using ts by (auto simp: osc_terminator_def osc_escape)
  show ?thesis
    by (intro stays_seq [OF p0 s0] stays_seq [OF p1 s1] stays_seq [OF p2 s2] stays_seq [OF p3 s3] s4)
qed

lemma stream_osc:
  assumes "ready s" "osc_ok ds str ts"
  shows "\<exists>c t. stream eng (osc_text ds str ts) s =
      Inr ((EnterGround (snd (ActionOscDispatch eng c (of_nat (min 32767 (decimal ds))) str t)))
        \<lparr>sm_processingIndividually := False\<rparr>)
    \<and> sm_engine t = sm_engine (EnterEscape eng (s\<lparr>sm_processingIndividually := True\<rparr>)) \<and> sm_isInAnsiMode t"
proof -
  let ?s = "s\<lparr>sm_processingIndividually := True\<rparr>"
  let ?xs = "[0x1B, 0x5D] @ map digit_char ds @ [0x3B] @ str @ butlast ts"
  have s: "ready ?s" "sm_isInAnsiMode ?s" "sm_state ?s \<noteq> OscString" "sm_state ?s \<noteq> DcsPassThrough"
    using assms(1) by (auto simp: ready_def)
  have parts: "\<forall>d \<in> set ds. d < 10" "\<forall>c \<in> set str. osc_char c" "osc_terminator ts"
    using assms(2) by (simp_all add: osc_ok_def list_all_iff)
  have whole: "osc_text ds str ts = ?xs @ [last ts]"
    using parts(3) by (auto simp: osc_text_def osc_terminator_def)
  obtain c t where t: "process_chars eng (?xs @ [last ts]) ?s =
      Inr (EnterGround (snd (ActionOscDispatch eng c (of_nat (min 32767 (decimal ds))) str t)))"
    "sm_engine t = sm_engine (EnterEscape eng ?s)" "sm_isInAnsiMode t"
    using s(2) osc_sequence [OF s(2-4) parts] whole by auto
  have "stream eng (?xs @ [last ts]) s = Inr ((EnterGround (snd (ActionOscDispatch eng c
      (of_nat (min 32767 (decimal ds))) str t)))\<lparr>sm_processingIndividually := False\<rparr>)"
    by (rule stream_sequence [OF osc_body_stays [OF s(1) assms(2)] t(1)])
      (simp_all add: EnterGround_def char_class)
  then show ?thesis using t(2,3) whole by auto
qed

end

end
