(* ===== verification/Term_Dispatch.thy ===== *)
theory Term_Dispatch
  imports Vt_Types Color_Tables
begin

text \<open>
  The dispatch interface \<^verbatim>\<open>ITermDispatch\<close> (\<^verbatim>\<open>terminal/adapter/ITermDispatch.hpp\<close>) as the type of the calls an
  output engine makes, and the environment the engine runs in. The dispatcher is a parameter of the model:
  a function from a call, the parser's current ANSI mode and the dispatcher's state to the call's result,
  the mode afterwards and the new state. The terminal connection's \<^verbatim>\<open>WriteTerminalW\<close> and the UTF-8
  conversion are parameters as well.
\<close>

section \<open>The dispatch interface\<close>

datatype LineFeedType = WithReturn | WithoutReturn | DependsOnMode

datatype LineRendition = SingleWidth | DoubleWidth | DoubleHeightTop | DoubleHeightBottom

text \<open>The calls the engine makes. Enumeration arguments are carried as the integers they are cast from.\<close>

datatype (plugins only: code) dispatch_call =
    Print wchar
  | PrintString wstring
  | CursorUp size_t
  | CursorDown size_t
  | CursorForward size_t
  | CursorBackward size_t
  | CursorNextLine size_t
  | CursorPrevLine size_t
  | CursorHorizontalPositionAbsolute size_t
  | VerticalLinePositionAbsolute size_t
  | HorizontalPositionRelative size_t
  | VerticalPositionRelative size_t
  | CursorPosition size_t size_t
  | CursorSaveState
  | CursorRestoreState
  | InsertCharacter size_t
  | DeleteCharacter size_t
  | ScrollUp size_t
  | ScrollDown size_t
  | InsertLine size_t
  | DeleteLine size_t
  | SetKeypadMode bool
  | SetTopBottomScrollingMargins size_t size_t
  | WarningBell
  | CarriageReturn
  | LineFeed LineFeedType
  | ReverseLineFeed
  | SetWindowTitle wstring
  | HorizontalTabSet
  | ForwardTab size_t
  | BackwardsTab size_t
  | TabClear size_t
  | SetColorTableEntry size_t COLORREF
  | SetDefaultForeground COLORREF
  | SetDefaultBackground COLORREF
  | EraseInDisplay size_t
  | EraseInLine size_t
  | EraseCharacters size_t
  | SetGraphicsRendition VTParameters
  | SetLineRendition LineRendition
  | PushGraphicsRendition VTParameters
  | PopGraphicsRendition
  | SetMode size_t
  | ResetMode size_t
  | DeviceStatusReport size_t
  | DeviceAttributes
  | SecondaryDeviceAttributes
  | TertiaryDeviceAttributes
  | Vt52DeviceAttributes
  | RequestTerminalParameters size_t
  | DesignateCodingSystem VTID
  | Designate94Charset size_t VTID
  | Designate96Charset size_t VTID
  | LockingShift size_t
  | LockingShiftRight size_t
  | SingleShift size_t
  | SoftReset
  | HardReset
  | ScreenAlignmentPattern
  | SetCursorStyle size_t
  | SetCursorColor COLORREF
  | SetClipboard wstring
  | WindowManipulation size_t VTParameter VTParameter
  | AddHyperlink wstring wstring
  | EndHyperlink
  | DoConEmuAction wstring

record ('d, 't) oe_env =
  dispatch :: "dispatch_call \<Rightarrow> bool \<Rightarrow> 'd \<Rightarrow> bool \<times> bool \<times> 'd"
  WriteTerminalW :: "wstring \<Rightarrow> 't \<Rightarrow> bool \<times> 't"
  u8u16 :: "8 word list \<Rightarrow> wstring option"

end
