(* ===== verification/Output_Engine.thy ===== *)
theory Output_Engine
  imports State_Machine_Text Colors Base64 Term_Dispatch
begin

text \<open>
  \<^verbatim>\<open>OutputStateMachineEngine\<close> (\<^verbatim>\<open>terminal/parser/OutputStateMachineEngine.cpp\<close>): the engine that turns
  parsed sequences into calls of the terminal dispatch interface, and the proof that it meets the parser's
  contract for every dispatcher.
\<close>

unbundle bit_operations_syntax

section \<open>The engine\<close>

text \<open>\<open>oe_flush\<close>: the callback \<^verbatim>\<open>_pfnFlushToTerminal\<close> is set, to the parser's \<^verbatim>\<open>FlushToTerminal\<close>.\<close>

record ('d, 't) output_engine =
  oe_dispatch :: 'd
  oe_ttyConnection :: "'t option"
  oe_flush :: bool
  oe_lastPrintedChar :: wchar

type_synonym ('d, 't) oe_machine = "('d, 't) output_engine state_machine"
type_synonym ('d, 't) oe_action = "('d, 't) oe_machine \<Rightarrow> bool \<times> ('d, 't) oe_machine"

definition OutputStateMachineEngine :: "'d \<Rightarrow> ('d, 't) output_engine" where
  "OutputStateMachineEngine pDispatch =
     \<lparr>oe_dispatch = pDispatch, oe_ttyConnection = None, oe_flush = False, oe_lastPrintedChar = 0\<rparr>"

definition SetTerminalConnection :: "'t option \<Rightarrow> bool \<Rightarrow> ('d, 't) output_engine \<Rightarrow> ('d, 't) output_engine" where
  "SetTerminalConnection pTtyConnection flush e =
     e\<lparr>oe_ttyConnection := pTtyConnection, oe_flush := flush\<rparr>"

definition do_call :: "('d, 't) oe_env \<Rightarrow> dispatch_call \<Rightarrow> ('d, 't) oe_action" where
  "do_call env c s =
     (case dispatch env c (sm_isInAnsiMode s) (oe_dispatch (sm_engine s)) of
        (result, mode, d) \<Rightarrow>
          (result, s\<lparr>sm_engine := (sm_engine s)\<lparr>oe_dispatch := d\<rparr>, sm_isInAnsiMode := mode\<rparr>))"

definition set_lastPrintedChar :: "wchar \<Rightarrow> ('d, 't) oe_machine \<Rightarrow> ('d, 't) oe_machine" where
  "set_lastPrintedChar wch s = s\<lparr>sm_engine := (sm_engine s)\<lparr>oe_lastPrintedChar := wch\<rparr>\<rparr>"

definition ClearLastChar :: "('d, 't) oe_machine \<Rightarrow> ('d, 't) oe_machine" where
  "ClearLastChar s = set_lastPrintedChar 0 s"

definition oe_ActionPassThroughString :: "('d, 't) oe_env \<Rightarrow> wstring \<Rightarrow> ('d, 't) oe_action" where
  "oe_ActionPassThroughString env str s =
     (case oe_ttyConnection (sm_engine s) of
        None \<Rightarrow> (True, s)
      | Some tty \<Rightarrow>
          (case WriteTerminalW env str tty of
             (success, tty) \<Rightarrow> (success, s\<lparr>sm_engine := (sm_engine s)\<lparr>oe_ttyConnection := Some tty\<rparr>\<rparr>)))"

definition oe_FlushToTerminal :: "('d, 't) oe_env \<Rightarrow> ('d, 't) oe_action" where
  "oe_FlushToTerminal env s = FlushToTerminal (oe_ActionPassThroughString env) s"

text \<open>The common end of the dispatch actions.\<close>

definition flush_and_clear :: "('d, 't) oe_env \<Rightarrow> bool \<times> ('d, 't) oe_machine \<Rightarrow> bool \<times> ('d, 't) oe_machine" where
  "flush_and_clear env r =
     (case r of (success, s) \<Rightarrow>
        (case (if oe_flush (sm_engine s) \<and> \<not> success then oe_FlushToTerminal env s else (success, s)) of
           (success, s) \<Rightarrow> (success, ClearLastChar s)))"

definition oe_ActionExecute :: "('d, 't) oe_env \<Rightarrow> wchar \<Rightarrow> ('d, 't) oe_action" where
  "oe_ActionExecute env wch s =
     (let s = (if wch = 0x00 then s
               else if wch = 0x07 then
                 (let s = snd (do_call env WarningBell s)
                  in if oe_flush (sm_engine s) then snd (oe_FlushToTerminal env s) else s)
               else if wch = 0x08 then snd (do_call env (CursorBackward 1) s)
               else if wch = 0x09 then snd (do_call env (ForwardTab 1) s)
               else if wch = 0x0D then snd (do_call env CarriageReturn s)
               else if wch = 0x0A \<or> wch = 0x0C \<or> wch = 0x0B then snd (do_call env (LineFeed DependsOnMode) s)
               else if wch = 0x0F then snd (do_call env (LockingShift 0) s)
               else if wch = 0x0E then snd (do_call env (LockingShift 1) s)
               else snd (do_call env (Print wch) s))
      in (True, ClearLastChar s))"

definition oe_ActionExecuteFromEscape :: "('d, 't) oe_env \<Rightarrow> wchar \<Rightarrow> ('d, 't) oe_action" where
  "oe_ActionExecuteFromEscape env wch s = oe_ActionExecute env wch s"

definition oe_ActionPrint :: "('d, 't) oe_env \<Rightarrow> wchar \<Rightarrow> ('d, 't) oe_action" where
  "oe_ActionPrint env wch s =
     (let s = (if wch \<ge> 0x20 then set_lastPrintedChar wch s else s)
      in (True, snd (do_call env (Print wch) s)))"

definition oe_ActionPrintString :: "('d, 't) oe_env \<Rightarrow> wstring \<Rightarrow> ('d, 't) oe_action" where
  "oe_ActionPrintString env str s =
     (if str = [] then (True, s)
      else let wch = last str;
               s = (if wch \<ge> 0x20 then set_lastPrintedChar wch s else s)
           in (True, snd (do_call env (PrintString str) s)))"

definition esc_switch :: "('d, 't) oe_env \<Rightarrow> VTID \<Rightarrow> ('d, 't) oe_action" where
  "esc_switch env vtid s =
     (if vtid = vtid_from_string [CHR 0x5C] then (True, s)
      else if vtid = vtid_from_string ''7'' then do_call env CursorSaveState s
      else if vtid = vtid_from_string ''8'' then do_call env CursorRestoreState s
      else if vtid = vtid_from_string ''='' then do_call env (SetKeypadMode True) s
      else if vtid = vtid_from_string ''>'' then do_call env (SetKeypadMode False) s
      else if vtid = vtid_from_string ''E'' then do_call env (LineFeed WithReturn) s
      else if vtid = vtid_from_string ''D'' then do_call env (LineFeed WithoutReturn) s
      else if vtid = vtid_from_string ''M'' then do_call env ReverseLineFeed s
      else if vtid = vtid_from_string ''H'' then do_call env HorizontalTabSet s
      else if vtid = vtid_from_string ''Z'' then do_call env DeviceAttributes s
      else if vtid = vtid_from_string ''c'' then do_call env HardReset s
      else if vtid = vtid_from_string ''N'' then do_call env (SingleShift 2) s
      else if vtid = vtid_from_string ''O'' then do_call env (SingleShift 3) s
      else if vtid = vtid_from_string ''n'' then do_call env (LockingShift 2) s
      else if vtid = vtid_from_string ''o'' then do_call env (LockingShift 3) s
      else if vtid = vtid_from_string ''~'' then do_call env (LockingShiftRight 1) s
      else if vtid = vtid_from_string ''}'' then do_call env (LockingShiftRight 2) s
      else if vtid = vtid_from_string ''|'' then do_call env (LockingShiftRight 3) s
      else if vtid = vtid_from_string ''#3'' then (False, snd (do_call env (SetLineRendition DoubleHeightTop) s))
      else if vtid = vtid_from_string ''#4'' then (False, snd (do_call env (SetLineRendition DoubleHeightBottom) s))
      else if vtid = vtid_from_string ''#5'' then (False, snd (do_call env (SetLineRendition SingleWidth) s))
      else if vtid = vtid_from_string ''#6'' then (False, snd (do_call env (SetLineRendition DoubleWidth) s))
      else if vtid = vtid_from_string ''#8'' then do_call env ScreenAlignmentPattern s
      else
        (let commandChar = vtid_at vtid 0;
             commandParameter = vtid_SubSequence vtid 1
         in if commandChar = 0x25 then do_call env (DesignateCodingSystem commandParameter) s
            else if commandChar = 0x28 then do_call env (Designate94Charset 0 commandParameter) s
            else if commandChar = 0x29 then do_call env (Designate94Charset 1 commandParameter) s
            else if commandChar = 0x2A then do_call env (Designate94Charset 2 commandParameter) s
            else if commandChar = 0x2B then do_call env (Designate94Charset 3 commandParameter) s
            else if commandChar = 0x2D then do_call env (Designate96Charset 1 commandParameter) s
            else if commandChar = 0x2E then do_call env (Designate96Charset 2 commandParameter) s
            else if commandChar = 0x2F then do_call env (Designate96Charset 3 commandParameter) s
            else (False, s)))"

definition oe_ActionEscDispatch :: "('d, 't) oe_env \<Rightarrow> VTID \<Rightarrow> ('d, 't) oe_action" where
  "oe_ActionEscDispatch env vtid s = flush_and_clear env (esc_switch env vtid s)"

text \<open>\<^verbatim>\<open>VTParameter::value()\<close>, and a VT52 coordinate: unsigned arithmetic, an omitted value wraps.\<close>

definition vtp_value :: "VTParameter \<Rightarrow> size_t" where
  "vtp_value p = word_of_int (param_value p)"

definition vt52_switch :: "('d, 't) oe_env \<Rightarrow> VTID \<Rightarrow> VTParameters \<Rightarrow> ('d, 't) oe_action" where
  "vt52_switch env vtid parameters s =
     (if vtid = vtid_from_string ''A'' then do_call env (CursorUp 1) s
      else if vtid = vtid_from_string ''B'' then do_call env (CursorDown 1) s
      else if vtid = vtid_from_string ''C'' then do_call env (CursorForward 1) s
      else if vtid = vtid_from_string ''D'' then do_call env (CursorBackward 1) s
      else if vtid = vtid_from_string ''F'' then do_call env (Designate94Charset 0 (vtid_from_string ''0'')) s
      else if vtid = vtid_from_string ''G'' then do_call env (Designate94Charset 0 (vtid_from_string ''B'')) s
      else if vtid = vtid_from_string ''H'' then do_call env (CursorPosition 1 1) s
      else if vtid = vtid_from_string ''I'' then do_call env ReverseLineFeed s
      else if vtid = vtid_from_string ''J'' then do_call env (EraseInDisplay 0) s
      else if vtid = vtid_from_string ''K'' then do_call env (EraseInLine 0) s
      else if vtid = vtid_from_string ''Y'' then
        do_call env (CursorPosition (vtp_value (vtps_at parameters 0) - 0x20 + 1)
                                    (vtp_value (vtps_at parameters 1) - 0x20 + 1)) s
      else if vtid = vtid_from_string ''Z'' then do_call env Vt52DeviceAttributes s
      else if vtid = vtid_from_string ''='' then do_call env (SetKeypadMode True) s
      else if vtid = vtid_from_string ''>'' then do_call env (SetKeypadMode False) s
      else if vtid = vtid_from_string ''<'' then do_call env (SetMode (2 OR 0x01000000)) s
      else (False, s))"

definition oe_ActionVt52EscDispatch :: "('d, 't) oe_env \<Rightarrow> VTID \<Rightarrow> VTParameters \<Rightarrow> ('d, 't) oe_action" where
  "oe_ActionVt52EscDispatch env vtid parameters s =
     (case vt52_switch env vtid parameters s of (success, s) \<Rightarrow> (success, ClearLastChar s))"

definition DECPrivateMode :: "size_t \<Rightarrow> size_t" where
  "DECPrivateMode mode = mode OR 0x01000000"

definition csi_switch :: "('d, 't) oe_env \<Rightarrow> VTID \<Rightarrow> VTParameters \<Rightarrow> ('d, 't) oe_action" where
  "csi_switch env vtid parameters s =
     (let p0 = vtp_num (vtps_at parameters 0) in
      if vtid = vtid_from_string ''A'' then do_call env (CursorUp p0) s
      else if vtid = vtid_from_string ''B'' then do_call env (CursorDown p0) s
      else if vtid = vtid_from_string ''C'' then do_call env (CursorForward p0) s
      else if vtid = vtid_from_string ''D'' then do_call env (CursorBackward p0) s
      else if vtid = vtid_from_string ''E'' then do_call env (CursorNextLine p0) s
      else if vtid = vtid_from_string ''F'' then do_call env (CursorPrevLine p0) s
      else if vtid = vtid_from_string ''G'' \<or> vtid = vtid_from_string [CHR 0x60]
      then do_call env (CursorHorizontalPositionAbsolute p0) s
      else if vtid = vtid_from_string ''d'' then do_call env (VerticalLinePositionAbsolute p0) s
      else if vtid = vtid_from_string ''a'' then do_call env (HorizontalPositionRelative p0) s
      else if vtid = vtid_from_string ''e'' then do_call env (VerticalPositionRelative p0) s
      else if vtid = vtid_from_string ''H'' \<or> vtid = vtid_from_string ''f''
      then do_call env (CursorPosition p0 (vtp_num (vtps_at parameters 1))) s
      else if vtid = vtid_from_string ''r''
      then do_call env (SetTopBottomScrollingMargins (value_or (vtps_at parameters 0) 0) (value_or (vtps_at parameters 1) 0)) s
      else if vtid = vtid_from_string ''@'' then do_call env (InsertCharacter p0) s
      else if vtid = vtid_from_string ''P'' then do_call env (DeleteCharacter p0) s
      else if vtid = vtid_from_string ''J''
      then vtps_for_each (\<lambda>eraseType. do_call env (EraseInDisplay (vtp_enum eraseType))) parameters s
      else if vtid = vtid_from_string ''K''
      then vtps_for_each (\<lambda>eraseType. do_call env (EraseInLine (vtp_enum eraseType))) parameters s
      else if vtid = vtid_from_string ''?h''
      then vtps_for_each (\<lambda>mode. do_call env (SetMode (DECPrivateMode (vtp_num mode)))) parameters s
      else if vtid = vtid_from_string ''?l''
      then vtps_for_each (\<lambda>mode. do_call env (ResetMode (DECPrivateMode (vtp_num mode)))) parameters s
      else if vtid = vtid_from_string ''m'' then do_call env (SetGraphicsRendition parameters) s
      else if vtid = vtid_from_string ''n'' then do_call env (DeviceStatusReport (vtp_enum (vtps_at parameters 0))) s
      else if vtid = vtid_from_string ''c''
      then (if value_or (vtps_at parameters 0) 0 = 0 then do_call env DeviceAttributes s else (False, s))
      else if vtid = vtid_from_string ''>c''
      then (if value_or (vtps_at parameters 0) 0 = 0 then do_call env SecondaryDeviceAttributes s else (False, s))
      else if vtid = vtid_from_string ''=c''
      then (if value_or (vtps_at parameters 0) 0 = 0 then do_call env TertiaryDeviceAttributes s else (False, s))
      else if vtid = vtid_from_string ''x''
      then do_call env (RequestTerminalParameters (vtp_enum (vtps_at parameters 0))) s
      else if vtid = vtid_from_string ''S'' then do_call env (ScrollUp p0) s
      else if vtid = vtid_from_string ''T'' then do_call env (ScrollDown p0) s
      else if vtid = vtid_from_string ''s''
      then (if parameters = [] then do_call env CursorSaveState s else (False, s))
      else if vtid = vtid_from_string ''u''
      then (if parameters = [] then do_call env CursorRestoreState s else (False, s))
      else if vtid = vtid_from_string ''L'' then do_call env (InsertLine p0) s
      else if vtid = vtid_from_string ''M'' then do_call env (DeleteLine p0) s
      else if vtid = vtid_from_string ''I'' then do_call env (ForwardTab p0) s
      else if vtid = vtid_from_string ''Z'' then do_call env (BackwardsTab p0) s
      else if vtid = vtid_from_string ''g''
      then vtps_for_each (\<lambda>clearType. do_call env (TabClear (vtp_enum clearType))) parameters s
      else if vtid = vtid_from_string ''X'' then do_call env (EraseCharacters p0) s
      else if vtid = vtid_from_string ''t''
      then do_call env (WindowManipulation (vtp_enum (vtps_at parameters 0)) (vtps_at parameters 1) (vtps_at parameters 2)) s
      else if vtid = vtid_from_string ''b'' then
        (let lastPrintedChar = oe_lastPrintedChar (sm_engine s);
             s = (if lastPrintedChar \<noteq> 0
                  then snd (do_call env (PrintString (replicate (unat p0) lastPrintedChar)) s) else s)
         in (True, s))
      else if vtid = vtid_from_string '' q'' then do_call env (SetCursorStyle (vtp_enum (vtps_at parameters 0))) s
      else if vtid = vtid_from_string ''!p'' then do_call env SoftReset s
      else if vtid = vtid_from_string ''#{'' \<or> vtid = vtid_from_string ''#p''
      then do_call env (PushGraphicsRendition parameters) s
      else if vtid = vtid_from_string ''#}'' \<or> vtid = vtid_from_string ''#q''
      then do_call env PopGraphicsRendition s
      else (False, s))"

definition oe_ActionCsiDispatch :: "('d, 't) oe_env \<Rightarrow> VTID \<Rightarrow> VTParameters \<Rightarrow> ('d, 't) oe_action" where
  "oe_ActionCsiDispatch env vtid parameters s = flush_and_clear env (csi_switch env vtid parameters s)"

definition oe_ActionDcsDispatch ::
  "VTID \<Rightarrow> VTParameters \<Rightarrow> ('d, 't) oe_machine \<Rightarrow>
   ('d, 't) output_engine string_handler option \<times> ('d, 't) oe_machine" where
  "oe_ActionDcsDispatch vtid parameters s = (None, ClearLastChar s)"

definition oe_ActionClear :: "('d, 't) oe_action" where
  "oe_ActionClear s = (True, s)"

definition oe_ActionIgnore :: "('d, 't) oe_action" where
  "oe_ActionIgnore s = (True, s)"

section \<open>Operating system commands\<close>

definition INVALID_COLOR :: COLORREF where
  "INVALID_COLOR = 0xffffffff"

definition GetOscTitle :: "wstring \<Rightarrow> bool \<times> wstring" where
  "GetOscTitle str = (str \<noteq> [], str)"

fun color_pairs :: "wstring list \<Rightarrow> (size_t \<times> COLORREF) list" where
  "color_pairs (idx # spec # parts) =
     (case (StringToUint idx, ColorFromXTermColor spec) of
        (Some tableIndex, Some color) \<Rightarrow> [(ucast tableIndex, COLORREF_of_color color)]
      | _ \<Rightarrow> []) @ color_pairs parts"
| "color_pairs _ = []"

definition GetOscSetColorTable :: "wstring \<Rightarrow> bool \<times> (size_t \<times> COLORREF) list" where
  "GetOscSetColorTable str =
     (let parts = SplitString str 0x3B in
      if length parts < 2 then (False, [])
      else let pairs = color_pairs parts in (pairs \<noteq> [], pairs))"

definition GetOscSetColor :: "wstring \<Rightarrow> bool \<times> COLORREF list" where
  "GetOscSetColor str =
     (let parts = SplitString str 0x3B in
      if length parts < 1 then (False, [])
      else let rgbs = map (\<lambda>part. case ColorFromXTermColor part of
                                    Some color \<Rightarrow> COLORREF_of_color color | None \<Rightarrow> INVALID_COLOR) parts
           in (rgbs \<noteq> [], rgbs))"

text \<open>The result, the decoded content and the query flag.\<close>

definition GetOscSetClipboard :: "('d, 't) oe_env \<Rightarrow> wstring \<Rightarrow> bool \<times> wstring \<times> bool" where
  "GetOscSetClipboard env str =
     (case wstr_find 0x3B str 0 of
        Some pos \<Rightarrow>
          (let substr = drop (pos + 1) str in
           if substr = wide ''?'' then (True, [], True)
           else (case s_Decode (u8u16 env) substr of
                   Some content \<Rightarrow> (True, content, False)
                 | None \<Rightarrow> (False, [], False)))
      | None \<Rightarrow> (False, [], False))"

text \<open>\<^verbatim>\<open>std::wstring_view::find\<close> of a string.\<close>

fun wstr_find_str :: "wstring \<Rightarrow> wstring \<Rightarrow> nat option" where
  "wstr_find_str pat [] = (if pat = [] then Some 0 else None)"
| "wstr_find_str pat (c # cs) =
     (if take (length pat) (c # cs) = pat then Some 0 else map_option Suc (wstr_find_str pat cs))"

definition hyperlinkIDParameter :: wstring where
  "hyperlinkIDParameter = wide ''id=''"

fun hyperlink_params :: "wstring list \<Rightarrow> wstring \<Rightarrow> wstring" where
  "hyperlink_params [] params = params"
| "hyperlink_params (part # parts) params =
     (case wstr_find_str hyperlinkIDParameter part of
        Some idPos \<Rightarrow> hyperlink_params parts (drop (idPos + length hyperlinkIDParameter) part)
      | None \<Rightarrow> hyperlink_params parts params)"

text \<open>The result, the parameters and the URI.\<close>

definition ParseHyperlink :: "wstring \<Rightarrow> bool \<times> wstring \<times> wstring" where
  "ParseHyperlink str =
     (if str = wide '';'' then (True, [], [])
      else (case wstr_find 0x3B str 0 of
              Some midPos \<Rightarrow>
                (True, hyperlink_params (SplitString (take midPos str) 0x3A) [], drop (midPos + 1) str)
            | None \<Rightarrow> (False, [], [])))"

fun set_color_entries :: "('d, 't) oe_env \<Rightarrow> (size_t \<times> COLORREF) list \<Rightarrow> bool \<times> ('d, 't) oe_machine \<Rightarrow> bool \<times> ('d, 't) oe_machine" where
  "set_color_entries env [] r = r"
| "set_color_entries env ((tableIndex, rgb) # entries) (success, s) =
     set_color_entries env entries
       (if success then do_call env (SetColorTableEntry tableIndex rgb) s else (success, s))"

text \<open>
  One of the three steps for the foreground, background and cursor colour: the step applies when the
  command index has reached its code and a colour is left.
\<close>

definition osc_color_step ::
  "('d, 't) oe_env \<Rightarrow> nat \<Rightarrow> (COLORREF \<Rightarrow> dispatch_call) \<Rightarrow> COLORREF list
   \<Rightarrow> nat \<times> nat \<times> bool \<times> ('d, 't) oe_machine \<Rightarrow> nat \<times> nat \<times> bool \<times> ('d, 't) oe_machine" where
  "osc_color_step env code mk colors r =
     (case r of (commandIndex, colorIndex, success, s) \<Rightarrow>
        if commandIndex = code \<and> length colors > colorIndex then
          (let color = colors ! colorIndex;
               (success, s) = (if color \<noteq> INVALID_COLOR \<and> success then do_call env (mk color) s else (success, s))
           in (commandIndex + 1, colorIndex + 1, success, s))
        else r)"

definition osc_switch :: "('d, 't) oe_env \<Rightarrow> size_t \<Rightarrow> wstring \<Rightarrow> ('d, 't) oe_action" where
  "osc_switch env parameter str s =
     (if parameter = 0 \<or> parameter = 1 \<or> parameter = 2 then
        (case GetOscTitle str of
           (success, title) \<Rightarrow> if success then do_call env (SetWindowTitle title) s else (False, s))
      else if parameter = 4 then
        (case GetOscSetColorTable str of
           (success, entries) \<Rightarrow> set_color_entries env entries (success, s))
      else if parameter = 10 \<or> parameter = 11 \<or> parameter = 12 then
        (case GetOscSetColor str of
           (success, colors) \<Rightarrow>
             if success then
               (case osc_color_step env 12 SetCursorColor colors
                       (osc_color_step env 11 SetDefaultBackground colors
                         (osc_color_step env 10 SetDefaultForeground colors
                           (unat parameter, 0, success, s))) of
                  (_, _, success, s) \<Rightarrow> (success, s))
             else (success, s))
      else if parameter = 52 then
        (case GetOscSetClipboard env str of
           (success, content, queryClipboard) \<Rightarrow>
             if success \<and> \<not> queryClipboard then do_call env (SetClipboard content) s else (success, s))
      else if parameter = 112 then do_call env (SetCursorColor INVALID_COLOR) s
      else if parameter = 8 then
        (case ParseHyperlink str of
           (success, params, uri) \<Rightarrow>
             if uri = [] then (if success then do_call env EndHyperlink s else (success, s))
             else (if success then do_call env (AddHyperlink uri params) s else (success, s)))
      else if parameter = 9 then do_call env (DoConEmuAction str) s
      else (False, s))"

definition oe_ActionOscDispatch :: "('d, 't) oe_env \<Rightarrow> wchar \<Rightarrow> size_t \<Rightarrow> wstring \<Rightarrow> ('d, 't) oe_action" where
  "oe_ActionOscDispatch env wch parameter str s = flush_and_clear env (osc_switch env parameter str s)"

definition oe_ActionSs3Dispatch :: "wchar \<Rightarrow> VTParameters \<Rightarrow> ('d, 't) oe_action" where
  "oe_ActionSs3Dispatch wch parameters s = (False, ClearLastChar s)"

section \<open>The engine as the parser sees it\<close>

definition output_engine_ops :: "('d, 't) oe_env \<Rightarrow> ('d, 't) output_engine engine_ops" where
  "output_engine_ops env =
     \<lparr>ActionExecute = oe_ActionExecute env,
      ActionExecuteFromEscape = oe_ActionExecuteFromEscape env,
      ActionPrint = oe_ActionPrint env,
      ActionPrintString = oe_ActionPrintString env,
      ActionPassThroughString = oe_ActionPassThroughString env,
      ActionEscDispatch = oe_ActionEscDispatch env,
      ActionVt52EscDispatch = oe_ActionVt52EscDispatch env,
      ActionCsiDispatch = oe_ActionCsiDispatch env,
      ActionDcsDispatch = oe_ActionDcsDispatch,
      ActionClear = oe_ActionClear,
      ActionIgnore = oe_ActionIgnore,
      ActionOscDispatch = oe_ActionOscDispatch env,
      ActionSs3Dispatch = oe_ActionSs3Dispatch,
      ParseControlSequenceAfterSs3 = (\<lambda>_. False),
      FlushAtEndOfString = (\<lambda>_. False),
      DispatchControlCharsFromEscape = (\<lambda>_. False),
      DispatchIntermediatesFromEscape = (\<lambda>_. False)\<rparr>"

section \<open>The engine meets the parser's contract\<close>

definition keeps :: "bool \<times> 'e state_machine \<Rightarrow> 'e state_machine \<Rightarrow> bool" where
  "keeps r s \<longleftrightarrow> same_parser s (snd r)"

lemma keeps_id [simp]: "keeps (b, s) s"
  by (simp add: keeps_def)

lemma keeps_Pair: "keeps (b, snd r) s = keeps r s"
  by (simp add: keeps_def)

lemma keeps_if: "keeps r s \<Longrightarrow> keeps r' s \<Longrightarrow> keeps (if b then r else r') s"
  by simp

lemma keeps_call [simp]: "keeps (do_call env c s) s"
  by (simp add: keeps_def do_call_def split: prod.splits)

lemma keeps_call' [simp]: "keeps (b, snd (do_call env c s)) s"
  by (simp add: keeps_Pair)

lemma same_parser_last [simp]: "same_parser s (set_lastPrintedChar wch s)" "same_parser s (ClearLastChar s)"
  by (simp_all add: set_lastPrintedChar_def ClearLastChar_def)

lemma keeps_trans: "same_parser s t \<Longrightarrow> keeps r t \<Longrightarrow> keeps r s"
  unfolding keeps_def by (rule same_parser_trans)

lemma keeps_PassThroughString [simp]: "keeps (oe_ActionPassThroughString env str s) s"
  by (simp add: keeps_def oe_ActionPassThroughString_def split: option.splits prod.splits)

lemma same_parser_uncache: "same_parser s t \<Longrightarrow> same_parser s (t\<lparr>sm_cachedSequence := None\<rparr>)"
  by (cases s; cases t; simp add: same_parser_def)

lemma keeps_Flush [simp]: "keeps (oe_FlushToTerminal env s) s"
proof -
  have pass: "same_parser s' (snd (oe_ActionPassThroughString env str s'))" for str s'
    using keeps_PassThroughString [of env str s'] by (simp add: keeps_def)
  show ?thesis
  proof (cases "sm_cachedSequence s")
    case None
    then show ?thesis using pass by (simp add: keeps_def oe_FlushToTerminal_def FlushToTerminal_def)
  next
    case (Some cached)
    obtain r t where rt: "oe_ActionPassThroughString env cached s = (r, t)" by fastforce
    then have "same_parser s (t\<lparr>sm_cachedSequence := None\<rparr>)"
      using pass [of s cached] by (intro same_parser_uncache) simp
    then show ?thesis
      using Some rt pass [of "t\<lparr>sm_cachedSequence := None\<rparr>"]
      by (auto simp: keeps_def oe_FlushToTerminal_def FlushToTerminal_def intro: same_parser_trans)
  qed
qed

lemma keeps_flush_and_clear:
  assumes "keeps r s"
  shows "keeps (flush_and_clear env r) s"
proof -
  obtain b t where r: "r = (b, t)" by fastforce
  then have st: "same_parser s t" using assms by (simp add: keeps_def)
  show ?thesis
  proof (cases "oe_flush (sm_engine t) \<and> \<not> b")
    case True
    obtain b' u where u: "oe_FlushToTerminal env t = (b', u)" by fastforce
    then have "same_parser t u" using keeps_Flush [of env t] by (simp add: keeps_def)
    with st True r u show ?thesis
      by (auto simp: flush_and_clear_def keeps_def intro: same_parser_trans [OF same_parser_trans])
  qed (use st r in \<open>auto simp: flush_and_clear_def keeps_def intro: same_parser_trans\<close>)
qed

lemma keeps_Execute: "keeps (oe_ActionExecute env wch s) s"
proof -
  have c: "same_parser s (snd (do_call env c s))" for c using keeps_call [of env c s] by (simp add: keeps_def)
  moreover have "same_parser s (snd (oe_FlushToTerminal env (snd (do_call env c s))))" for c
    using c keeps_Flush [of env "snd (do_call env c s)"] unfolding keeps_def by (rule same_parser_trans)
  ultimately have "same_parser s t" if "t \<in> {s} \<union> (\<Union>c. {snd (do_call env c s), snd (oe_FlushToTerminal env (snd (do_call env c s)))})" for t
    using that by auto
  then have k: "keeps (True, ClearLastChar t) s"
    if "t \<in> {s} \<union> (\<Union>c. {snd (do_call env c s), snd (oe_FlushToTerminal env (snd (do_call env c s)))})" for t
    using that same_parser_trans same_parser_last(2) unfolding keeps_def snd_conv by blast
  show ?thesis
    unfolding oe_ActionExecute_def Let_def by (rule k) auto
qed

lemma keeps_PrintString: "keeps (oe_ActionPrintString env str s) s" "keeps (oe_ActionPrint env wch s) s"
  by (auto simp: oe_ActionPrintString_def oe_ActionPrint_def Let_def
      intro: keeps_trans [OF same_parser_last(1) keeps_call'])

lemma keeps_esc_switch: "keeps (esc_switch env vtid s) s"
  unfolding esc_switch_def Let_def by (intro keeps_if keeps_call keeps_call' keeps_id)

lemma keeps_vt52_switch: "keeps (vt52_switch env vtid ps s) s"
  unfolding vt52_switch_def by (intro keeps_if keeps_call keeps_id)

lemma keeps_for_each_from:
  "(\<And>p t. keeps (f p t) t) \<Longrightarrow> keeps r s \<Longrightarrow> keeps (for_each_from f ps r) s"
proof (induction ps arbitrary: r)
  case (Cons p ps)
  obtain b t where r: "r = (b, t)" by fastforce
  obtain b' u where u: "f p t = (b', u)" by fastforce
  have "same_parser s t" "same_parser t u" using Cons.prems(1) [of p t] Cons.prems(2) r u by (simp_all add: keeps_def)
  then have "keeps (b' \<and> b, u) s" by (auto simp: keeps_def intro: same_parser_trans)
  then show ?case using Cons.IH [OF Cons.prems(1)] r u by simp
qed (auto elim: prod.exhaust)

lemma keeps_for_each: "(\<And>p t. keeps (f p t) t) \<Longrightarrow> keeps (vtps_for_each f ps s) s"
  unfolding vtps_for_each_def by (intro keeps_for_each_from)

lemma keeps_csi_switch: "keeps (csi_switch env vtid ps s) s"
  unfolding csi_switch_def Let_def
  by (intro keeps_if keeps_call keeps_id keeps_for_each) (simp_all add: keeps_Pair)

lemma keeps_set_color_entries: "keeps r s \<Longrightarrow> keeps (set_color_entries env entries r) s"
proof (induction env entries r rule: set_color_entries.induct)
  case (2 env tableIndex rgb entries success t)
  have "keeps (do_call env (SetColorTableEntry tableIndex rgb) t) s"
    using 2(2) by (intro keeps_trans [OF _ keeps_call]) (simp add: keeps_def)
  then have "keeps (if success then do_call env (SetColorTableEntry tableIndex rgb) t else (success, t)) s"
    using 2(2) by (simp add: keeps_def)
  from 2(1) [OF this] show ?case by simp
qed simp

lemma keeps_color_step:
  "keeps (snd (snd r)) s \<Longrightarrow> keeps (snd (snd (osc_color_step env code mk colors r))) s"
  by (auto simp: osc_color_step_def Let_def keeps_def split: prod.splits if_splits
      intro: same_parser_trans dest: sym [where t = "do_call _ _ _"])
    (metis keeps_call keeps_def same_parser_trans snd_conv)+

lemma keeps_osc_switch: "keeps (osc_switch env parameter str s) s"
proof -
  have colors: "keeps (case osc_color_step env 12 SetCursorColor colors
                       (osc_color_step env 11 SetDefaultBackground colors
                         (osc_color_step env 10 SetDefaultForeground colors (n, 0, b, s))) of
                  (_, _, success, s) \<Rightarrow> (success, s)) s" for colors n b
  proof -
    have "keeps (snd (snd (osc_color_step env 12 SetCursorColor colors
                       (osc_color_step env 11 SetDefaultBackground colors
                         (osc_color_step env 10 SetDefaultForeground colors (n, 0, b, s)))))) s"
      by (intro keeps_color_step) simp
    then show ?thesis by (auto split: prod.splits)
  qed
  have prod: "keeps (case x of (a, b) \<Rightarrow> f a b) s" if "\<And>a b. keeps (f a b) s" for x and f :: "'x \<Rightarrow> 'y \<Rightarrow> _"
    using that by (simp split: prod.splits)
  show ?thesis
    unfolding osc_switch_def
    by (intro keeps_if keeps_call keeps_id prod colors keeps_set_color_entries)
qed

interpretation oe: parser_engine "output_engine_ops env" for env
proof unfold_locales
  fix s :: "('a, 'b) oe_machine" and wch str vtid ps n
  show "same_parser s (snd (ActionExecute (output_engine_ops env) wch s))"
    "same_parser s (snd (ActionExecuteFromEscape (output_engine_ops env) wch s))"
    using keeps_Execute [of env wch s]
    by (simp_all add: output_engine_ops_def keeps_def oe_ActionExecuteFromEscape_def)
  show "same_parser s (snd (ActionPrint (output_engine_ops env) wch s))"
    using keeps_PrintString(2) [of env wch s] by (simp add: output_engine_ops_def keeps_def)
  show "same_parser s (snd (ActionPrintString (output_engine_ops env) str s))"
    using keeps_PrintString(1) [of env str s] by (simp add: output_engine_ops_def keeps_def)
  show "same_parser s (snd (ActionPassThroughString (output_engine_ops env) str s))"
    using keeps_PassThroughString [of env str s] by (simp add: output_engine_ops_def keeps_def)
  show "same_parser s (snd (ActionEscDispatch (output_engine_ops env) vtid s))"
    using keeps_flush_and_clear [OF keeps_esc_switch, of env env vtid s]
    by (simp add: output_engine_ops_def keeps_def oe_ActionEscDispatch_def)
  show "same_parser s (snd (ActionVt52EscDispatch (output_engine_ops env) vtid ps s))"
    using keeps_vt52_switch [of env vtid ps s]
    by (auto simp: output_engine_ops_def keeps_def oe_ActionVt52EscDispatch_def split: prod.splits
        intro: same_parser_trans)
  show "same_parser s (snd (ActionCsiDispatch (output_engine_ops env) vtid ps s))"
    using keeps_flush_and_clear [OF keeps_csi_switch, of env env vtid ps s]
    by (simp add: output_engine_ops_def keeps_def oe_ActionCsiDispatch_def)
  show "same_parser s (snd (ActionOscDispatch (output_engine_ops env) wch n str s))"
    using keeps_flush_and_clear [OF keeps_osc_switch, of env env n str s]
    by (simp add: output_engine_ops_def keeps_def oe_ActionOscDispatch_def)
qed (simp_all add: output_engine_ops_def oe_ActionClear_def oe_ActionDcsDispatch_def oe_ActionSs3Dispatch_def)

end
