(* ===== verification/Output_Stream.thy ===== *)
theory Output_Stream
  imports Output_Engine State_Machine_Stream
begin

text \<open>
  The output engine without a terminal behind it does not look at the text of the current write, so it is a
  \<open>stream_engine\<close>: what a program prints does not depend on how it cuts its output into writes.
\<close>

definition quiet :: "('d, 't) output_engine \<Rightarrow> bool" where
  "quiet e \<longleftrightarrow> \<not> oe_flush e"

text \<open>Two machines with the same engine, in the same mode: all that the quiet engine looks at.\<close>

definition alike :: "('d, 't) oe_machine \<Rightarrow> ('d, 't) oe_machine \<Rightarrow> bool" where
  "alike s t \<longleftrightarrow> sm_engine t = sm_engine s \<and> sm_isInAnsiMode t = sm_isInAnsiMode s \<and> quiet (sm_engine s)"

definition agree :: "'r \<times> ('d, 't) oe_machine \<Rightarrow> 'r \<times> ('d, 't) oe_machine \<Rightarrow> bool" where
  "agree r r' \<longleftrightarrow> fst r = fst r' \<and> alike (snd r) (snd r')"

lemma same_parser_core:
  assumes "same_parser s s'"
  shows "core s' = (core s)\<lparr>sm_engine := sm_engine s', sm_isInAnsiMode := sm_isInAnsiMode s'\<rparr>"
proof -
  have "s' = s\<lparr>sm_engine := sm_engine s', sm_isInAnsiMode := sm_isInAnsiMode s', sm_cachedSequence := sm_cachedSequence s'\<rparr>"
    using assms by (simp only: same_parser_def)
  then have "core s' = core (s\<lparr>sm_engine := sm_engine s', sm_isInAnsiMode := sm_isInAnsiMode s', sm_cachedSequence := sm_cachedSequence s'\<rparr>)"
    by (rule arg_cong)
  then show ?thesis by (simp add: core_def)
qed

lemma blindI:
  fixes f :: "('d, 't) oe_machine \<Rightarrow> 'r \<times> ('d, 't) oe_machine"
  assumes "\<And>s. same_parser s (snd (f s))" "\<And>s t. alike s t \<Longrightarrow> agree (f s) (f t)"
  shows "blind quiet f"
  unfolding blind_def
proof (intro allI impI)
  fix s t :: "('d, 't) oe_machine"
  assume st: "quiet (sm_engine s)" "core s = core t"
  have "agree (f s) (f t)" using st core_fields [OF st(2)] by (intro assms(2)) (simp add: alike_def)
  then show "fst (f s) = fst (f t) \<and> core (snd (f s)) = core (snd (f t)) \<and> quiet (sm_engine (snd (f s)))"
    using st(2) by (simp add: agree_def alike_def same_parser_core [OF assms(1)])
qed

lemma agree_Pair: "alike s t \<Longrightarrow> agree (b, s) (b, t)"
  by (simp add: agree_def)

lemma agree_if: "agree r r' \<Longrightarrow> agree x x' \<Longrightarrow> agree (if b then r else x) (if b then r' else x')"
  by simp

lemma agree_snd: "agree r r' \<Longrightarrow> alike (snd r) (snd r')"
  by (simp add: agree_def)

lemma alike_engine: "alike s t \<Longrightarrow> sm_engine t = sm_engine s \<and> sm_isInAnsiMode t = sm_isInAnsiMode s"
  by (simp add: alike_def)

lemma alike_update:
  "alike s t \<Longrightarrow> quiet e \<Longrightarrow> alike (s\<lparr>sm_engine := e, sm_isInAnsiMode := m\<rparr>) (t\<lparr>sm_engine := e, sm_isInAnsiMode := m\<rparr>)"
  "alike s t \<Longrightarrow> quiet e \<Longrightarrow> alike (s\<lparr>sm_engine := e\<rparr>) (t\<lparr>sm_engine := e\<rparr>)"
  by (simp_all add: alike_def)

lemma agree_call: "alike s t \<Longrightarrow> agree (do_call env c s) (do_call env c t)"
  by (simp add: do_call_def agree_def alike_def quiet_def split: prod.splits)

lemma alike_last:
  assumes "alike s t"
  shows "alike (set_lastPrintedChar wch s) (set_lastPrintedChar wch t)" "alike (ClearLastChar s) (ClearLastChar t)"
proof -
  show *: "alike (set_lastPrintedChar wch s) (set_lastPrintedChar wch t)" for wch
  proof -
    have "quiet ((sm_engine s)\<lparr>oe_lastPrintedChar := wch\<rparr>)" using assms by (simp add: alike_def quiet_def)
    from alike_update(2) [OF assms this] show ?thesis
      using alike_engine [OF assms] by (simp add: set_lastPrintedChar_def)
  qed
  show "alike (ClearLastChar s) (ClearLastChar t)" unfolding ClearLastChar_def by (rule *)
qed

lemma agree_call_snd: "alike s t \<Longrightarrow> agree (b, snd (do_call env c s)) (b, snd (do_call env c t))"
  by (intro agree_Pair agree_snd agree_call)

lemma agree_flush_and_clear:
  assumes "agree r r'"
  shows "agree (flush_and_clear env r) (flush_and_clear env r')"
proof -
  obtain b s where r: "r = (b, s)" by fastforce
  obtain b' t where r': "r' = (b', t)" by fastforce
  have st: "alike s t" "b' = b" using assms r r' by (simp_all add: agree_def)
  have q: "\<not> oe_flush (sm_engine s)" "\<not> oe_flush (sm_engine t)" using st(1) by (simp_all add: alike_def quiet_def)
  show ?thesis using r r' st(2) q by (simp add: flush_and_clear_def agree_Pair alike_last(2) [OF st(1)])
qed

lemmas agree_intros = agree_if agree_call agree_call_snd agree_Pair

lemma agree_Execute: "alike s t \<Longrightarrow> agree (oe_ActionExecute env wch s) (oe_ActionExecute env wch t)"
proof -
  assume st: "alike s t"
  have c: "alike (snd (do_call env c s)) (snd (do_call env c t))" for c by (intro agree_snd agree_call st)
  have q: "quiet (sm_engine (snd (do_call env WarningBell s)))" "quiet (sm_engine (snd (do_call env WarningBell t)))"
    using c [of WarningBell] alike_engine [OF c [of WarningBell]] by (simp_all add: alike_def)
  show ?thesis
    using c q st unfolding oe_ActionExecute_def Let_def
    by (auto simp: quiet_def intro!: agree_Pair alike_last)
qed

lemma agree_Print:
  assumes "alike s t"
  shows "agree (oe_ActionPrintString env str s) (oe_ActionPrintString env str t)"
    "agree (oe_ActionPrint env wch s) (oe_ActionPrint env wch t)"
  using assms unfolding oe_ActionPrintString_def oe_ActionPrint_def Let_def
  by (auto intro!: agree_intros alike_last agree_snd)

lemma agree_esc_switch: "alike s t \<Longrightarrow> agree (esc_switch env vtid s) (esc_switch env vtid t)"
  unfolding esc_switch_def Let_def by (intro agree_intros)

lemma agree_vt52_switch: "alike s t \<Longrightarrow> agree (vt52_switch env vtid ps s) (vt52_switch env vtid ps t)"
  unfolding vt52_switch_def by (intro agree_intros)

lemma agree_for_each_from:
  "(\<And>p s t. alike s t \<Longrightarrow> agree (f p s) (f p t)) \<Longrightarrow> agree r r' \<Longrightarrow> agree (for_each_from f ps r) (for_each_from f ps r')"
proof (induction ps arbitrary: r r')
  case Nil
  then show ?case by (cases r; cases r') simp
next
  case (Cons p ps)
  obtain b s where r: "r = (b, s)" by fastforce
  obtain b' t where r': "r' = (b', t)" by fastforce
  have st: "alike s t" "b' = b" using Cons.prems(2) r r' by (auto simp: agree_def alike_def)
  obtain c u where u: "f p s = (c, u)" by fastforce
  obtain c' v where v: "f p t = (c', v)" by fastforce
  have "alike u v" "c' = c" using Cons.prems(1) [OF st(1), of p] u v by (auto simp: agree_def alike_def)
  then have "agree (c \<and> b, u) (c' \<and> b', v)" using st(2) by (simp add: agree_Pair)
  then show ?case using Cons.IH [OF Cons.prems(1)] r r' u v by simp
qed

lemma agree_for_each:
  "(\<And>p s t. alike s t \<Longrightarrow> agree (f p s) (f p t)) \<Longrightarrow> alike s t \<Longrightarrow> agree (vtps_for_each f ps s) (vtps_for_each f ps t)"
  unfolding vtps_for_each_def by (intro agree_for_each_from)

lemma agree_csi_switch: "alike s t \<Longrightarrow> agree (csi_switch env vtid ps s) (csi_switch env vtid ps t)"
proof -
  assume st: "alike s t"
  have e: "sm_engine t = sm_engine s" using alike_engine [OF st] by simp
  show ?thesis
    unfolding csi_switch_def Let_def e
    by (intro agree_intros agree_for_each st) (auto intro: agree_snd agree_call st)
qed

lemma agree_set_color_entries: "agree r r' \<Longrightarrow> agree (set_color_entries env entries r) (set_color_entries env entries r')"
proof (induction env entries r arbitrary: r' rule: set_color_entries.induct)
  case (2 env tableIndex rgb entries success s)
  obtain b t where r': "r' = (b, t)" by fastforce
  have st: "alike s t" "b = success" using 2(2) r' by (auto simp: agree_def alike_def)
  have "agree (if success then do_call env (SetColorTableEntry tableIndex rgb) s else (success, s))
     (if success then do_call env (SetColorTableEntry tableIndex rgb) t else (success, t))"
    by (intro agree_intros st)
  from 2(1) [OF this] show ?case using r' st by simp
qed simp

lemma agree_color_step:
  assumes "fst r = fst r'" "fst (snd r) = fst (snd r')" "agree (snd (snd r)) (snd (snd r'))"
  shows "fst (osc_color_step env code mk colors r) = fst (osc_color_step env code mk colors r')"
    "fst (snd (osc_color_step env code mk colors r)) = fst (snd (osc_color_step env code mk colors r'))"
    "agree (snd (snd (osc_color_step env code mk colors r))) (snd (snd (osc_color_step env code mk colors r')))"
proof -
  obtain n i b s where r: "r = (n, i, b, s)" by (metis prod.exhaust)
  obtain n' i' b' t where r': "r' = (n', i', b', t)" by (metis prod.exhaust)
  have eq: "n' = n" "i' = i" "b' = b" "alike s t" using assms r r' by (auto simp: agree_def alike_def)
  have "agree (if colors ! i \<noteq> INVALID_COLOR \<and> b then do_call env (mk (colors ! i)) s else (b, s))
    (if colors ! i \<noteq> INVALID_COLOR \<and> b then do_call env (mk (colors ! i)) t else (b, t))"
    by (intro agree_intros eq)
  then show "agree (snd (snd (osc_color_step env code mk colors r))) (snd (snd (osc_color_step env code mk colors r')))"
    using assms r r' eq unfolding osc_color_step_def Let_def by (auto split: prod.splits)
  show "fst (osc_color_step env code mk colors r) = fst (osc_color_step env code mk colors r')"
    "fst (snd (osc_color_step env code mk colors r)) = fst (snd (osc_color_step env code mk colors r'))"
    using r r' eq unfolding osc_color_step_def Let_def by (auto split: prod.splits)
qed

lemma agree_osc_switch: "alike s t \<Longrightarrow> agree (osc_switch env parameter str s) (osc_switch env parameter str t)"
proof -
  assume st: "alike s t"
  let ?f = "\<lambda>colors n b s. osc_color_step env 12 SetCursorColor colors
      (osc_color_step env 11 SetDefaultBackground colors (osc_color_step env 10 SetDefaultForeground colors (n, 0, b, s)))"
  have "agree (snd (snd (?f colors n b s))) (snd (snd (?f colors n b t)))" for colors n b
    by (intro agree_color_step) (simp_all add: agree_Pair st)
  then have colors: "agree (case ?f colors n b s of (_, _, success, s) \<Rightarrow> (success, s))
      (case ?f colors n b t of (_, _, success, s) \<Rightarrow> (success, s))" for colors n b
    by (simp add: case_prod_beta)
  have prod: "agree (case x of (a, b) \<Rightarrow> f a b) (case x of (a, b) \<Rightarrow> g a b)" if "\<And>a b. agree (f a b) (g a b)"
    for x and f g :: "'x \<Rightarrow> 'y \<Rightarrow> _"
    using that by (simp split: prod.splits)
  show ?thesis
    unfolding osc_switch_def
    by (intro agree_intros prod colors agree_set_color_entries st)
qed

interpretation oes: stream_engine "output_engine_ops env" quiet for env
proof unfold_locales
  fix wch str vtid ps n
  show "blind quiet (ActionExecute (output_engine_ops env) wch)"
    "blind quiet (ActionExecuteFromEscape (output_engine_ops env) wch)"
    "blind quiet (ActionPrint (output_engine_ops env) wch)"
    "blind quiet (ActionPrintString (output_engine_ops env) str)"
    by (rule blindI, rule oe.keeps_Execute oe.keeps_ExecuteFromEscape oe.keeps_Print oe.keeps_PrintString, simp add: output_engine_ops_def oe_ActionExecuteFromEscape_def agree_Execute agree_Print)+
  show "blind quiet (ActionEscDispatch (output_engine_ops env) vtid)"
    "blind quiet (ActionCsiDispatch (output_engine_ops env) vtid ps)"
    "blind quiet (ActionOscDispatch (output_engine_ops env) wch n str)"
    by (rule blindI, rule oe.keeps_EscDispatch oe.keeps_CsiDispatch oe.keeps_OscDispatch, simp add: output_engine_ops_def oe_ActionEscDispatch_def oe_ActionCsiDispatch_def
        oe_ActionOscDispatch_def agree_flush_and_clear agree_esc_switch agree_csi_switch agree_osc_switch)+
  show "blind quiet (ActionVt52EscDispatch (output_engine_ops env) vtid ps)"
  proof (rule blindI [OF oe.keeps_Vt52EscDispatch])
    fix s t :: "('a, 'b) oe_machine"
    assume "alike s t"
    from agree_vt52_switch [OF this, of env vtid ps]
    have "agree (fst (vt52_switch env vtid ps s), ClearLastChar (snd (vt52_switch env vtid ps s)))
      (fst (vt52_switch env vtid ps t), ClearLastChar (snd (vt52_switch env vtid ps t)))"
      using alike_last(2) [OF agree_snd] by (simp add: agree_def alike_def)
    then show "agree (ActionVt52EscDispatch (output_engine_ops env) vtid ps s) (ActionVt52EscDispatch (output_engine_ops env) vtid ps t)"
      by (simp add: output_engine_ops_def oe_ActionVt52EscDispatch_def case_prod_beta)
  qed
  show "blind quiet (ActionDcsDispatch (output_engine_ops env) vtid ps)"
    "blind quiet (ActionClear (output_engine_ops env))"
    "blind quiet (ActionSs3Dispatch (output_engine_ops env) wch ps)"
    by (rule blindI, rule oe.keeps_DcsDispatch oe.keeps_Clear oe.keeps_Ss3Dispatch, simp add: output_engine_ops_def oe_ActionDcsDispatch_def oe_ActionClear_def
        oe_ActionSs3Dispatch_def agree_Pair alike_last)+
qed (simp_all add: output_engine_ops_def oe_ActionDcsDispatch_def oe_ActionPrintString_def)

section \<open>Dispatchers that print piecewise\<close>

text \<open>
  What the equivalence needs of a dispatcher: printing a text that is not empty is printing its parts one
  after the other, on the dispatcher's state and mode.
\<close>

definition prints_piecewise :: "('d, 't) oe_env \<Rightarrow> bool" where
  "prints_piecewise env \<longleftrightarrow>
     (\<forall>a b m d. a \<noteq> [] \<longrightarrow> b \<noteq> [] \<longrightarrow>
        snd (dispatch env (PrintString (a @ b)) m d) =
          (case snd (dispatch env (PrintString a) m d) of (m', d') \<Rightarrow> snd (dispatch env (PrintString b) m' d')))"

lemma plain_char_graphic: "\<not> isActionableFromGround c \<Longrightarrow> c \<ge> 0x20"
  by (simp add: char_class not_le word_le_nat_alt word_less_nat_alt)

lemma print_compositional_output:
  assumes "prints_piecewise env"
  shows "print_compositional quiet (output_engine_ops env)"
proof -
  have "snd (oe_ActionPrintString env (a @ b) s) = snd (oe_ActionPrintString env b (snd (oe_ActionPrintString env a s)))"
    if "list_all (\<lambda>c. \<not> isActionableFromGround c) (a @ b)" for a b s
  proof (cases "a = [] \<or> b = []")
    case False
    have g: "0x20 \<le> last a" "0x20 \<le> last b"
      using that False by (auto intro!: plain_char_graphic simp: list_all_iff)
    obtain m' d' where pa: "snd (dispatch env (PrintString a) (sm_isInAnsiMode s) (oe_dispatch (sm_engine s))) = (m', d')"
      by fastforce
    have "snd (dispatch env (PrintString (a @ b)) (sm_isInAnsiMode s) (oe_dispatch (sm_engine s))) =
        snd (dispatch env (PrintString b) m' d')"
      using assms False pa by (simp add: prints_piecewise_def)
    then show ?thesis
      using False g pa
      by (auto simp: oe_ActionPrintString_def Let_def do_call_def set_lastPrintedChar_def split: prod.splits)
  qed (auto simp: oe_ActionPrintString_def Let_def)
  then show ?thesis by (simp add: print_compositional_def output_engine_ops_def)
qed

end
