(* ===== verification/Output_Passthrough.thy ===== *)
theory Output_Passthrough
  imports Output_Engine State_Machine_Text
begin

text \<open>
  A terminal behind the console. A control sequence that nobody handles is passed on by
  \<^verbatim>\<open>FlushToTerminal\<close>, which has to put the text together again from the partial sequences of earlier
  writes (\<^verbatim>\<open>_cachedSequence\<close>) and from the current one (\<^verbatim>\<open>_run\<close>).
\<close>

section \<open>Characters that only touch the parser\<close>

definition with_text :: "wstring \<Rightarrow> wstring option \<Rightarrow> 'e state_machine \<Rightarrow> 'e state_machine" where
  "with_text r k s = s\<lparr>sm_run := r, sm_cachedSequence := k\<rparr>"

lemma with_text_fields [simp]:
  "sm_engine (with_text r k s) = sm_engine s" "sm_state (with_text r k s) = sm_state s"
  "sm_isInAnsiMode (with_text r k s) = sm_isInAnsiMode s" "sm_parameters (with_text r k s) = sm_parameters s"
  "sm_identifier (with_text r k s) = sm_identifier s" "sm_run (with_text r k s) = r"
  "sm_cachedSequence (with_text r k s) = k" "sm_processingIndividually (with_text r k s) = sm_processingIndividually s"
  "sm_parameterLimitReached (with_text r k s) = sm_parameterLimitReached s"
  by (simp_all add: with_text_def)

lemma with_text_updates:
  "with_text r k s\<lparr>sm_run := r'\<rparr> = with_text r' k s" "with_text r k s\<lparr>sm_cachedSequence := k'\<rparr> = with_text r k' s"
  "with_text r k s\<lparr>sm_state := st\<rparr> = with_text r k (s\<lparr>sm_state := st\<rparr>)"
  "with_text r k s\<lparr>sm_parameters := ps\<rparr> = with_text r k (s\<lparr>sm_parameters := ps\<rparr>)"
  "with_text r k s\<lparr>sm_identifier := i\<rparr> = with_text r k (s\<lparr>sm_identifier := i\<rparr>)"
  "with_text r k s\<lparr>sm_parameterLimitReached := l\<rparr> = with_text r k (s\<lparr>sm_parameterLimitReached := l\<rparr>)"
  "with_text r k (with_text r' k' s) = with_text r k s"
  "with_text r k s\<lparr>sm_processingIndividually := b\<rparr> = with_text r k (s\<lparr>sm_processingIndividually := b\<rparr>)"
  by (simp_all add: with_text_def)

lemma with_text_self: "with_text (sm_run s) (sm_cachedSequence s) s = s"
  by (simp add: with_text_def)

definition silent_char :: "'e engine_ops \<Rightarrow> wchar \<Rightarrow> 'e state_machine \<Rightarrow> 'e state_machine \<Rightarrow> bool" where
  "silent_char eng c s t \<longleftrightarrow>
     (\<forall>r k. ProcessCharacter eng c (with_text r k s) = Inr (with_text r k t)) \<and> sm_state t \<noteq> Ground \<and>
     sm_processingIndividually t = sm_processingIndividually s"

inductive silent :: "'e engine_ops \<Rightarrow> wstring \<Rightarrow> 'e state_machine \<Rightarrow> 'e state_machine \<Rightarrow> bool" where
  silent_Nil: "silent eng [] s s"
| silent_Cons: "silent_char eng c s t \<Longrightarrow> silent eng cs t u \<Longrightarrow> silent eng (c # cs) s u"

inductive_cases silent_NilE: "silent eng [] s t"
inductive_cases silent_ConsE: "silent eng (c # cs) s u"

lemma silent_append: "silent eng xs s t \<Longrightarrow> silent eng ys t u \<Longrightarrow> silent eng (xs @ ys) s u"
  by (induction rule: silent.induct) (auto intro: silent.intros)

lemma silent_split: "silent eng (xs @ ys) s u \<Longrightarrow> \<exists>t. silent eng xs s t \<and> silent eng ys t u"
proof (induction xs arbitrary: s)
  case (Cons x xs)
  then obtain t where t: "silent_char eng x s t" "silent eng (xs @ ys) t u" by (auto elim!: silent_ConsE)
  then show ?case using Cons.IH [OF t(2)] silent_Cons [OF t(1)] by blast
qed (auto intro: silent_Nil)

lemma silent_process_chars: "silent eng cs s t \<Longrightarrow> process_chars eng cs (with_text r k s) = Inr (with_text r k t)"
  by (induction rule: silent.induct) (auto simp: silent_char_def)

lemma silent_individually:
  "silent eng cs s t \<Longrightarrow> sm_processingIndividually t = sm_processingIndividually s \<and> (cs \<noteq> [] \<longrightarrow> sm_state t \<noteq> Ground)"
  by (induction rule: silent.induct) (auto simp: silent_char_def elim: silent.cases)

lemma process_loop_silent:
  assumes "silent eng (drop current w) s t" "sm_processingIndividually s" "current \<le> length w"
  shows "process_loop eng (w @ v) 0 current (with_text r k s) =
    process_loop eng (w @ v) 0 (length w) (with_text (if current < length w then w else r) k t)"
  using assms
proof (induction "drop current w" arbitrary: current s r)
  case Nil
  then show ?case by (auto elim!: silent_NilE)
next
  case (Cons c cs)
  have lt: "current < length w" using Cons.hyps(2) by (metis drop_eq_Nil list.simps(3) not_le)
  have c: "w ! current = c" "drop (Suc current) w = cs"
    using Cons.hyps(2) lt by (metis Cons_nth_drop_Suc list.inject)+
  obtain u where u: "silent_char eng c s u" "silent eng cs u t"
    using Cons.prems(1) Cons.hyps(2) [symmetric] by (auto elim!: silent_ConsE)
  have "process_loop eng (w @ v) 0 current (with_text r k s) =
      process_loop eng (w @ v) 0 (Suc current) (with_text (take (Suc current) w) k u)"
    using lt c u(1) Cons.prems(2)
    by (simp add: process_loop_individually with_text_updates silent_char_def nth_append)
  also have "\<dots> = process_loop eng (w @ v) 0 (length w)
      (with_text (if Suc current < length w then w else take (Suc current) w) k t)"
    using Cons.hyps(1) [of "Suc current" u] u Cons.prems(2) c(2) lt by (simp add: silent_char_def)
  finally show ?case using lt by (simp add: le_antisym)
qed

section \<open>A sequence in several writes\<close>

lemma ProcessString_silent:
  assumes "silent eng w s t" "sm_processingIndividually s" "w \<noteq> []" "\<not> FlushAtEndOfString eng (sm_engine t)"
  shows "ProcessString eng w (with_text r k s) =
    Inr (with_text w (Some ((case k of Some c \<Rightarrow> c | None \<Rightarrow> []) @ w)) t)"
proof -
  have "process_loop eng w 0 0 (with_text r k s) = Inr (0, with_text w k t)"
    using process_loop_silent [of eng 0 w s t "[]" r k] assms by (simp add: process_loop_end)
  moreover have "sm_processingIndividually t" using silent_individually [OF assms(1)] assms(2) by simp
  ultimately show ?thesis using assms(3,4) by (simp add: ProcessString_def with_text_updates Let_def)
qed

lemma ProcessString_last:
  assumes "silent eng w s t" "sm_processingIndividually s"
    and "ProcessCharacter eng f (with_text (w @ [f]) k t) = Inr u" "sm_state u = Ground"
  shows "ProcessString eng (w @ [f]) (with_text r k s) = Inr (u\<lparr>sm_processingIndividually := False, sm_run := []\<rparr>)"
proof -
  have "sm_processingIndividually t" using silent_individually [OF assms(1)] assms(2) by simp
  then have "process_loop eng (w @ [f]) 0 (length w) (with_text r' k t) =
      Inr (length (w @ [f]), u\<lparr>sm_processingIndividually := False\<rparr>)" for r'
    using assms(3,4) by (simp add: process_loop_individually process_loop_end with_text_updates)
  then have "process_loop eng (w @ [f]) 0 0 (with_text r k s) =
      Inr (length (w @ [f]), u\<lparr>sm_processingIndividually := False\<rparr>)"
    using process_loop_silent [of eng 0 w s t "[f]" r k] assms(1,2) by simp
  then show ?thesis by (simp add: ProcessString_def Let_def)
qed

text \<open>The first write: it starts with an escape character in the ground state.\<close>

lemma ProcessString_start:
  assumes "snd (ActionPrintString eng [] (s\<lparr>sm_run := [c]\<rparr>)) = s\<lparr>sm_run := [c]\<rparr>"
    and "\<not> sm_processingIndividually s" "isActionableFromGround c"
  shows "ProcessString eng (c # w) s = ProcessString eng (c # w) (s\<lparr>sm_run := [c], sm_processingIndividually := True\<rparr>)"
proof -
  have "process_loop eng (c # w) 0 0 s = process_loop eng (c # w) 0 0 (s\<lparr>sm_run := [c], sm_processingIndividually := True\<rparr>)"
    using process_loop_actionable [of 0 "c # w" s 0 eng] assms by simp
  then show ?thesis by (simp only: ProcessString_def)
qed

text \<open>The writes before the last one accumulate in the cached sequence.\<close>

lemma process_writes_silent:
  assumes "silent eng (concat ws) s t" "sm_processingIndividually s" "[] \<notin> set ws" "ws \<noteq> []"
    and "\<And>e. \<not> FlushAtEndOfString eng e"
  shows "\<exists>r'. process_writes eng ws (with_text r k s) =
    Inr (with_text r' (Some ((case k of Some c \<Rightarrow> c | None \<Rightarrow> []) @ concat ws)) t)"
  using assms(1-4)
proof (induction ws arbitrary: s r k)
  case (Cons w ws)
  obtain u where u: "silent eng w s u" "silent eng (concat ws) u t"
    using Cons.prems(1) silent_split [of eng w "concat ws" s t] by auto
  have step: "ProcessString eng w (with_text r k s) =
      Inr (with_text w (Some ((case k of Some c \<Rightarrow> c | None \<Rightarrow> []) @ w)) u)"
    using ProcessString_silent [OF u(1) Cons.prems(2) _ assms(5)] Cons.prems(3) by (metis list.set_intros(1))
  show ?case
  proof (cases "ws = []")
    case True
    then have "t = u" using u(2) by (auto elim!: silent_NilE)
    then show ?thesis using step True by auto
  next
    case False
    then show ?thesis
      using Cons.IH [OF u(2), of w "Some ((case k of Some c \<Rightarrow> c | None \<Rightarrow> []) @ w)"]
        silent_individually [OF u(1)] Cons.prems step by auto
  qed
qed simp

lemma process_writes_sequence:
  assumes "silent eng (concat vs @ v) (s\<lparr>sm_processingIndividually := True\<rparr>) t" "[] \<notin> set vs" "concat vs @ v \<noteq> []"
    and "\<not> sm_processingIndividually s" "sm_cachedSequence s = None" "isActionableFromGround (hd (concat vs @ v))"
    and "\<And>s. snd (ActionPrintString eng [] s) = s" "\<And>e. \<not> FlushAtEndOfString eng e"
    and "ProcessCharacter eng f (with_text (v @ [f]) (if vs = [] then None else Some (concat vs)) t) = Inr u"
    and "sm_state u = Ground"
  shows "process_writes eng (vs @ [v @ [f]]) s = Inr (u\<lparr>sm_processingIndividually := False, sm_run := []\<rparr>)"
proof -
  let ?s = "s\<lparr>sm_processingIndividually := True\<rparr>"
  obtain m where m: "silent eng (concat vs) ?s m" "silent eng v m t" using silent_split [OF assms(1)] by blast
  have pm: "sm_processingIndividually m" using silent_individually [OF m(1)] by simp
  have start: "ProcessString eng (c # w) s = ProcessString eng (c # w) (with_text [c] None ?s)"
    if "c = hd (concat vs @ v)" for c w
  proof -
    have "s\<lparr>sm_run := [c], sm_processingIndividually := True\<rparr> = with_text [c] None ?s"
      using assms(5) by (cases s) (simp add: with_text_def)
    then show ?thesis using ProcessString_start [of eng c s w] that assms(4,6,7) by simp
  qed
  show ?thesis
  proof (cases vs)
    case Nil
    then have "m = ?s" using m(1) by (auto elim!: silent_NilE)
    obtain c w where v: "v = c # w" using assms(3) Nil by (cases v) auto
    show ?thesis
      using start [of c "w @ [f]"] ProcessString_last [OF m(2) pm, of f None u "[c]"] assms(9,10) Nil v \<open>m = ?s\<close>
      by simp
  next
    case (Cons x xs)
    then obtain c w where x: "x = c # w" using assms(2) by (cases x) auto
    have first: "process_writes eng vs s = process_writes eng vs (with_text [c] None ?s)"
      using start [of c w] Cons x by simp
    obtain r' where "process_writes eng vs (with_text [c] None ?s) = Inr (with_text r' (Some (concat vs)) m)"
      using process_writes_silent [OF m(1) _ assms(2) _ assms(8), of "[c]" None] Cons by auto
    then have "process_writes eng vs s = Inr (with_text r' (Some (concat vs)) m)" using first by simp
    moreover have "ProcessString eng (v @ [f]) (with_text r' (Some (concat vs)) m) =
        Inr (u\<lparr>sm_processingIndividually := False, sm_run := []\<rparr>)"
      using ProcessString_last [OF m(2) pm, of f "Some (concat vs)" u r'] assms(9,10) Cons by simp
    ultimately show ?thesis by (simp only: process_writes_append sum.case process_writes.simps)
  qed
qed

section \<open>Control sequences of the output engine\<close>

lemma oe_clear:
  "sm_ActionClear (output_engine_ops env) s =
     s\<lparr>sm_identifier := vtid_Clear (sm_identifier s), sm_parameters := [], sm_parameterLimitReached := False,
       sm_oscString := [], sm_oscParameter := 0, sm_dcsStringHandler := None\<rparr>"
  by (simp add: sm_ActionClear_def output_engine_ops_def oe_ActionClear_def)

lemma oe_escape_silent:
  assumes "ready s"
  shows "silent_char (output_engine_ops env) 0x1B s (EnterEscape (output_engine_ops env) s)"
    "silent_char (output_engine_ops env) 0x5B (EnterEscape (output_engine_ops env) s)
       (EnterCsiEntry (output_engine_ops env) (EnterEscape (output_engine_ops env) s))"
proof -
  let ?e = "output_engine_ops env"
  have esc: "ProcessCharacter ?e 0x1B (with_text r k s) = Inr (EnterEscape ?e (with_text r k s))" for r k
    by (rule escape_char) (use assms in \<open>auto simp: ready_def\<close>)
  then show "silent_char ?e 0x1B s (EnterEscape ?e s)"
    by (simp add: silent_char_def EnterEscape_def oe_clear with_text_def)
  have csi: "ProcessCharacter ?e 0x5B t = Inr (EnterCsiEntry ?e t)" if "sm_state t = Escape" "sm_isInAnsiMode t" for t
    using that by (simp add: plain_char dispatch_event_def EventEscape_def char_class)
  show "silent_char ?e 0x5B (EnterEscape ?e s) (EnterCsiEntry ?e (EnterEscape ?e s))"
    unfolding silent_char_def
  proof (intro conjI allI)
    fix r k
    have "ProcessCharacter ?e 0x5B (with_text r k (EnterEscape ?e s)) = Inr (EnterCsiEntry ?e (with_text r k (EnterEscape ?e s)))"
      by (rule csi) (use assms in \<open>simp_all add: EnterEscape_def oe_clear ready_def\<close>)
    then show "ProcessCharacter ?e 0x5B (with_text r k (EnterEscape ?e s)) =
        Inr (with_text r k (EnterCsiEntry ?e (EnterEscape ?e s)))"
      by (simp add: EnterCsiEntry_def oe_clear with_text_def)
  qed (simp_all add: EnterCsiEntry_def oe_clear)
qed

lemma silent_machine_actions:
  "sm_ActionCollect c (with_text r k s) = with_text r k (sm_ActionCollect c s)"
  "sm_ActionParam c (with_text r k s) = with_text r k (sm_ActionParam c s)"
  "EnterCsiIntermediate (with_text r k s) = with_text r k (EnterCsiIntermediate s)"
  "EnterCsiParam (with_text r k s) = with_text r k (EnterCsiParam s)"
  "EnterCsiIgnore (with_text r k s) = with_text r k (EnterCsiIgnore s)"
  by (simp_all add: sm_ActionCollect_def sm_ActionParam_def EnterCsiIntermediate_def EnterCsiParam_def
      EnterCsiIgnore_def with_text_updates Let_def)

lemma csi_char_silent:
  assumes "sm_state s \<in> csi_states" "0x20 \<le> unat c" "unat c < 0x40"
  shows "\<exists>t. silent_char eng c s t \<and> sm_state t \<in> csi_states"
proof -
  obtain t where t: "ProcessCharacter eng c s = Inr t" "sm_state t \<in> csi_states"
    using csi_char_stays [OF assms] by blast
  have c: "\<not> isC0Code c" "\<not> isDelete c" using assms(2,3) by (simp_all add: not_in_range)
  have cls: "isIntermediate c \<or> isCsiInvalid c \<or> isNumericParamValue c \<or> isParameterDelimiter c \<or> isCsiPrivateMarker c"
    "isIntermediate c \<or> isIntermediateInvalid c"
    "isNumericParamValue c \<or> isParameterDelimiter c \<or> isIntermediate c \<or> isParameterInvalid c"
    using assms(2,3) by (auto simp: char_class word_le_nat_alt word_unat_eq_iff)
  have pc: "ProcessCharacter eng c s' = dispatch_event eng c s'" for s' using assms(2,3) by (intro plain_char) auto
  have com: "ProcessCharacter eng c (with_text r k s) = map_sum id (with_text r k) (ProcessCharacter eng c s)" for r k
    using assms(1) c cls
    by (auto simp: pc csi_states_def dispatch_event_def EventCsiEntry_def EventCsiParam_def EventCsiIntermediate_def
        EventCsiIgnore_def silent_machine_actions)
  have "sm_processingIndividually t = sm_processingIndividually s"
    using t(1) assms(1) c cls
    by (auto simp: pc csi_states_def dispatch_event_def EventCsiEntry_def EventCsiParam_def EventCsiIntermediate_def
        EventCsiIgnore_def EnterCsiIntermediate_def EnterCsiParam_def EnterCsiIgnore_def sm_ActionCollect_def
        ActionParam_frame split: if_splits)
  then show ?thesis using t com csi_states_not_ground by (auto simp: silent_char_def)
qed

lemma csi_chars_silent:
  assumes "sm_state s \<in> csi_states" "\<forall>c \<in> set cs. 0x20 \<le> unat c \<and> unat c < 0x40"
  shows "\<exists>t. silent eng cs s t \<and> sm_state t \<in> csi_states"
  using assms
proof (induction cs arbitrary: s)
  case (Cons c cs)
  obtain t where "silent_char eng c s t" "sm_state t \<in> csi_states"
    using csi_char_silent [OF Cons.prems(1), of c eng] Cons.prems(2) by auto
  then show ?case using Cons.IH [of t] Cons.prems(2) silent_Cons by fastforce
qed (auto intro: silent_Nil)

section \<open>Unknown control sequences\<close>

text \<open>The identifiers that \<^verbatim>\<open>ActionCsiDispatch\<close> handles.\<close>

definition csi_ids :: "VTID list" where
  "csi_ids = map vtid_from_string
     [''A'', ''B'', ''C'', ''D'', ''E'', ''F'', ''G'', [CHR 0x60], ''d'', ''a'', ''e'', ''H'', ''f'', ''r'', ''@'',
      ''P'', ''J'', ''K'', ''?h'', ''?l'', ''m'', ''n'', ''c'', ''>c'', ''=c'', ''x'', ''S'', ''T'', ''s'', ''u'',
      ''L'', ''M'', ''I'', ''Z'', ''g'', ''X'', ''t'', ''b'', '' q'', ''!p'', ''#{'', ''#p'', ''#}'', ''#q'']"

lemma csi_switch_unknown: "vtid \<notin> set csi_ids \<Longrightarrow> csi_switch env vtid ps s = (False, s)"
  by (simp add: csi_ids_def csi_switch_def Let_def)

definition write_all :: "('d, 't) oe_env \<Rightarrow> wstring list \<Rightarrow> 't \<Rightarrow> 't" where
  "write_all env texts tty = fold (\<lambda>text t. snd (WriteTerminalW env text t)) texts tty"

definition write_ok :: "('d, 't) oe_env \<Rightarrow> bool" where
  "write_ok env \<longleftrightarrow> (\<forall>text tty. fst (WriteTerminalW env text tty))"

lemma pass_through:
  assumes "write_ok env" "oe_ttyConnection (sm_engine s) = Some tty"
  shows "oe_ActionPassThroughString env str s =
    (True, s\<lparr>sm_engine := (sm_engine s)\<lparr>oe_ttyConnection := Some (write_all env [str] tty)\<rparr>\<rparr>)"
proof -
  obtain b t where w: "WriteTerminalW env str tty = (b, t)" by fastforce
  have "b" using assms(1) w unfolding write_ok_def by (metis fst_conv)
  then show ?thesis using assms(2) w by (simp add: oe_ActionPassThroughString_def write_all_def)
qed

lemma flush_writes:
  assumes "write_ok env" "oe_ttyConnection (sm_engine s) = Some tty"
  shows "oe_FlushToTerminal env s =
    (True, s\<lparr>sm_engine := (sm_engine s)\<lparr>oe_ttyConnection := Some (write_all env
       (case sm_cachedSequence s of Some c \<Rightarrow> [c, sm_run s] | None \<Rightarrow> [sm_run s]) tty)\<rparr>, sm_cachedSequence := None\<rparr>)"
proof (cases "sm_cachedSequence s")
  case None
  then show ?thesis
    using pass_through [OF assms] by (cases s) (simp add: oe_FlushToTerminal_def FlushToTerminal_def)
next
  case (Some c)
  let ?t = "s\<lparr>sm_engine := (sm_engine s)\<lparr>oe_ttyConnection := Some (write_all env [c] tty)\<rparr>, sm_cachedSequence := None\<rparr>"
  have "oe_ActionPassThroughString env (sm_run s) ?t =
      (True, ?t\<lparr>sm_engine := (sm_engine ?t)\<lparr>oe_ttyConnection := Some (write_all env [sm_run s] (write_all env [c] tty))\<rparr>\<rparr>)"
    by (rule pass_through [OF assms(1)]) simp
  then show ?thesis
    using Some pass_through [OF assms, of c]
    by (simp add: oe_FlushToTerminal_def FlushToTerminal_def write_all_def)
qed

lemma unknown_csi_dispatch:
  assumes "write_ok env" "oe_ttyConnection (sm_engine s) = Some tty" "oe_flush (sm_engine s)" "vtid \<notin> set csi_ids"
  shows "oe_ActionCsiDispatch env vtid ps s =
    (True, s\<lparr>sm_engine := (sm_engine s)\<lparr>oe_ttyConnection := Some (write_all env
       (case sm_cachedSequence s of Some c \<Rightarrow> [c, sm_run s] | None \<Rightarrow> [sm_run s]) tty), oe_lastPrintedChar := 0\<rparr>,
       sm_cachedSequence := None\<rparr>)"
  using assms(3) flush_writes [OF assms(1,2)]
  by (simp add: oe_ActionCsiDispatch_def csi_switch_unknown [OF assms(4)] flush_and_clear_def ClearLastChar_def
      set_lastPrintedChar_def)

lemma csi_body_silent:
  assumes "ready s" "csi_ok marker ps ims final"
  shows "\<exists>t. silent (output_engine_ops env) ([0x1B, 0x5B] @ marker @ param_text ps @ ims) s t
    \<and> ProcessCharacter (output_engine_ops env) final (with_text r k t) =
        Inr (EnterGround (snd (oe_ActionCsiDispatch env (Finalize final (builder_of (marker @ ims))) (parsed_params ps) (with_text r k t))))
    \<and> sm_engine t = sm_engine s \<and> sm_isInAnsiMode t = sm_isInAnsiMode s"
proof -
  let ?e = "output_engine_ops env"
  let ?t0 = "EnterCsiEntry ?e (EnterEscape ?e s)"
  have s: "sm_isInAnsiMode s" "sm_state s \<noteq> OscString" "sm_state s \<noteq> DcsPassThrough"
    using assms(1) by (auto simp: ready_def)
  have t0: "silent ?e [0x1B, 0x5B] s ?t0" 
    by (rule silent_Cons [OF oe_escape_silent(1) [OF assms(1)]
          silent_Cons [OF oe_escape_silent(2) [OF assms(1)] silent_Nil]])
  obtain t where "silent ?e (marker @ param_text ps @ ims) ?t0 t"
    using csi_chars_silent [OF oe.esc_csi_stays(2) [OF assms(1)] csi_body_range [OF assms(2)]] by blast
  then have t: "silent ?e ([0x1B, 0x5B] @ marker @ param_text ps @ ims) s t" by (rule silent_append [OF t0])
  obtain st l where b: "process_chars ?e ([0x1B, 0x5B] @ marker @ param_text ps @ ims) s =
      Inr (?t0\<lparr>sm_state := st, sm_identifier := builder_of (marker @ ims), sm_parameters := parsed_params ps,
         sm_parameterLimitReached := l\<rparr>)" "st \<in> {CsiEntry, CsiParam, CsiIntermediate}"
    using oe.csi_body [OF s csi_ok_parts(1-3) [OF assms(2)]] by blast
  have eq: "with_text (sm_run s) (sm_cachedSequence s) t = ?t0\<lparr>sm_state := st, sm_identifier := builder_of (marker @ ims),
       sm_parameters := parsed_params ps, sm_parameterLimitReached := l\<rparr>"
    using silent_process_chars [OF t, of "sm_run s" "sm_cachedSequence s"] b(1) by (simp only: with_text_self sum.inject)
  have f: "sm_state t = st" "sm_identifier t = builder_of (marker @ ims)" "sm_parameters t = parsed_params ps"
    "sm_engine t = sm_engine ?t0" "sm_isInAnsiMode t = sm_isInAnsiMode ?t0"
    using arg_cong [OF eq, of sm_state] arg_cong [OF eq, of sm_identifier] arg_cong [OF eq, of sm_parameters]
      arg_cong [OF eq, of sm_engine] arg_cong [OF eq, of sm_isInAnsiMode] by simp_all
  have "ProcessCharacter ?e final (with_text r k t) = Inr (EnterGround (sm_ActionCsiDispatch ?e final (with_text r k t)))"
    by (rule csi_final [OF csi_ok_parts(4) [OF assms(2)]]) (use f(1) b(2) in simp)
  then show ?thesis
    using t f by (intro exI [of _ t]) (simp add: sm_ActionCsiDispatch_def output_engine_ops_def
      EnterCsiEntry_def EnterEscape_def oe_clear [unfolded output_engine_ops_def])
qed

lemma unknown_csi_passthrough:
  fixes env :: "('d, 't) oe_env" and s :: "('d, 't) oe_machine"
  assumes "write_ok env" "oe_ttyConnection (sm_engine s) = Some tty" "oe_flush (sm_engine s)"
    and "ready s" "\<not> sm_processingIndividually s" "sm_cachedSequence s = None"
    and "csi_ok marker ps ims final" "Finalize final (builder_of (marker @ ims)) \<notin> set csi_ids"
    and "concat ws = csi_text marker ps ims final" "[] \<notin> set ws"
  shows "\<exists>s'. process_writes (output_engine_ops env) ws s = Inr s' \<and> ready s' \<and>
    sm_engine s' = (sm_engine s)\<lparr>oe_ttyConnection := Some (write_all env
       (if length ws = 1 then ws else [concat (butlast ws), last ws]) tty), oe_lastPrintedChar := 0\<rparr>"
proof -
  let ?e = "output_engine_ops env"
  let ?s = "s\<lparr>sm_processingIndividually := True\<rparr>"
  let ?xs = "[0x1B, 0x5B] @ marker @ param_text ps @ ims"
  have ws: "ws \<noteq> []" using assms(9) by (auto simp: csi_text_def)
  define vs where "vs = butlast ws"
  define v where "v = butlast (last ws)"
  have "last ws \<noteq> []" using last_in_set [OF ws] assms(10) by auto
  then have lw: "last ws = v @ [last (last ws)]" by (simp add: v_def)
  have "concat ws = concat vs @ last ws"
    using arg_cong [OF append_butlast_last_id [OF ws], of concat] by (simp add: vs_def)
  then have "(concat vs @ v) @ [last (last ws)] = ?xs @ [final]"
    using assms(9) lw by (simp add: csi_text_def)
  then have xs: "concat vs @ v = ?xs" and "last (last ws) = final" by (simp_all only: append1_eq_conv)
  with lw have last: "last ws = v @ [final]" by simp
  have vs: "ws = vs @ [v @ [final]]" using append_butlast_last_id [OF ws] last by (simp add: vs_def)
  let ?k = "if vs = [] then None else Some (concat vs)"
  obtain t where t: "silent ?e ?xs ?s t" "sm_engine t = sm_engine s" "sm_isInAnsiMode t = sm_isInAnsiMode s"
      "ProcessCharacter ?e final (with_text (v @ [final]) ?k t) =
        Inr (EnterGround (snd (oe_ActionCsiDispatch env (Finalize final (builder_of (marker @ ims))) (parsed_params ps)
          (with_text (v @ [final]) ?k t))))"
    using csi_body_silent [of ?s marker ps ims final env "v @ [final]" ?k] assms(4,7) by (auto simp: ready_def)
  let ?t = "with_text (v @ [final]) ?k t"
  have d: "oe_ActionCsiDispatch env (Finalize final (builder_of (marker @ ims))) (parsed_params ps) ?t =
    (True, ?t\<lparr>sm_engine := (sm_engine s)\<lparr>oe_ttyConnection := Some (write_all env
       (case ?k of Some c \<Rightarrow> [c, v @ [final]] | None \<Rightarrow> [v @ [final]]) tty), oe_lastPrintedChar := 0\<rparr>,
       sm_cachedSequence := None\<rparr>)"
    using unknown_csi_dispatch [OF assms(1) _ _ assms(8), of ?t tty "parsed_params ps"] assms(2,3) t(2) by simp
  have "process_writes ?e (vs @ [v @ [final]]) s =
      Inr ((EnterGround (?t\<lparr>sm_engine := (sm_engine s)\<lparr>oe_ttyConnection := Some (write_all env
       (case ?k of Some c \<Rightarrow> [c, v @ [final]] | None \<Rightarrow> [v @ [final]]) tty), oe_lastPrintedChar := 0\<rparr>,
       sm_cachedSequence := None\<rparr>))\<lparr>sm_processingIndividually := False, sm_run := []\<rparr>)"
  proof (rule process_writes_sequence)
    show "silent ?e (concat vs @ v) ?s t" using t(1) xs by simp
    show "[] \<notin> set vs" using assms(10) vs by auto
    show "ProcessCharacter ?e final ?t = Inr (EnterGround (?t\<lparr>sm_engine := (sm_engine s)\<lparr>oe_ttyConnection := Some (write_all env
       (case ?k of Some c \<Rightarrow> [c, v @ [final]] | None \<Rightarrow> [v @ [final]]) tty), oe_lastPrintedChar := 0\<rparr>,
       sm_cachedSequence := None\<rparr>))"
      using t(4) d by simp
  qed (use assms(5,6) xs in \<open>simp_all add: char_class output_engine_ops_def oe_ActionPrintString_def EnterGround_def\<close>)
  moreover have "(case ?k of Some c \<Rightarrow> [c, v @ [final]] | None \<Rightarrow> [v @ [final]]) =
      (if length ws = 1 then ws else [concat (butlast ws), last ws])"
    by (subst (1 2 3 4) vs) simp
  ultimately show ?thesis using vs assms(4) t(3) by (simp add: EnterGround_def ready_def)
qed

end
