(* ===== verification/Parser_Spec.thy ===== *)
theory Parser_Spec
  imports Output_Stream Output_Passthrough
begin

text \<open>
  The properties of the parser with the output engine (\<^verbatim>\<open>StateMachine\<close> and
  \<^verbatim>\<open>OutputStateMachineEngine\<close>): it accepts every output, what it does not depend on the way the output is
  cut into writes, each sequence reaches the dispatcher with the numbers and texts it was written with, and
  sequences it does not know reach the terminal behind it unchanged.
\<close>

section \<open>A recording dispatcher\<close>

definition log_calls :: "dispatch_call \<Rightarrow> dispatch_call list" where
  "log_calls c = (case c of PrintString str \<Rightarrow> map Print str | _ \<Rightarrow> [c])"

definition log_env :: "(dispatch_call list, wstring) oe_env" where
  "log_env =
     \<lparr>dispatch = (\<lambda>c mode calls. (True, mode, calls @ log_calls c)),
      WriteTerminalW = (\<lambda>str tty. (True, tty @ str)),
      u8u16 = (\<lambda>bs. Some (map ucast bs))\<rparr>"

lemma log_env_laws: "prints_piecewise log_env" "write_ok log_env"
  by (simp_all add: log_env_def prints_piecewise_def write_ok_def log_calls_def)

definition log_machine :: "(dispatch_call list, wstring) oe_machine" where
  "log_machine = StateMachine (output_engine_ops log_env) (OutputStateMachineEngine [])"

definition tty_machine :: "(dispatch_call list, wstring) oe_machine" where
  "tty_machine = StateMachine (output_engine_ops log_env) (SetTerminalConnection (Some []) True (OutputStateMachineEngine []))"

lemma StateMachine_fields:
  "sm_engine (StateMachine (output_engine_ops env) e) = e" "ready (StateMachine (output_engine_ops env) e)"
  "\<not> sm_processingIndividually (StateMachine (output_engine_ops env) e)"
  "sm_cachedSequence (StateMachine (output_engine_ops env) e) = None"
  "sm_dcsStringHandler (StateMachine (output_engine_ops env) e) = None"
  by (simp_all add: StateMachine_def sm_ActionClear_def output_engine_ops_def oe_ActionClear_def ready_def)

lemma quiet_StateMachine: "quiet e \<Longrightarrow> ok_machine quiet (StateMachine (output_engine_ops env) e)"
  by (simp add: ok_machine_def StateMachine_fields)

lemma log_machine_ok: "ok_machine quiet log_machine" "ready log_machine" "\<not> sm_processingIndividually log_machine"
  by (simp_all add: log_machine_def StateMachine_fields quiet_StateMachine quiet_def OutputStateMachineEngine_def)

lemma log_facts:
  "dispatch log_env c mode calls = (True, mode, calls @ log_calls c)"
  "log_calls c = (case c of PrintString str \<Rightarrow> map Print str | _ \<Rightarrow> [c])"
  "sm_engine log_machine = OutputStateMachineEngine []" "oe_dispatch (OutputStateMachineEngine d) = d"
  by (simp_all add: log_env_def log_calls_def log_machine_def StateMachine_fields OutputStateMachineEngine_def)

section \<open>Cutting the output into writes\<close>

lemma sim_result_core: "sim_result ok x y \<Longrightarrow> map_sum id core x = map_sum id core y"
  by (cases x; cases y) (simp_all add: sim_def)

lemma writes_same_core:
  assumes "prints_piecewise env" "ok_machine quiet s" "concat ws = concat ws'"
  shows "map_sum id core (process_writes (output_engine_ops env) ws s) =
    map_sum id core (process_writes (output_engine_ops env) ws' s)"
proof -
  have w: "sim_result quiet (process_writes (output_engine_ops env) vs s) (stream (output_engine_ops env) (concat vs) s)" for vs
    by (rule oes.process_writes_stream [OF print_compositional_output [OF assms(1)] sim_refl [OF assms(2)]])
  show ?thesis using sim_result_core [OF w [of ws]] sim_result_core [OF w [of ws']] assms(3) by simp
qed

text \<open>A machine reached by writes, up to the run and the cached sequence, from the stream.\<close>

lemma writes_stream:
  assumes "prints_piecewise env" "ok_machine quiet s" "stream (output_engine_ops env) (concat ws) s = Inr t"
  shows "\<exists>s'. process_writes (output_engine_ops env) ws s = Inr s' \<and> sim quiet s' t"
  using oes.process_writes_stream [OF print_compositional_output [OF assms(1)] sim_refl [OF assms(2)], of ws] assms(3)
  by (cases "process_writes (output_engine_ops env) ws s") auto

section \<open>Sequences\<close>

definition csi_number :: "nat list \<Rightarrow> size_t" where
  "csi_number ds = (if decimal ds = 0 then 1 else of_nat (min 32767 (decimal ds)))"

lemma oe_enter:
  "sm_engine (EnterEscape (output_engine_ops env) s) = sm_engine s"
  "sm_engine (EnterCsiEntry (output_engine_ops env) s) = sm_engine s"
  by (simp_all add: EnterEscape_def EnterCsiEntry_def sm_ActionClear_def output_engine_ops_def oe_ActionClear_def)

lemma writes_csi:
  assumes "prints_piecewise env" "ok_machine quiet s" "ready s" "csi_ok marker ps ims final"
    and "concat ws = csi_text marker ps ims final"
  shows "\<exists>s'. process_writes (output_engine_ops env) ws s = Inr s' \<and> sm_state s' = Ground
    \<and> \<not> sm_processingIndividually s' \<and> ok_machine quiet s'
    \<and> alike (snd (oe_ActionCsiDispatch env (Finalize final (builder_of (marker @ ims))) (parsed_params ps) s)) s'"
proof -
  let ?d = "oe_ActionCsiDispatch env (Finalize final (builder_of (marker @ ims))) (parsed_params ps)"
  obtain t where t: "stream (output_engine_ops env) (concat ws) s =
      Inr ((EnterGround (snd (?d t)))\<lparr>sm_processingIndividually := False\<rparr>)" "sm_engine t = sm_engine s" "sm_isInAnsiMode t"
    using oe.stream_csi [OF assms(3,4), of env] assms(5) by (auto simp: output_engine_ops_def oe_enter [unfolded output_engine_ops_def])
  obtain s' where s': "process_writes (output_engine_ops env) ws s = Inr s'"
      "sim quiet s' ((EnterGround (snd (?d t)))\<lparr>sm_processingIndividually := False\<rparr>)"
    using writes_stream [OF assms(1,2) t(1)] by blast
  have "alike s t" using t(2,3) assms(2,3) by (simp add: alike_def ready_def ok_machine_def)
  then have "alike (snd (?d s)) (snd (?d t))"
    unfolding oe_ActionCsiDispatch_def by (intro agree_snd agree_flush_and_clear agree_csi_switch)
  then show ?thesis
    using s' sim_fields [OF s'(2)] by (simp add: alike_def EnterGround_def sim_def)
qed

lemma writes_osc:
  assumes "prints_piecewise env" "ok_machine quiet s" "ready s" "osc_ok ds str ts" "concat ws = osc_text ds str ts"
  shows "\<exists>s'. process_writes (output_engine_ops env) ws s = Inr s' \<and> sm_state s' = Ground
    \<and> \<not> sm_processingIndividually s' \<and> ok_machine quiet s'
    \<and> alike (snd (oe_ActionOscDispatch env 0 (of_nat (min 32767 (decimal ds))) str s)) s'"
proof -
  let ?d = "oe_ActionOscDispatch env 0 (of_nat (min 32767 (decimal ds))) str"
  obtain t where t: "stream (output_engine_ops env) (concat ws) s =
      Inr ((EnterGround (snd (?d t)))\<lparr>sm_processingIndividually := False\<rparr>)" "sm_engine t = sm_engine s" "sm_isInAnsiMode t"
    using oe.stream_osc [OF assms(3,4), of env] assms(5)
    by (auto simp: output_engine_ops_def oe_enter [unfolded output_engine_ops_def] oe_ActionOscDispatch_def)
  obtain s' where s': "process_writes (output_engine_ops env) ws s = Inr s'"
      "sim quiet s' ((EnterGround (snd (?d t)))\<lparr>sm_processingIndividually := False\<rparr>)"
    using writes_stream [OF assms(1,2) t(1)] by blast
  have "alike s t" using t(2,3) assms(2,3) by (simp add: alike_def ready_def ok_machine_def)
  then have "alike (snd (?d s)) (snd (?d t))"
    unfolding oe_ActionOscDispatch_def by (intro agree_snd agree_flush_and_clear agree_osc_switch)
  then show ?thesis
    using s' sim_fields [OF s'(2)] by (simp add: alike_def EnterGround_def sim_def)
qed

lemma quiet_flush_and_clear:
  "quiet (sm_engine (snd r)) \<Longrightarrow> flush_and_clear env r = (fst r, ClearLastChar (snd r))"
  by (cases r) (simp add: flush_and_clear_def quiet_def)

lemma quiet_do_call: "quiet (sm_engine (snd (do_call env c s))) = quiet (sm_engine s)"
  by (simp add: do_call_def quiet_def split: prod.splits)

lemma ClearLastChar_engine: "sm_engine (ClearLastChar s) = (sm_engine s)\<lparr>oe_lastPrintedChar := 0\<rparr>"
  "sm_isInAnsiMode (ClearLastChar s) = sm_isInAnsiMode s"
  by (simp_all add: ClearLastChar_def set_lastPrintedChar_def)

lemma alike_call:
  assumes "quiet (sm_engine s)" "alike (snd (flush_and_clear env (do_call env c s))) s'"
  shows "sm_engine s' = (sm_engine (snd (do_call env c s)))\<lparr>oe_lastPrintedChar := 0\<rparr>"
  using assms by (simp add: quiet_flush_and_clear quiet_do_call alike_def ClearLastChar_engine)

text \<open>The parameters of a sequence, as the engine reads them.\<close>

lemma vtp_num_param: "vtp_num (param_of ds) = csi_number ds"
  by (auto simp: vtp_num_def param_of_def csi_number_def has_value_def decimal_def)

lemma vtps_at_parsed:
  "vtps_at (parsed_params ps) i = (if i < length ps \<and> i < 32 then param_of (ps ! i) else vtp_omitted)"
proof (cases "param_text ps = []")
  case True
  then have "ps = [] \<or> ps = [[]]" by (cases ps rule: param_text.cases) auto
  then show ?thesis by (auto simp: parsed_params_def vtps_at_def param_of_def vtp_omitted_def)
next
  case False
  then show ?thesis by (simp add: parsed_params_def vtps_at_def)
qed

lemma vtp_num_omitted: "vtp_num vtp_omitted = 1"
  by (simp add: vtp_num_def vtp_omitted_def has_value_def)

lemma csi_number_range: "1 \<le> unat (csi_number ds)" "unat (csi_number ds) \<le> 32767"
proof -
  have "unat (of_nat (min 32767 (decimal ds)) :: size_t) = min 32767 (decimal ds)" by (rule unat_of_nat_small) simp
  then show "1 \<le> unat (csi_number ds)" "unat (csi_number ds) \<le> 32767" by (auto simp: csi_number_def)
qed

lemma wstr_find_append:
  assumes "ch \<notin> set xs"
  shows "wstr_find ch (xs @ ch # ys) 0 = Some (length xs)"
proof -
  have "takeWhile (\<lambda>c. c \<noteq> ch) xs = xs" using assms by (auto simp: takeWhile_eq_all_conv)
  then show ?thesis by (simp add: wstr_find_def)
qed

lemma encoding_osc_chars:
  assumes "list_all (\<lambda>c. c < 256) src" "s_Encode src = Some enc"
  shows "\<forall>c \<in> set enc. osc_char c" "0x3F \<notin> set enc"
proof -
  have "list_all (\<lambda>c. osc_char c \<and> c \<noteq> 0x3F) (padChar # base64Chars)"
    by (simp add: base64Chars_def padChar_def wide_def osc_char_def char_class)
  then show "\<forall>c \<in> set enc. osc_char c" "0x3F \<notin> set enc"
    using s_Encode_alphabet [OF assms] by (auto simp: list_all_iff)
qed

lemma packed_nonzero_inject:
  assumes "\<forall>x \<in> set xs. 0 < x \<and> x < 256" "\<forall>x \<in> set ys. 0 < x \<and> x < 256" "packed xs = packed ys"
  shows "xs = ys"
  using assms
proof (induction xs arbitrary: ys)
  case Nil
  then show ?case by (cases ys) auto
next
  case (Cons x xs)
  then obtain y ys' where ys: "ys = y # ys'" by (cases ys) auto
  have "x + 256 * packed xs = y + 256 * packed ys'" "x < 256" "y < 256" using Cons.prems ys by auto
  then have "x = y" by (metis mod_less mod_mult_self2)
  then have "packed xs = packed ys'" using Cons.prems(3) ys by simp
  then show ?case using Cons.IH [of ys'] Cons.prems(1,2) ys \<open>x = y\<close> by simp
qed

lemma print_graphic:
  assumes "xs \<noteq> []" "list_all (\<lambda>c. \<not> isActionableFromGround c) xs"
  shows "snd (oe_ActionPrintString env xs s) = snd (do_call env (PrintString xs) (set_lastPrintedChar (last xs) s))"
  using assms plain_char_graphic [of "last xs"] by (auto simp: oe_ActionPrintString_def Let_def list_all_iff)

lemma stream_text:
  assumes "prints_piecewise env" "ok_machine quiet s" "\<not> sm_processingIndividually s"
    and "list_all (\<lambda>c. \<not> isActionableFromGround c) (xs @ ys)"
  shows "stream (output_engine_ops env) ys (snd (oe_ActionPrintString env xs s)) = Inr (snd (oe_ActionPrintString env (xs @ ys) s))"
  using assms(4)
proof (induction ys arbitrary: xs)
  case (Cons y ys)
  have "stream (output_engine_ops env) (y # ys) (snd (oe_ActionPrintString env xs s)) =
      stream (output_engine_ops env) ys (snd (oe_ActionPrintString env (xs @ [y]) s))"
    using oes.print_step [OF print_compositional_output [OF assms(1)] sim_refl [OF assms(2)] assms(3), of y xs ys] Cons.prems
    by (simp add: output_engine_ops_def)
  then show ?case using Cons.IH [of "xs @ [y]"] Cons.prems by simp
qed simp

lemma writes_text:
  assumes "prints_piecewise env" "ok_machine quiet s" "\<not> sm_processingIndividually s"
    and "list_all (\<lambda>c. \<not> isActionableFromGround c) xs"
  shows "\<exists>t. ProcessString (output_engine_ops env) xs s = Inr t \<and> sim quiet t (snd (oe_ActionPrintString env xs s))"
proof -
  have "stream (output_engine_ops env) xs s = Inr (snd (oe_ActionPrintString env xs s))"
    using stream_text [OF assms(1-3), of "[]" xs] assms(4) by (simp add: oe_ActionPrintString_def)
  then show ?thesis
    using oes.ProcessString_stream [OF print_compositional_output [OF assms(1)] sim_refl [OF assms(2)], of xs]
    by (cases "ProcessString (output_engine_ops env) xs s") auto
qed

lemma writes_ok:
  "\<exists>s. process_writes (output_engine_ops env) ws (StateMachine (output_engine_ops env) e) = Inr s \<and> str_inv s"
  by (rule oe.process_writes_ok [OF _ oe.StateMachine_str_inv]) (simp add: output_engine_ops_def)

section \<open>Properties\<close>

text \<open>C2: The parser accepts every output. Whatever the writes, the dispatcher and the engine's state are, each
  write is processed without an error (no empty run is read and no missing string handler is called), and the
  machine keeps its invariant: at most 32 parameters, in their range, a handler while passing a string through,
  and character by character processing outside of the ground state.\<close>

theorem parser_accepts_every_output:
  "\<exists>s. process_writes (output_engine_ops env) ws (StateMachine (output_engine_ops env) e) = Inr s \<and> str_inv s"
  by (rule writes_ok)

text \<open>C4: Whatever was written before, the numbers that the parser holds are bounded: at most 32 parameters, each
  omitted or between 0 and 65535, and between 0 and 32767 in every control sequence; an OSC number of at most 32767;
  an identifier shift of at most 56 bits, so that no character is shifted out of the 64 bit identifier.\<close>

theorem parser_numbers_bounded:
  "case process_writes (output_engine_ops env) ws (StateMachine (output_engine_ops env) e) of
     Inl err \<Rightarrow> False
   | Inr s \<Rightarrow>
       length (sm_parameters s) \<le> 32
       \<and> list_all (\<lambda>p. - 1 \<le> param_value p
            \<and> param_value p \<le> (if sm_state s \<in> {CsiEntry, CsiParam, CsiIntermediate, Ss3Entry, Ss3Param, DcsEntry,
                 DcsParam, DcsIntermediate} then 32767 else 65535)) (sm_parameters s)
       \<and> unat (sm_oscParameter s) \<le> 32767 \<and> idShift (sm_identifier s) \<le> 56"
proof -
  obtain s where s: "process_writes (output_engine_ops env) ws (StateMachine (output_engine_ops env) e) = Inr s" "str_inv s"
    using writes_ok by blast
  then show ?thesis
    by (auto simp: str_inv_def sm_inv_def params_inv_def param_ok_def param_limit_def list_all_iff
        MAX_PARAMETER_COUNT_def MAX_PARAMETER_VALUE_def word_le_nat_alt split: if_splits)
qed

text \<open>C3: What a program prints does not depend on how it cuts its output into writes. For an engine without a
  terminal behind it, and a dispatcher that prints a text by printing its parts, two lists of writes with the same
  characters lead to the same machine, up to the text of the write in progress.\<close>

theorem writes_may_be_cut_anywhere:
  assumes "prints_piecewise env" and "\<not> oe_flush e" and "concat ws = concat ws'"
  shows "map_sum id core (process_writes (output_engine_ops env) ws (StateMachine (output_engine_ops env) e)) =
    map_sum id core (process_writes (output_engine_ops env) ws' (StateMachine (output_engine_ops env) e))"
  using writes_same_core [OF assms(1) quiet_StateMachine assms(3)] assms(2) by (simp add: quiet_def)

theorem writes_may_be_cut_anywhere_witness:
  "map_sum id core (process_writes (output_engine_ops log_env) [[0x41, 0x1B], [0x5B, 0x34], [0x42, 0x43]]
     (StateMachine (output_engine_ops log_env) (OutputStateMachineEngine []))) =
   map_sum id core (process_writes (output_engine_ops log_env) [[0x41], [0x1B, 0x5B, 0x34, 0x42], [], [0x43]]
     (StateMachine (output_engine_ops log_env) (OutputStateMachineEngine [])))"
  by (rule writes_may_be_cut_anywhere) (simp_all add: log_env_laws OutputStateMachineEngine_def)

text \<open>C5: A control sequence is dispatched once, with the identifier of its marker, intermediates and final
  character and with its parameters in order, however its characters are spread over writes; the parser is back
  in the ground state, and the engine's state is what the dispatch of that sequence gives.\<close>

theorem csi_sequence_is_dispatched:
  assumes "prints_piecewise env" and "ok_machine quiet s" and "ready s" and "csi_ok marker ps ims final"
    and "concat ws = csi_text marker ps ims final"
  shows "\<exists>s'. process_writes (output_engine_ops env) ws s = Inr s' \<and> sm_state s' = Ground \<and>
    sm_engine s' = sm_engine (snd (oe_ActionCsiDispatch env (Finalize final (builder_of (marker @ ims))) (parsed_params ps) s))"
  using writes_csi [OF assms] by (auto simp: alike_def)

theorem csi_sequence_is_dispatched_witness:
  "\<exists>s'. process_writes (output_engine_ops log_env) [[0x1B], [0x5B, 0x31, 0x32, 0x3B], [0x35, 0x48]] log_machine = Inr s'
     \<and> sm_state s' = Ground \<and> oe_dispatch (sm_engine s') = [CursorPosition 12 5]"
proof -
  have "concat [[0x1B], [0x5B, 0x31, 0x32, 0x3B], [0x35, 0x48]] = csi_text [] [[1, 2], [5]] [] 0x48"
    by (simp add: csi_text_def digit_char_def)
  moreover have "csi_ok [] [[1, 2], [5]] [] 0x48" by (simp add: csi_ok_def)
  ultimately obtain s' where s': "process_writes (output_engine_ops log_env) [[0x1B], [0x5B, 0x31, 0x32, 0x3B], [0x35, 0x48]] log_machine = Inr s'"
      "sm_state s' = Ground"
      "sm_engine s' = sm_engine (snd (oe_ActionCsiDispatch log_env (Finalize 0x48 (builder_of ([] @ []))) (parsed_params [[1, 2], [5]]) log_machine))"
    using csi_sequence_is_dispatched [OF log_env_laws(1) log_machine_ok(1,2)] by blast
  have "oe_dispatch (sm_engine s') = [CursorPosition 12 5]"
    unfolding s'(3)
    by (simp add: oe_ActionCsiDispatch_def csi_switch_def Finalize_def builder_of_def vtid_from_string_def do_call_def
        log_env_def log_calls_def log_machine_def StateMachine_fields [unfolded log_env_def] OutputStateMachineEngine_def
        flush_and_clear_def ClearLastChar_def set_lastPrintedChar_def vtps_at_parsed vtp_num_param csi_number_def decimal_def)
  then show ?thesis using s' by blast
qed

text \<open>C6: Setting the clipboard through OSC 52: the base64 encoding of a text of bytes, written behind any selection
  name and with any terminator, spread over writes in any way, makes the engine set the clipboard to the decoded text.\<close>

theorem clipboard_reaches_dispatcher:
  assumes "prints_piecewise env" and "ok_machine quiet s" and "ready s"
    and "src \<noteq> []" and "list_all (\<lambda>c. c < 256) src" and "list_all osc_char sel" and "0x3B \<notin> set sel"
    and "osc_terminator ts" and "s_Encode src = Some enc" and "u8u16 env (bytes src) = Some content"
    and "concat ws = osc_text [5, 2] (sel @ 0x3B # enc) ts"
  shows "\<exists>s'. process_writes (output_engine_ops env) ws s = Inr s' \<and> sm_state s' = Ground \<and>
    sm_engine s' = (sm_engine (snd (do_call env (SetClipboard content) s)))\<lparr>oe_lastPrintedChar := 0\<rparr>"
proof -
  have "osc_ok [5, 2] (sel @ 0x3B # enc) ts"
    using assms(6,8) encoding_osc_chars [OF assms(5,9)] by (auto simp: osc_ok_def list_all_iff osc_char_def char_class)
  then obtain s' where s': "process_writes (output_engine_ops env) ws s = Inr s'" "sm_state s' = Ground"
      "alike (snd (oe_ActionOscDispatch env 0 (of_nat (min 32767 (decimal [5, 2]))) (sel @ 0x3B # enc) s)) s'"
    using writes_osc [OF assms(1-3) _ assms(11)] by blast
  have "wstr_find 0x3B (sel @ 0x3B # enc) 0 = Some (length sel)"
    using assms(7) by (rule wstr_find_append)
  moreover have "enc \<noteq> wide ''?''"
    using encoding_osc_chars(2) [OF assms(5,9)] by (auto simp: wide_def)
  moreover have "s_Decode (u8u16 env) enc = Some content"
    using s_Decode_s_Encode [OF assms(4,5), of "u8u16 env"] assms(9,10) by simp
  ultimately have "GetOscSetClipboard env (sel @ 0x3B # enc) = (True, content, False)"
    by (simp add: GetOscSetClipboard_def)
  then have "alike (snd (flush_and_clear env (do_call env (SetClipboard content) s))) s'"
    using s'(3) by (simp add: oe_ActionOscDispatch_def osc_switch_def decimal_def)
  from alike_call [OF _ this] show ?thesis using s'(1,2) assms(2) by (auto simp: ok_machine_def)
qed

theorem clipboard_reaches_dispatcher_witness:
  "\<exists>s'. process_writes (output_engine_ops log_env)
       [[0x1B], 0x5D # wide ''52;c;S'', wide ''Gk'', wide ''='', [0x07]] log_machine = Inr s'
     \<and> oe_dispatch (sm_engine s') = [SetClipboard (wide ''Hi'')]"
proof -
  have enc: "s_Encode (wide ''Hi'') = Some (wide ''SGk='')" by code_simp
  have bytes: "u8u16 log_env (bytes (wide ''Hi'')) = Some (wide ''Hi'')"
    by (simp add: log_env_def bytes_def wide_def)
  have ws: "concat [[0x1B], 0x5D # wide ''52;c;S'', wide ''Gk'', wide ''='', [0x07]] =
      osc_text [5, 2] ([0x63] @ 0x3B # wide ''SGk='') [0x07]"
    by (simp add: osc_text_def wide_def digit_char_def)
  obtain s' where s': "process_writes (output_engine_ops log_env)
       [[0x1B], 0x5D # wide ''52;c;S'', wide ''Gk'', wide ''='', [0x07]] log_machine = Inr s'"
      "sm_engine s' = (sm_engine (snd (do_call log_env (SetClipboard (wide ''Hi'')) log_machine)))\<lparr>oe_lastPrintedChar := 0\<rparr>"
    using clipboard_reaches_dispatcher [OF log_env_laws(1) log_machine_ok(1,2) _ _ _ _ _ enc bytes ws]
    by (auto simp: wide_def osc_char_def char_class osc_terminator_def)
  then show ?thesis by (auto simp: do_call_def log_facts)
qed


text \<open>C7: A control sequence that the engine does not know reaches the terminal behind it unchanged and in one piece of
  the order it was written in: written at once it is passed on as it is, and spread over several writes its earlier
  writes are passed on first, then the last one. The parser is ready for the next sequence.\<close>

theorem unknown_sequence_is_passed_through:
  assumes "write_ok env" and "oe_ttyConnection (sm_engine s) = Some tty" and "oe_flush (sm_engine s)"
    and "ready s" and "\<not> sm_processingIndividually s" and "sm_cachedSequence s = None"
    and "csi_ok marker ps ims final" and "Finalize final (builder_of (marker @ ims)) \<notin> set csi_ids"
    and "concat ws = csi_text marker ps ims final" and "[] \<notin> set ws"
  shows "\<exists>s'. process_writes (output_engine_ops env) ws s = Inr s' \<and> ready s' \<and>
    sm_engine s' = (sm_engine s)\<lparr>oe_ttyConnection := Some (write_all env
       (if length ws = 1 then ws else [concat (butlast ws), last ws]) tty), oe_lastPrintedChar := 0\<rparr>"
  by (rule unknown_csi_passthrough [OF assms])

theorem unknown_sequence_is_passed_through_witness:
  "\<exists>s'. process_writes (output_engine_ops log_env) [[0x1B, 0x5B, 0x3F], [0x34], [0x32, 0x76]] tty_machine = Inr s'
     \<and> oe_ttyConnection (sm_engine s') = Some [0x1B, 0x5B, 0x3F, 0x34, 0x32, 0x76] \<and> oe_dispatch (sm_engine s') = []"
proof -
  let ?ws = "[[0x1B, 0x5B, 0x3F], [0x34], [0x32, 0x76]] :: wstring list"
  have t: "sm_engine tty_machine = SetTerminalConnection (Some []) True (OutputStateMachineEngine [])" "ready tty_machine"
    "\<not> sm_processingIndividually tty_machine" "sm_cachedSequence tty_machine = None"
    by (simp_all add: tty_machine_def StateMachine_fields)
  have unknown: "Finalize 0x76 (builder_of ([0x3F] @ [])) \<notin> set csi_ids"
    by (simp add: csi_ids_def Finalize_def builder_of_def AddIntermediate_def vtid_from_string_def)
  have "\<exists>s'. process_writes (output_engine_ops log_env) ?ws tty_machine = Inr s' \<and> ready s' \<and>
    sm_engine s' = (sm_engine tty_machine)\<lparr>oe_ttyConnection := Some (write_all log_env
       (if length ?ws = 1 then ?ws else [concat (butlast ?ws), last ?ws]) []), oe_lastPrintedChar := 0\<rparr>"
    by (rule unknown_sequence_is_passed_through [OF log_env_laws(2) _ _ t(2-4) _ unknown, of "[]" "[[4, 2]]"])
      (simp_all add: t(1) SetTerminalConnection_def csi_ok_def csi_text_def digit_char_def char_class)
  then show ?thesis
    by (auto simp: t(1) write_all_def log_env_def SetTerminalConnection_def OutputStateMachineEngine_def)
qed

text \<open>C8: The characters CAN and SUB abort whatever sequence is in progress: from every state of the parser other than
  the pass-through of a device control string, one of them, written at any time, takes the parser to the ground state,
  hands just the character itself to the dispatcher, and leaves nothing to be repeated.\<close>

theorem cancel_aborts_sequence:
  assumes "sm_state s \<noteq> DcsPassThrough" and "c = 0x18 \<or> c = 0x1A"
  shows "\<exists>s'. ProcessString (output_engine_ops env) [c] s = Inr s' \<and> sm_state s' = Ground
    \<and> \<not> sm_processingIndividually s'
    \<and> sm_engine s' = (sm_engine (snd (do_call env (Print c) s)))\<lparr>oe_lastPrintedChar := 0\<rparr>"
proof -
  let ?e = "output_engine_ops env"
  let ?s = "s\<lparr>sm_processingIndividually := True\<rparr>"
  let ?t = "with_text [c] (sm_cachedSequence s) ?s"
  let ?u = "EnterGround (ClearLastChar (snd (do_call env (Print c) ?t)))"
  have "snd (oe_ActionExecute env c ?t) = ClearLastChar (snd (do_call env (Print c) ?t))"
    using assms(2) by (auto simp: oe_ActionExecute_def Let_def)
  then have "ProcessCharacter ?e c ?t = Inr ?u"
    using assms(1,2) by (subst ProcessCharacter.simps)
      (auto simp: Let_def sm_ActionInterrupt_def sm_ActionExecute_def output_engine_ops_def)
  then have run: "ProcessString ?e [c] (with_text r (sm_cachedSequence s) ?s) =
      Inr (?u\<lparr>sm_processingIndividually := False, sm_run := []\<rparr>)" for r
    using ProcessString_last [OF silent_Nil, of ?s ?e c "sm_cachedSequence s" ?u r] by (simp add: EnterGround_def)
  have "ProcessString ?e [c] s = Inr (?u\<lparr>sm_processingIndividually := False, sm_run := []\<rparr>)"
  proof (cases "sm_processingIndividually s")
    case True
    then have "s = with_text (sm_run s) (sm_cachedSequence s) ?s" by (cases s) (simp add: with_text_def)
    then show ?thesis using run [of "sm_run s"] by (simp only:)
  next
    case False
    have "s\<lparr>sm_run := [c], sm_processingIndividually := True\<rparr> = ?t" by (cases s) (simp add: with_text_def)
    moreover have "ProcessString ?e [c] s = ProcessString ?e [c] (s\<lparr>sm_run := [c], sm_processingIndividually := True\<rparr>)"
      by (rule ProcessString_start)
        (use False assms(2) in \<open>auto simp: output_engine_ops_def oe_ActionPrintString_def char_class\<close>)
    ultimately show ?thesis using run [of "[c]"] by (simp only:)
  qed
  then show ?thesis
    by (simp add: EnterGround_def do_call_def ClearLastChar_def set_lastPrintedChar_def split: prod.splits)
qed

theorem cancel_aborts_sequence_witness:
  "\<exists>s'. ProcessString (output_engine_ops log_env) [0x18] (log_machine\<lparr>sm_state := OscString, sm_processingIndividually := True\<rparr>) = Inr s'
    \<and> sm_state s' = Ground \<and> oe_dispatch (sm_engine s') = [Print 0x18]"
  using cancel_aborts_sequence [of "log_machine\<lparr>sm_state := OscString, sm_processingIndividually := True\<rparr>" "0x18" log_env]
  by (auto simp: do_call_def log_facts)

text \<open>C16: Identifiers of sequences are unambiguous: two sequences of at most seven intermediates, made of characters
  from 1 to 255, have the same identifier only when they are the same, and the identifier of a sequence is the one that
  the engine's tables compute from the text of the same characters.\<close>

theorem vtid_unambiguous:
  assumes "length is < 8" and "length js < 8"
    and "\<forall>x \<in> set (is @ [c]). 0 < x \<and> x < 256" and "\<forall>x \<in> set (js @ [d]). 0 < x \<and> x < 256"
  shows "Finalize c (builder_of is) = Finalize d (builder_of js) \<longleftrightarrow> is @ [c] = js @ [d]"
proof
  let ?p = "packed (map unat (is @ [c]))" and ?q = "packed (map unat (js @ [d]))"
  assume "Finalize c (builder_of is) = Finalize d (builder_of js)"
  then have eq: "(of_nat ?p :: VTID) = of_nat ?q" by (simp only: Finalize_short [OF assms(1)] Finalize_short [OF assms(2)])
  have r: "\<forall>x \<in> set (map unat (is @ [c])). 0 < x \<and> x < 256" "\<forall>x \<in> set (map unat (js @ [d])). 0 < x \<and> x < 256"
    using assms(3,4) by (auto simp: word_less_nat_alt unat_gt_0 word_neq_0_conv [symmetric])
  have "?p < 2 ^ 64" "?q < 2 ^ 64" using packed_lt_word r assms(1,2) by auto
  moreover have "unat (of_nat n :: VTID) = n" if "n < 2 ^ 64" for n
    using that by (simp add: unsigned_of_nat take_bit_nat_eq_self)
  ultimately have "?p = ?q" using arg_cong [OF eq, of unat] by metis
  then have "map unat (is @ [c]) = map unat (js @ [d])" by (rule packed_nonzero_inject [OF r])
  then show "is @ [c] = js @ [d]" by (rule map_injective) (auto intro: injI unsigned_word_eqI)
qed (simp add: assms Finalize_short)

theorem vtid_unambiguous_witness:
  "Finalize 0x68 (builder_of [0x3F]) \<noteq> Finalize 0x6C (builder_of [0x3F])"
  using vtid_unambiguous [of "[0x3F]" "[0x3F]" "0x68" "0x6C"] by simp

text \<open>C17: Overlong identifiers are never taken for a known one: with eight or more intermediates the engine handles no
  control sequence.\<close>

theorem overlong_identifier_unhandled:
  assumes "8 \<le> length is"
  shows "csi_switch env (Finalize c (builder_of is)) ps s = (False, s)"
proof (rule csi_switch_unknown)
  have "take_bit 8 (Finalize c (builder_of is)) = 0"
    by (simp add: Finalize_def builder_of_overflow [OF assms] take_bit_push_bit)
  moreover have "list_all (\<lambda>i. take_bit 8 i \<noteq> 0) csi_ids"
    by (simp add: csi_ids_def vtid_from_string_def take_bit_word_eq_self)
  ultimately show "Finalize c (builder_of is) \<notin> set csi_ids" by (auto simp: list_all_iff)
qed

theorem overlong_identifier_unhandled_witness:
  "csi_switch log_env (Finalize 0x48 (builder_of (replicate 8 0x20))) [] log_machine = (False, log_machine)"
  using overlong_identifier_unhandled [of "replicate 8 0x20"] by simp


text \<open>C9: REP repeats the last printed character: a text of printable characters followed by \<^verbatim>\<open>CSI n b\<close> prints the text
  and then its last character as often as the number says (once for an omitted or zero number, at most 32767 times),
  however the characters are spread over writes.\<close>

theorem repeat_character:
  assumes "prints_piecewise env" and "ok_machine quiet s" and "ready s" and "\<not> sm_processingIndividually s"
    and "xs \<noteq> []" and "list_all (\<lambda>c. \<not> isActionableFromGround c) xs" and "list_all (\<lambda>d. d < 10) ds"
    and "sm_isInAnsiMode (snd (do_call env (PrintString xs) s))"
    and "concat ws = xs @ csi_text [] [ds] [] 0x62"
  shows "\<exists>s'. process_writes (output_engine_ops env) ws s = Inr s' \<and>
    sm_engine s' = (sm_engine (snd (do_call env (PrintString (replicate (unat (csi_number ds)) (last xs)))
      (snd (do_call env (PrintString xs) s)))))\<lparr>oe_lastPrintedChar := 0\<rparr>"
proof -
  let ?e = "output_engine_ops env"
  let ?p = "snd (oe_ActionPrintString env xs s)"
  obtain t where t: "ProcessString ?e xs s = Inr t" "sim quiet t ?p" using writes_text [OF assms(1,2,4,6)] by blast
  have p: "sm_engine ?p = (sm_engine (snd (do_call env (PrintString xs) s)))\<lparr>oe_lastPrintedChar := last xs\<rparr>"
      "sm_isInAnsiMode ?p = sm_isInAnsiMode (snd (do_call env (PrintString xs) s))" "sm_state ?p = sm_state s"
    using print_graphic [OF assms(5,6), of env s] by (simp_all add: do_call_def set_lastPrintedChar_def split: prod.splits)
  have "sm_engine t = sm_engine ?p" "sm_isInAnsiMode t = sm_isInAnsiMode ?p" "sm_state t = sm_state ?p"
    using sim_fields [OF t(2)] by simp_all
  note tp = this
  have "ready t" using tp p assms(3,8) by (simp add: ready_def)
  moreover have "ok_machine quiet t" using t(2) by (simp add: sim_def)
  moreover have "csi_ok [] [ds] [] 0x62" using assms(7) by (simp add: csi_ok_def)
  ultimately obtain u where u: "process_writes ?e [csi_text [] [ds] [] 0x62] t = Inr u"
      "alike (snd (oe_ActionCsiDispatch env (Finalize 0x62 (builder_of [])) (parsed_params [ds]) t)) u"
    using writes_csi [OF assms(1) \<open>ok_machine quiet t\<close>, of "[]" "[ds]" "[]" "0x62" "[csi_text [] [ds] [] 0x62]"] by auto
  have "last xs \<noteq> 0" using plain_char_graphic [of "last xs"] assms(5,6) by (auto simp: list_all_iff)
  then have "csi_switch env (Finalize 0x62 (builder_of [])) (parsed_params [ds]) t =
      (True, snd (do_call env (PrintString (replicate (unat (csi_number ds)) (last xs))) t))"
    using tp(1) p(1)
    by (simp add: csi_switch_def Finalize_def builder_of_def vtid_from_string_def vtps_at_parsed vtp_num_param)
  then have "sm_engine u = (sm_engine (snd (do_call env (PrintString (replicate (unat (csi_number ds)) (last xs))) t)))
      \<lparr>oe_lastPrintedChar := 0\<rparr>"
    using u(2) \<open>ok_machine quiet t\<close>
    by (simp add: oe_ActionCsiDispatch_def quiet_flush_and_clear quiet_do_call alike_def ClearLastChar_engine ok_machine_def)
  moreover have "sm_engine (snd (do_call env c t)) =
      (sm_engine (snd (do_call env c (snd (do_call env (PrintString xs) s)))))\<lparr>oe_lastPrintedChar := last xs\<rparr>" for c
    using tp p by (simp add: do_call_def split: prod.splits)
  moreover have "process_writes ?e [xs, csi_text [] [ds] [] 0x62] s = Inr u" using t(1) u(1) by simp
  then have "map_sum id core (process_writes ?e ws s) = Inr (core u)"
    using writes_same_core [OF assms(1,2), of ws "[xs, csi_text [] [ds] [] 0x62]"] assms(9) by simp
  then obtain s' where "process_writes ?e ws s = Inr s'" "core s' = core u"
    by (cases "process_writes ?e ws s") auto
  ultimately show ?thesis using core_fields(1) [of s' u] by simp
qed

theorem repeat_character_witness:
  "\<exists>s'. process_writes (output_engine_ops log_env) [wide ''ab'', [0x1B, 0x5B, 0x33], wide ''b''] log_machine = Inr s'
    \<and> oe_dispatch (sm_engine s') = [Print 0x61, Print 0x62, Print 0x62, Print 0x62, Print 0x62]"
proof -
  have m: "sm_isInAnsiMode (snd (do_call log_env (PrintString (wide ''ab'')) log_machine))"
    using log_machine_ok(2) by (simp add: do_call_def log_facts ready_def)
  have ws: "concat [wide ''ab'', [0x1B, 0x5B, 0x33], wide ''b''] = wide ''ab'' @ csi_text [] [[3]] [] 0x62"
    by (simp add: csi_text_def wide_def digit_char_def)
  obtain s' where "process_writes (output_engine_ops log_env) [wide ''ab'', [0x1B, 0x5B, 0x33], wide ''b''] log_machine = Inr s'"
      "sm_engine s' = (sm_engine (snd (do_call log_env (PrintString (replicate (unat (csi_number [3])) (last (wide ''ab''))))
        (snd (do_call log_env (PrintString (wide ''ab'')) log_machine)))))\<lparr>oe_lastPrintedChar := 0\<rparr>"
    using repeat_character [OF log_env_laws(1) log_machine_ok(1,2,3) _ _ _ m ws] by (auto simp: wide_def char_class)
  then show ?thesis
    by (auto simp: do_call_def log_facts wide_def csi_number_def decimal_def replicate_numeral)
qed


end
