(* ===== verification/Text_Attribute.thy ===== *)
theory Text_Attribute
  imports Color_Tables Prelude
begin

text \<open>
  \<^verbatim>\<open>TextColor\<close> and \<^verbatim>\<open>TextAttribute\<close> (\<^verbatim>\<open>buffer/out/TextColor.h, TextColor.cpp, TextAttribute.hpp,
  TextAttribute.cpp\<close>): the colours and renditions of a cell, with the flag words of the console interface.
  The lemmas give the value of every query after every setter.
\<close>

unbundle bit_operations_syntax

section \<open>Flags\<close>

text \<open>\<^verbatim>\<open>WI_IsFlagSet\<close>, \<^verbatim>\<open>WI_UpdateFlag\<close> and \<^verbatim>\<open>WI_ToggleFlag\<close>, for flags of one bit.\<close>

definition WI_IsFlagSet :: "'w::len word \<Rightarrow> 'w word \<Rightarrow> bool" where
  "WI_IsFlagSet val flag \<longleftrightarrow> val AND flag \<noteq> 0"

definition WI_UpdateFlag :: "'w::len word \<Rightarrow> 'w word \<Rightarrow> bool \<Rightarrow> 'w word" where
  "WI_UpdateFlag val flag isFlagSet = (if isFlagSet then val OR flag else val AND NOT flag)"

definition WI_ToggleFlag :: "'w::len word \<Rightarrow> 'w word \<Rightarrow> 'w word" where
  "WI_ToggleFlag val flag = val XOR flag"

text \<open>Console attributes, as the Windows console interface defines them.\<close>

abbreviation (input) FOREGROUND_BLUE :: "'w::len word" where "FOREGROUND_BLUE \<equiv> 0x0001"
abbreviation (input) FOREGROUND_GREEN :: "'w::len word" where "FOREGROUND_GREEN \<equiv> 0x0002"
abbreviation (input) FOREGROUND_RED :: "'w::len word" where "FOREGROUND_RED \<equiv> 0x0004"
abbreviation (input) FOREGROUND_INTENSITY :: "'w::len word" where "FOREGROUND_INTENSITY \<equiv> 0x0008"
abbreviation (input) COMMON_LVB_LEADING_BYTE :: "16 word" where "COMMON_LVB_LEADING_BYTE \<equiv> 0x0100"
abbreviation (input) COMMON_LVB_TRAILING_BYTE :: "16 word" where "COMMON_LVB_TRAILING_BYTE \<equiv> 0x0200"
abbreviation (input) COMMON_LVB_SBCSDBCS :: "16 word" where "COMMON_LVB_SBCSDBCS \<equiv> 0x0300"
abbreviation (input) COMMON_LVB_GRID_HORIZONTAL :: "16 word" where "COMMON_LVB_GRID_HORIZONTAL \<equiv> 0x0400"
abbreviation (input) COMMON_LVB_GRID_LVERTICAL :: "16 word" where "COMMON_LVB_GRID_LVERTICAL \<equiv> 0x0800"
abbreviation (input) COMMON_LVB_GRID_RVERTICAL :: "16 word" where "COMMON_LVB_GRID_RVERTICAL \<equiv> 0x1000"
abbreviation (input) COMMON_LVB_REVERSE_VIDEO :: "16 word" where "COMMON_LVB_REVERSE_VIDEO \<equiv> 0x4000"
abbreviation (input) COMMON_LVB_UNDERSCORE :: "16 word" where "COMMON_LVB_UNDERSCORE \<equiv> 0x8000"

definition FG_ATTRS :: "16 word" where "FG_ATTRS = 0x000F"
definition BG_ATTRS :: "16 word" where "BG_ATTRS = 0x00F0"
definition META_ATTRS :: "16 word" where
  "META_ATTRS = COMMON_LVB_LEADING_BYTE OR COMMON_LVB_TRAILING_BYTE OR COMMON_LVB_GRID_HORIZONTAL OR
     COMMON_LVB_GRID_LVERTICAL OR COMMON_LVB_GRID_RVERTICAL OR COMMON_LVB_REVERSE_VIDEO OR COMMON_LVB_UNDERSCORE"

text \<open>\<^verbatim>\<open>ExtendedAttributes\<close>.\<close>

abbreviation (input) ExtNormal :: "8 word" where "ExtNormal \<equiv> 0x00"
abbreviation (input) ExtBold :: "8 word" where "ExtBold \<equiv> 0x01"
abbreviation (input) ExtItalics :: "8 word" where "ExtItalics \<equiv> 0x02"
abbreviation (input) ExtBlinking :: "8 word" where "ExtBlinking \<equiv> 0x04"
abbreviation (input) ExtInvisible :: "8 word" where "ExtInvisible \<equiv> 0x08"
abbreviation (input) ExtCrossedOut :: "8 word" where "ExtCrossedOut \<equiv> 0x10"
abbreviation (input) ExtUnderlined :: "8 word" where "ExtUnderlined \<equiv> 0x20"
abbreviation (input) ExtDoublyUnderlined :: "8 word" where "ExtDoublyUnderlined \<equiv> 0x40"
abbreviation (input) ExtFaint :: "8 word" where "ExtFaint \<equiv> 0x80"

section \<open>Colours of text\<close>

text \<open>\<open>tc_red\<close> is the union of \<^verbatim>\<open>_red\<close> and \<^verbatim>\<open>_index\<close>.\<close>

datatype ColorType = IsIndex256 | IsIndex16 | IsDefault | IsRgb

record TextColor =
  tc_meta :: ColorType
  tc_red :: "8 word"
  tc_green :: "8 word"
  tc_blue :: "8 word"

definition GetRValue :: "COLORREF \<Rightarrow> 8 word" where "GetRValue rgb = ucast rgb"
definition GetGValue :: "COLORREF \<Rightarrow> 8 word" where "GetGValue rgb = ucast (drop_bit 8 rgb)"
definition GetBValue :: "COLORREF \<Rightarrow> 8 word" where "GetBValue rgb = ucast (drop_bit 16 rgb)"

definition RGB :: "8 word \<Rightarrow> 8 word \<Rightarrow> 8 word \<Rightarrow> COLORREF" where
  "RGB r g b = ucast r OR push_bit 8 (ucast g) OR push_bit 16 (ucast b)"

definition tc_Default :: TextColor where
  "tc_Default = \<lparr>tc_meta = IsDefault, tc_red = 0, tc_green = 0, tc_blue = 0\<rparr>"

definition tc_Index :: "8 word \<Rightarrow> bool \<Rightarrow> TextColor" where
  "tc_Index index isIndex256 =
     \<lparr>tc_meta = (if isIndex256 then IsIndex256 else IsIndex16), tc_red = index, tc_green = 0, tc_blue = 0\<rparr>"

definition tc_Rgb :: "COLORREF \<Rightarrow> TextColor" where
  "tc_Rgb rgb = \<lparr>tc_meta = IsRgb, tc_red = GetRValue rgb, tc_green = GetGValue rgb, tc_blue = GetBValue rgb\<rparr>"

definition CompressedRgbToIndex16 :: "8 word list" where
  "CompressedRgbToIndex16 =
     [0, 1, 1, 9, 0, 0, 1, 1, 2, 1, 1, 1, 2, 8, 1, 9, 2, 2, 3, 3, 2, 2, 11, 3, 10, 10, 11, 11, 10, 10, 10, 11,
      0, 5, 1, 1, 0, 0, 1, 1, 8, 1, 1, 1, 2, 8, 1, 9, 2, 2, 3, 3, 2, 2, 11, 3, 10, 10, 10, 11, 10, 10, 10, 11,
      5, 5, 5, 1, 4, 5, 1, 1, 8, 8, 1, 9, 2, 8, 9, 9, 2, 2, 3, 3, 2, 2, 11, 3, 10, 10, 11, 11, 10, 10, 10, 11,
      4, 5, 5, 1, 4, 5, 5, 1, 8, 5, 5, 1, 8, 8, 9, 9, 2, 2, 8, 9, 10, 2, 11, 3, 10, 10, 11, 11, 10, 10, 10, 11,
      4, 13, 5, 5, 4, 13, 5, 5, 4, 13, 13, 13, 6, 8, 13, 9, 6, 8, 8, 9, 10, 10, 11, 3, 10, 10, 11, 11, 10, 10, 10, 11,
      4, 13, 13, 13, 4, 13, 13, 13, 4, 12, 13, 13, 6, 12, 13, 13, 6, 6, 8, 9, 6, 6, 7, 7, 10, 14, 14, 7, 10, 10, 14, 11,
      4, 12, 13, 13, 4, 12, 13, 13, 4, 12, 13, 13, 6, 12, 12, 13, 6, 6, 12, 7, 6, 6, 7, 7, 6, 14, 14, 7, 14, 14, 14, 15,
      12, 12, 13, 13, 12, 12, 13, 13, 12, 12, 12, 13, 12, 12, 12, 13, 6, 12, 12, 7, 6, 6, 7, 7, 6, 14, 14, 7, 14, 14, 14, 15]"

definition Index256ToIndex16 :: "8 word list" where
  "Index256ToIndex16 =
     [0, 1, 2, 3, 4, 5, 6, 7, 8, 9, 10, 11, 12, 13, 14, 15, 0, 1, 1, 1, 9, 9, 2, 1, 1, 1, 1, 1, 2, 2, 3, 3,
      3, 3, 2, 2, 11, 11, 3, 3, 10, 10, 11, 11, 11, 11, 10, 10, 10, 10, 11, 11, 5, 5, 5, 5, 1, 1, 8, 8, 1, 1, 9, 9,
      2, 2, 3, 3, 3, 3, 2, 2, 11, 11, 3, 3, 10, 10, 11, 11, 11, 11, 10, 10, 10, 10, 11, 11, 4, 13, 5, 5, 5, 5, 4, 13,
      13, 13, 13, 13, 6, 8, 8, 8, 9, 9, 10, 10, 11, 11, 3, 3, 10, 10, 11, 11, 11, 11, 10, 10, 10, 10, 11, 11, 4, 13, 13, 13,
      13, 13, 4, 12, 13, 13, 13, 13, 6, 6, 8, 8, 9, 9, 6, 6, 7, 7, 7, 7, 10, 14, 14, 14, 7, 7, 10, 10, 14, 14, 11, 11,
      4, 12, 13, 13, 13, 13, 4, 12, 13, 13, 13, 13, 6, 6, 12, 12, 7, 7, 6, 6, 7, 7, 7, 7, 6, 14, 14, 14, 7, 7, 14, 14,
      14, 14, 15, 15, 12, 12, 13, 13, 13, 13, 12, 12, 12, 12, 13, 13, 6, 12, 12, 12, 7, 7, 6, 6, 7, 7, 7, 7, 6, 14, 14, 14,
      7, 7, 14, 14, 14, 14, 15, 15, 0, 0, 0, 0, 0, 0, 8, 8, 8, 8, 8, 8, 8, 8, 8, 8, 7, 7, 7, 7, 7, 7, 15, 15]"

definition tc_IsIndex16 :: "TextColor \<Rightarrow> bool" where "tc_IsIndex16 c \<longleftrightarrow> tc_meta c = IsIndex16"
definition tc_IsIndex256 :: "TextColor \<Rightarrow> bool" where "tc_IsIndex256 c \<longleftrightarrow> tc_meta c = IsIndex256"
definition tc_IsDefault :: "TextColor \<Rightarrow> bool" where "tc_IsDefault c \<longleftrightarrow> tc_meta c = IsDefault"
definition tc_IsRgb :: "TextColor \<Rightarrow> bool" where "tc_IsRgb c \<longleftrightarrow> tc_meta c = IsRgb"

definition tc_CanBeBrightened :: "TextColor \<Rightarrow> bool" where
  "tc_CanBeBrightened c \<longleftrightarrow> tc_IsIndex16 c \<or> tc_IsDefault c"

definition tc_IsLegacy :: "TextColor \<Rightarrow> bool" where
  "tc_IsLegacy c \<longleftrightarrow> tc_IsIndex16 c \<or> (tc_IsIndex256 c \<and> tc_red c < 16)"

definition tc_SetColor :: "COLORREF \<Rightarrow> TextColor \<Rightarrow> TextColor" where
  "tc_SetColor rgbColor c =
     c\<lparr>tc_meta := IsRgb, tc_red := GetRValue rgbColor, tc_green := GetGValue rgbColor, tc_blue := GetBValue rgbColor\<rparr>"

definition tc_SetIndex :: "8 word \<Rightarrow> bool \<Rightarrow> TextColor \<Rightarrow> TextColor" where
  "tc_SetIndex index isIndex256 c =
     c\<lparr>tc_meta := (if isIndex256 then IsIndex256 else IsIndex16), tc_red := index\<rparr>"

definition tc_SetDefault :: "TextColor \<Rightarrow> TextColor" where
  "tc_SetDefault c = c\<lparr>tc_meta := IsDefault\<rparr>"

definition tc_GetIndex :: "TextColor \<Rightarrow> 8 word" where "tc_GetIndex c = tc_red c"

definition tc_GetRGB :: "TextColor \<Rightarrow> COLORREF" where
  "tc_GetRGB c = RGB (tc_red c) (tc_green c) (tc_blue c)"

text \<open>
  \<open>None\<close>: the check of the table's size ends the process, or \<^verbatim>\<open>til::at\<close>, which does not check its
  index, reads outside the table.
\<close>

definition table_at :: "COLORREF list \<Rightarrow> nat \<Rightarrow> COLORREF option" where
  "table_at colorTable i = (if i < length colorTable then Some (colorTable ! i) else None)"

definition tc_GetColor :: "TextColor \<Rightarrow> COLORREF list \<Rightarrow> COLORREF \<Rightarrow> bool \<Rightarrow> COLORREF option" where
  "tc_GetColor c colorTable defaultColor brighten =
     (if tc_IsDefault c then
        (if brighten then
           (if length colorTable < 16 then None
            else (case List.find (\<lambda>i. colorTable ! i = defaultColor) [0..<8] of
                    Some i \<Rightarrow> Some (colorTable ! (i + 8))
                  | None \<Rightarrow> Some defaultColor))
         else Some defaultColor)
      else if tc_IsRgb c then Some (tc_GetRGB c)
      else if tc_IsIndex16 c \<and> brighten then table_at colorTable (unat (tc_red c OR 8))
      else table_at colorTable (unat (tc_red c)))"

definition tc_GetLegacyIndex :: "TextColor \<Rightarrow> 8 word \<Rightarrow> 8 word" where
  "tc_GetLegacyIndex c defaultIndex =
     (if tc_IsDefault c then defaultIndex
      else if tc_IsIndex16 c then tc_GetIndex c
      else if tc_IsIndex256 c then Index256ToIndex16 ! unat (tc_GetIndex c)
      else
        (let compressedRgb =
               (tc_red c AND 0b11100000) + (drop_bit 3 (tc_green c) AND 0b00011100) +
               (drop_bit 6 (tc_blue c) AND 0b00000011)
         in CompressedRgbToIndex16 ! unat compressedRgb))"

section \<open>Attributes of text\<close>

record TextAttribute =
  ta_wAttrLegacy :: "16 word"
  ta_hyperlinkId :: "16 word"
  ta_foreground :: TextColor
  ta_background :: TextColor
  ta_extendedAttrs :: "8 word"

text \<open>The static members \<^verbatim>\<open>s_legacyDefaultForeground\<close> and \<^verbatim>\<open>s_legacyDefaultBackground\<close>.\<close>

record legacy_defaults =
  legacyDefaultForeground :: "8 word"
  legacyDefaultBackground :: "8 word"

definition initial_legacy_defaults :: legacy_defaults where
  "initial_legacy_defaults = \<lparr>legacyDefaultForeground = 7, legacyDefaultBackground = 0\<rparr>"

definition SetLegacyDefaultAttributes :: "16 word \<Rightarrow> legacy_defaults" where
  "SetLegacyDefaultAttributes defaultAttributes =
     \<lparr>legacyDefaultForeground = ucast (defaultAttributes AND FG_ATTRS),
      legacyDefaultBackground = ucast (drop_bit 4 (defaultAttributes AND BG_ATTRS))\<rparr>"

definition ta_Default :: TextAttribute where
  "ta_Default =
     \<lparr>ta_wAttrLegacy = 0, ta_hyperlinkId = 0, ta_foreground = tc_Default, ta_background = tc_Default,
      ta_extendedAttrs = ExtNormal\<rparr>"

definition s_LegacyIndexOrDefault :: "8 word \<Rightarrow> 8 word \<Rightarrow> TextColor" where
  "s_LegacyIndexOrDefault requestedIndex defaultIndex =
     (if requestedIndex = defaultIndex then tc_Default else tc_Index requestedIndex True)"

definition ta_Legacy :: "legacy_defaults \<Rightarrow> 16 word \<Rightarrow> TextAttribute" where
  "ta_Legacy defs wLegacyAttr =
     \<lparr>ta_wAttrLegacy = (wLegacyAttr AND META_ATTRS) AND NOT COMMON_LVB_SBCSDBCS, ta_hyperlinkId = 0,
      ta_foreground = s_LegacyIndexOrDefault (ucast (wLegacyAttr AND FG_ATTRS)) (legacyDefaultForeground defs),
      ta_background = s_LegacyIndexOrDefault (ucast (drop_bit 4 (wLegacyAttr AND BG_ATTRS))) (legacyDefaultBackground defs),
      ta_extendedAttrs = ExtNormal\<rparr>"

definition ta_Rgb :: "COLORREF \<Rightarrow> COLORREF \<Rightarrow> TextAttribute" where
  "ta_Rgb rgbForeground rgbBackground =
     \<lparr>ta_wAttrLegacy = 0, ta_hyperlinkId = 0, ta_foreground = tc_Rgb rgbForeground,
      ta_background = tc_Rgb rgbBackground, ta_extendedAttrs = ExtNormal\<rparr>"

definition ta_IsHyperlink :: "TextAttribute \<Rightarrow> bool" where
  "ta_IsHyperlink a \<longleftrightarrow> ta_hyperlinkId a \<noteq> 0"

definition ta_IsLegacy :: "TextAttribute \<Rightarrow> bool" where
  "ta_IsLegacy a \<longleftrightarrow> tc_IsLegacy (ta_foreground a) \<and> tc_IsLegacy (ta_background a)"

definition ta_BackgroundIsDefault :: "TextAttribute \<Rightarrow> bool" where
  "ta_BackgroundIsDefault a \<longleftrightarrow> tc_IsDefault (ta_background a)"

definition ta_IsAnyGridLineEnabled :: "TextAttribute \<Rightarrow> bool" where
  "ta_IsAnyGridLineEnabled a \<longleftrightarrow>
     ta_wAttrLegacy a AND (COMMON_LVB_GRID_HORIZONTAL OR COMMON_LVB_GRID_LVERTICAL OR COMMON_LVB_GRID_RVERTICAL OR
       COMMON_LVB_UNDERSCORE) \<noteq> 0"

text \<open>The renditions: one query and one setter for each flag.\<close>

definition ta_IsLeadingByte :: "TextAttribute \<Rightarrow> bool" where
  "ta_IsLeadingByte a = WI_IsFlagSet (ta_wAttrLegacy a) COMMON_LVB_LEADING_BYTE"

definition ta_IsTrailingByte :: "TextAttribute \<Rightarrow> bool" where
  "ta_IsTrailingByte a = WI_IsFlagSet (ta_wAttrLegacy a) COMMON_LVB_LEADING_BYTE"

definition ta_IsTopHorizontalDisplayed :: "TextAttribute \<Rightarrow> bool" where
  "ta_IsTopHorizontalDisplayed a = WI_IsFlagSet (ta_wAttrLegacy a) COMMON_LVB_GRID_HORIZONTAL"

definition ta_IsBottomHorizontalDisplayed :: "TextAttribute \<Rightarrow> bool" where
  "ta_IsBottomHorizontalDisplayed a = WI_IsFlagSet (ta_wAttrLegacy a) COMMON_LVB_UNDERSCORE"

definition ta_IsLeftVerticalDisplayed :: "TextAttribute \<Rightarrow> bool" where
  "ta_IsLeftVerticalDisplayed a = WI_IsFlagSet (ta_wAttrLegacy a) COMMON_LVB_GRID_LVERTICAL"

definition ta_IsRightVerticalDisplayed :: "TextAttribute \<Rightarrow> bool" where
  "ta_IsRightVerticalDisplayed a = WI_IsFlagSet (ta_wAttrLegacy a) COMMON_LVB_GRID_RVERTICAL"

definition ta_IsOverlined :: "TextAttribute \<Rightarrow> bool" where
  "ta_IsOverlined a = WI_IsFlagSet (ta_wAttrLegacy a) COMMON_LVB_GRID_HORIZONTAL"

definition ta_IsReverseVideo :: "TextAttribute \<Rightarrow> bool" where
  "ta_IsReverseVideo a = WI_IsFlagSet (ta_wAttrLegacy a) COMMON_LVB_REVERSE_VIDEO"

definition ta_IsBold :: "TextAttribute \<Rightarrow> bool" where
  "ta_IsBold a = WI_IsFlagSet (ta_extendedAttrs a) ExtBold"

definition ta_IsFaint :: "TextAttribute \<Rightarrow> bool" where
  "ta_IsFaint a = WI_IsFlagSet (ta_extendedAttrs a) ExtFaint"

definition ta_IsItalic :: "TextAttribute \<Rightarrow> bool" where
  "ta_IsItalic a = WI_IsFlagSet (ta_extendedAttrs a) ExtItalics"

definition ta_IsBlinking :: "TextAttribute \<Rightarrow> bool" where
  "ta_IsBlinking a = WI_IsFlagSet (ta_extendedAttrs a) ExtBlinking"

definition ta_IsInvisible :: "TextAttribute \<Rightarrow> bool" where
  "ta_IsInvisible a = WI_IsFlagSet (ta_extendedAttrs a) ExtInvisible"

definition ta_IsCrossedOut :: "TextAttribute \<Rightarrow> bool" where
  "ta_IsCrossedOut a = WI_IsFlagSet (ta_extendedAttrs a) ExtCrossedOut"

definition ta_IsUnderlined :: "TextAttribute \<Rightarrow> bool" where
  "ta_IsUnderlined a = WI_IsFlagSet (ta_extendedAttrs a) ExtUnderlined"

definition ta_IsDoublyUnderlined :: "TextAttribute \<Rightarrow> bool" where
  "ta_IsDoublyUnderlined a = WI_IsFlagSet (ta_extendedAttrs a) ExtDoublyUnderlined"

definition ta_SetLeftVerticalDisplayed :: "bool \<Rightarrow> TextAttribute \<Rightarrow> TextAttribute" where
  "ta_SetLeftVerticalDisplayed b a = a\<lparr>ta_wAttrLegacy := WI_UpdateFlag (ta_wAttrLegacy a) COMMON_LVB_GRID_LVERTICAL b\<rparr>"

definition ta_SetRightVerticalDisplayed :: "bool \<Rightarrow> TextAttribute \<Rightarrow> TextAttribute" where
  "ta_SetRightVerticalDisplayed b a = a\<lparr>ta_wAttrLegacy := WI_UpdateFlag (ta_wAttrLegacy a) COMMON_LVB_GRID_RVERTICAL b\<rparr>"

definition ta_SetOverlined :: "bool \<Rightarrow> TextAttribute \<Rightarrow> TextAttribute" where
  "ta_SetOverlined b a = a\<lparr>ta_wAttrLegacy := WI_UpdateFlag (ta_wAttrLegacy a) COMMON_LVB_GRID_HORIZONTAL b\<rparr>"

definition ta_SetReverseVideo :: "bool \<Rightarrow> TextAttribute \<Rightarrow> TextAttribute" where
  "ta_SetReverseVideo b a = a\<lparr>ta_wAttrLegacy := WI_UpdateFlag (ta_wAttrLegacy a) COMMON_LVB_REVERSE_VIDEO b\<rparr>"

definition ta_SetBold :: "bool \<Rightarrow> TextAttribute \<Rightarrow> TextAttribute" where
  "ta_SetBold b a = a\<lparr>ta_extendedAttrs := WI_UpdateFlag (ta_extendedAttrs a) ExtBold b\<rparr>"

definition ta_SetFaint :: "bool \<Rightarrow> TextAttribute \<Rightarrow> TextAttribute" where
  "ta_SetFaint b a = a\<lparr>ta_extendedAttrs := WI_UpdateFlag (ta_extendedAttrs a) ExtFaint b\<rparr>"

definition ta_SetItalic :: "bool \<Rightarrow> TextAttribute \<Rightarrow> TextAttribute" where
  "ta_SetItalic b a = a\<lparr>ta_extendedAttrs := WI_UpdateFlag (ta_extendedAttrs a) ExtItalics b\<rparr>"

definition ta_SetBlinking :: "bool \<Rightarrow> TextAttribute \<Rightarrow> TextAttribute" where
  "ta_SetBlinking b a = a\<lparr>ta_extendedAttrs := WI_UpdateFlag (ta_extendedAttrs a) ExtBlinking b\<rparr>"

definition ta_SetInvisible :: "bool \<Rightarrow> TextAttribute \<Rightarrow> TextAttribute" where
  "ta_SetInvisible b a = a\<lparr>ta_extendedAttrs := WI_UpdateFlag (ta_extendedAttrs a) ExtInvisible b\<rparr>"

definition ta_SetCrossedOut :: "bool \<Rightarrow> TextAttribute \<Rightarrow> TextAttribute" where
  "ta_SetCrossedOut b a = a\<lparr>ta_extendedAttrs := WI_UpdateFlag (ta_extendedAttrs a) ExtCrossedOut b\<rparr>"

definition ta_SetUnderlined :: "bool \<Rightarrow> TextAttribute \<Rightarrow> TextAttribute" where
  "ta_SetUnderlined b a = a\<lparr>ta_extendedAttrs := WI_UpdateFlag (ta_extendedAttrs a) ExtUnderlined b\<rparr>"

definition ta_SetDoublyUnderlined :: "bool \<Rightarrow> TextAttribute \<Rightarrow> TextAttribute" where
  "ta_SetDoublyUnderlined b a = a\<lparr>ta_extendedAttrs := WI_UpdateFlag (ta_extendedAttrs a) ExtDoublyUnderlined b\<rparr>"

definition ta_Invert :: "TextAttribute \<Rightarrow> TextAttribute" where
  "ta_Invert a = a\<lparr>ta_wAttrLegacy := WI_ToggleFlag (ta_wAttrLegacy a) COMMON_LVB_REVERSE_VIDEO\<rparr>"

text \<open>The colours.\<close>

definition ta_SetForeground :: "TextColor \<Rightarrow> TextAttribute \<Rightarrow> TextAttribute" where
  "ta_SetForeground foreground a = a\<lparr>ta_foreground := foreground\<rparr>"

definition ta_SetBackground :: "TextColor \<Rightarrow> TextAttribute \<Rightarrow> TextAttribute" where
  "ta_SetBackground background a = a\<lparr>ta_background := background\<rparr>"

definition ta_SetForegroundRgb :: "COLORREF \<Rightarrow> TextAttribute \<Rightarrow> TextAttribute" where
  "ta_SetForegroundRgb rgbForeground a = a\<lparr>ta_foreground := tc_Rgb rgbForeground\<rparr>"

definition ta_SetBackgroundRgb :: "COLORREF \<Rightarrow> TextAttribute \<Rightarrow> TextAttribute" where
  "ta_SetBackgroundRgb rgbBackground a = a\<lparr>ta_background := tc_Rgb rgbBackground\<rparr>"

definition ta_SetIndexedForeground :: "8 word \<Rightarrow> TextAttribute \<Rightarrow> TextAttribute" where
  "ta_SetIndexedForeground fgIndex a = a\<lparr>ta_foreground := tc_Index fgIndex False\<rparr>"

definition ta_SetIndexedBackground :: "8 word \<Rightarrow> TextAttribute \<Rightarrow> TextAttribute" where
  "ta_SetIndexedBackground bgIndex a = a\<lparr>ta_background := tc_Index bgIndex False\<rparr>"

definition ta_SetIndexedForeground256 :: "8 word \<Rightarrow> TextAttribute \<Rightarrow> TextAttribute" where
  "ta_SetIndexedForeground256 fgIndex a = a\<lparr>ta_foreground := tc_Index fgIndex True\<rparr>"

definition ta_SetIndexedBackground256 :: "8 word \<Rightarrow> TextAttribute \<Rightarrow> TextAttribute" where
  "ta_SetIndexedBackground256 bgIndex a = a\<lparr>ta_background := tc_Index bgIndex True\<rparr>"

definition ta_SetColor :: "COLORREF \<Rightarrow> bool \<Rightarrow> TextAttribute \<Rightarrow> TextAttribute" where
  "ta_SetColor rgbColor fIsForeground a =
     (if fIsForeground then ta_SetForegroundRgb rgbColor a else ta_SetBackgroundRgb rgbColor a)"

definition ta_SetHyperlinkId :: "16 word \<Rightarrow> TextAttribute \<Rightarrow> TextAttribute" where
  "ta_SetHyperlinkId hid a = a\<lparr>ta_hyperlinkId := hid\<rparr>"

definition ta_SetDefaultForeground :: "TextAttribute \<Rightarrow> TextAttribute" where
  "ta_SetDefaultForeground a = a\<lparr>ta_foreground := tc_Default\<rparr>"

definition ta_SetDefaultBackground :: "TextAttribute \<Rightarrow> TextAttribute" where
  "ta_SetDefaultBackground a = a\<lparr>ta_background := tc_Default\<rparr>"

definition ta_SetDefaultMetaAttrs :: "TextAttribute \<Rightarrow> TextAttribute" where
  "ta_SetDefaultMetaAttrs a = a\<lparr>ta_extendedAttrs := ExtNormal, ta_wAttrLegacy := 0\<rparr>"

definition ta_SetStandardErase :: "TextAttribute \<Rightarrow> TextAttribute" where
  "ta_SetStandardErase a = (ta_SetDefaultMetaAttrs a)\<lparr>ta_hyperlinkId := 0\<rparr>"

section \<open>Legacy attributes and displayed colours\<close>

definition StripErroneousVT16VersionsOfLegacyDefaults :: "legacy_defaults \<Rightarrow> TextAttribute \<Rightarrow> TextAttribute" where
  "StripErroneousVT16VersionsOfLegacyDefaults defs attribute =
     (let fg = ta_foreground attribute; bg = ta_background attribute;
          copy = (if tc_IsIndex16 fg \<and>
                     ta_IsBold attribute = WI_IsFlagSet (legacyDefaultForeground defs) FOREGROUND_INTENSITY \<and>
                     tc_GetIndex fg = legacyDefaultForeground defs AND NOT FOREGROUND_INTENSITY
                  then ta_SetDefaultForeground attribute else attribute)
      in if tc_IsIndex16 bg \<and> tc_GetIndex bg = legacyDefaultBackground defs
         then ta_SetDefaultBackground copy else copy)"

definition ta_GetLegacyAttributes :: "legacy_defaults \<Rightarrow> TextAttribute \<Rightarrow> 16 word" where
  "ta_GetLegacyAttributes defs a =
     (let fgIndex = tc_GetLegacyIndex (ta_foreground a) (legacyDefaultForeground defs);
          bgIndex = tc_GetLegacyIndex (ta_background a) (legacyDefaultBackground defs);
          metaAttrs = ta_wAttrLegacy a AND META_ATTRS;
          brighten = ta_IsBold a \<and> tc_CanBeBrightened (ta_foreground a)
      in ucast fgIndex OR push_bit 4 (ucast bgIndex) OR metaAttrs OR
         (if brighten then FOREGROUND_INTENSITY else 0))"

definition ta_CalculateRgbColors ::
    "TextAttribute \<Rightarrow> COLORREF list \<Rightarrow> COLORREF \<Rightarrow> COLORREF \<Rightarrow> bool \<Rightarrow> bool \<Rightarrow> (COLORREF \<times> COLORREF) option" where
  "ta_CalculateRgbColors a colorTable defaultFgColor defaultBgColor reverseScreenMode blinkingIsFaint =
     (case (tc_GetColor (ta_foreground a) colorTable defaultFgColor (ta_IsBold a),
            tc_GetColor (ta_background a) colorTable defaultBgColor False) of
        (Some fg, Some bg) \<Rightarrow>
          (let fg = (if ta_IsFaint a \<or> (ta_IsBlinking a \<and> blinkingIsFaint) then drop_bit 1 fg AND 0x7F7F7F else fg);
               (fg, bg) = (if ta_IsReverseVideo a \<noteq> reverseScreenMode then (bg, fg) else (fg, bg));
               fg = (if ta_IsInvisible a then bg else fg)
           in Some (fg, bg))
      | _ \<Rightarrow> None)"

definition HasIdenticalVisualRepresentationForBlankSpace ::
    "TextAttribute \<Rightarrow> TextAttribute \<Rightarrow> bool \<Rightarrow> bool" where
  "HasIdenticalVisualRepresentationForBlankSpace a other inverted =
     (let checkForeground = (inverted \<noteq> ta_IsReverseVideo a) in
      \<not> ta_IsAnyGridLineEnabled a \<and>
      ta_extendedAttrs a AND (ExtCrossedOut OR ExtDoublyUnderlined OR ExtUnderlined) = 0 \<and>
      \<not> ta_IsHyperlink a \<and>
      ta_wAttrLegacy a AND META_ATTRS = ta_wAttrLegacy other AND META_ATTRS \<and>
      (checkForeground \<and> ta_foreground a = ta_foreground other \<or>
       \<not> checkForeground \<and> ta_background a = ta_background other) \<and>
      ta_extendedAttrs a = ta_extendedAttrs other \<and>
      ta_IsHyperlink a = ta_IsHyperlink other)"

section \<open>Flags read and written\<close>

lemma WI_IsFlagSet_bit: "WI_IsFlagSet (x :: 'w::len word) (push_bit n 1) = bit x n"
  by (auto simp: WI_IsFlagSet_def and_exp_eq_0_iff_not_bit push_bit_eq_mult)

lemma bit_WI_UpdateFlag:
  "bit (WI_UpdateFlag (x :: 'w::len word) (push_bit k 1) b) n =
     (if n = k then b \<and> k < LENGTH('w) else bit x n)"
  by (auto simp: WI_UpdateFlag_def bit_simps bit_imp_le_length)


named_theorems flag_simps \<open>queries and setters of flags, bit by bit\<close>

lemma flag_test_8 [flag_simps]:
  fixes x :: "8 word"
  shows "WI_IsFlagSet x 0x01 = bit x 0" "WI_IsFlagSet x 0x02 = bit x 1" "WI_IsFlagSet x 0x04 = bit x 2"
    "WI_IsFlagSet x 0x08 = bit x 3" "WI_IsFlagSet x 0x10 = bit x 4" "WI_IsFlagSet x 0x20 = bit x 5"
    "WI_IsFlagSet x 0x40 = bit x 6" "WI_IsFlagSet x 0x80 = bit x 7"
  using WI_IsFlagSet_bit [of x 0] WI_IsFlagSet_bit [of x 1] WI_IsFlagSet_bit [of x 2] WI_IsFlagSet_bit [of x 3]
    WI_IsFlagSet_bit [of x 4] WI_IsFlagSet_bit [of x 5] WI_IsFlagSet_bit [of x 6] WI_IsFlagSet_bit [of x 7]
  by simp_all

lemma flag_update_8 [flag_simps]:
  fixes x :: "8 word"
  shows "bit (WI_UpdateFlag x 0x01 b) n = (if n = 0 then b else bit x n)"
    "bit (WI_UpdateFlag x 0x02 b) n = (if n = 1 then b else bit x n)"
    "bit (WI_UpdateFlag x 0x04 b) n = (if n = 2 then b else bit x n)"
    "bit (WI_UpdateFlag x 0x08 b) n = (if n = 3 then b else bit x n)"
    "bit (WI_UpdateFlag x 0x10 b) n = (if n = 4 then b else bit x n)"
    "bit (WI_UpdateFlag x 0x20 b) n = (if n = 5 then b else bit x n)"
    "bit (WI_UpdateFlag x 0x40 b) n = (if n = 6 then b else bit x n)"
    "bit (WI_UpdateFlag x 0x80 b) n = (if n = 7 then b else bit x n)"
  using bit_WI_UpdateFlag [of x 0 b n] bit_WI_UpdateFlag [of x 1 b n] bit_WI_UpdateFlag [of x 2 b n]
    bit_WI_UpdateFlag [of x 3 b n] bit_WI_UpdateFlag [of x 4 b n] bit_WI_UpdateFlag [of x 5 b n]
    bit_WI_UpdateFlag [of x 6 b n] bit_WI_UpdateFlag [of x 7 b n]
  by simp_all

lemma flag_test_16 [flag_simps]:
  fixes x :: "16 word"
  shows "WI_IsFlagSet x 0x0100 = bit x 8" "WI_IsFlagSet x 0x0400 = bit x 10" "WI_IsFlagSet x 0x0800 = bit x 11"
    "WI_IsFlagSet x 0x1000 = bit x 12" "WI_IsFlagSet x 0x4000 = bit x 14" "WI_IsFlagSet x 0x8000 = bit x 15"
  using WI_IsFlagSet_bit [of x 8] WI_IsFlagSet_bit [of x 10] WI_IsFlagSet_bit [of x 11] WI_IsFlagSet_bit [of x 12]
    WI_IsFlagSet_bit [of x 14] WI_IsFlagSet_bit [of x 15]
  by simp_all

lemma flag_update_16 [flag_simps]:
  fixes x :: "16 word"
  shows "bit (WI_UpdateFlag x 0x0400 b) n = (if n = 10 then b else bit x n)"
    "bit (WI_UpdateFlag x 0x0800 b) n = (if n = 11 then b else bit x n)"
    "bit (WI_UpdateFlag x 0x1000 b) n = (if n = 12 then b else bit x n)"
    "bit (WI_UpdateFlag x 0x4000 b) n = (if n = 14 then b else bit x n)"
  using bit_WI_UpdateFlag [of x 10 b n] bit_WI_UpdateFlag [of x 11 b n] bit_WI_UpdateFlag [of x 12 b n]
    bit_WI_UpdateFlag [of x 14 b n]
  by simp_all

lemma all_less_8: "(\<forall>n < 8. P n) \<longleftrightarrow> P 0 \<and> P 1 \<and> P 2 \<and> P 3 \<and> P 4 \<and> P 5 \<and> P 6 \<and> P (7::nat)"
  by (auto simp: numeral_eq_Suc All_less_Suc)

lemma word8_eq_bits:
  "(x :: 8 word) = y \<longleftrightarrow> bit x 0 = bit y 0 \<and> bit x 1 = bit y 1 \<and> bit x 2 = bit y 2 \<and> bit x 3 = bit y 3 \<and>
     bit x 4 = bit y 4 \<and> bit x 5 = bit y 5 \<and> bit x 6 = bit y 6 \<and> bit x 7 = bit y 7"
  using all_less_8 [of "\<lambda>n. bit x n = bit y n"] bit_word_eqI [of x y] by auto

lemmas ta_query_defs =
  ta_IsBold_def ta_IsFaint_def ta_IsItalic_def ta_IsBlinking_def ta_IsInvisible_def ta_IsCrossedOut_def
  ta_IsUnderlined_def ta_IsDoublyUnderlined_def ta_IsOverlined_def ta_IsReverseVideo_def

lemmas ta_setter_defs =
  ta_SetBold_def ta_SetFaint_def ta_SetItalic_def ta_SetBlinking_def ta_SetInvisible_def ta_SetCrossedOut_def
  ta_SetUnderlined_def ta_SetDoublyUnderlined_def ta_SetOverlined_def ta_SetReverseVideo_def

lemmas ta_color_setter_defs =
  ta_SetForeground_def ta_SetBackground_def ta_SetForegroundRgb_def ta_SetBackgroundRgb_def
  ta_SetIndexedForeground_def ta_SetIndexedBackground_def ta_SetIndexedForeground256_def
  ta_SetIndexedBackground256_def ta_SetColor_def ta_SetDefaultForeground_def ta_SetDefaultBackground_def

text \<open>
  The renditions of a text attribute: ten flags, all of them independent. Two attributes with the same
  colours, hyperlink, renditions and remaining legacy flags are equal.
\<close>

definition ta_renditions :: "TextAttribute \<Rightarrow> bool list" where
  "ta_renditions a =
     [ta_IsBold a, ta_IsFaint a, ta_IsItalic a, ta_IsBlinking a, ta_IsInvisible a, ta_IsCrossedOut a,
      ta_IsUnderlined a, ta_IsDoublyUnderlined a, ta_IsOverlined a, ta_IsReverseVideo a]"

lemma ta_renditions_extended:
  "ta_extendedAttrs a = ta_extendedAttrs b \<longleftrightarrow>
     ta_IsBold a = ta_IsBold b \<and> ta_IsItalic a = ta_IsItalic b \<and> ta_IsBlinking a = ta_IsBlinking b \<and>
     ta_IsInvisible a = ta_IsInvisible b \<and> ta_IsCrossedOut a = ta_IsCrossedOut b \<and>
     ta_IsUnderlined a = ta_IsUnderlined b \<and> ta_IsDoublyUnderlined a = ta_IsDoublyUnderlined b \<and>
     ta_IsFaint a = ta_IsFaint b"
  by (simp only: word8_eq_bits ta_query_defs flag_simps)

section \<open>Colours and their bytes\<close>

lemma byte_high_bits: "\<not> bit (x :: 8 word) (8 + n)" "\<not> bit (x :: 8 word) (16 + n)"
  by (auto dest!: bit_imp_le_length)

lemma ucast_bytes_of_RGB [simp]:
  "GetRValue (RGB r g b) = r" "GetGValue (RGB r g b) = g" "GetBValue (RGB r g b) = b"
  by (auto simp: GetRValue_def GetGValue_def GetBValue_def RGB_def bit_simps byte_high_bits intro!: bit_word_eqI)

lemma tc_Rgb_RGB: "tc_Rgb (RGB r g b) = \<lparr>tc_meta = IsRgb, tc_red = r, tc_green = g, tc_blue = b\<rparr>"
  by (simp add: tc_Rgb_def)

lemma Index256ToIndex16_legacy: "i < 16 \<Longrightarrow> Index256ToIndex16 ! unat i = i"
proof -
  assume "i < 16"
  then have "unat i < 16"
    by (simp add: word_less_nat_alt)
  then have "unat i \<in> set [0..<16]" by simp
  moreover have "\<forall>k \<in> set [0..<16]. Index256ToIndex16 ! k = of_nat k"
    by code_simp
  ultimately show ?thesis by fastforce
qed

lemma Index256ToIndex16_bound: "Index256ToIndex16 ! unat (i :: 8 word) < 16"
proof -
  have "\<forall>x \<in> set Index256ToIndex16. x < 16" by code_simp
  moreover have "length Index256ToIndex16 = 256" by code_simp
  ultimately show ?thesis using unsigned_less [of i, where 'a = nat] by (auto intro: nth_mem)
qed

lemma CompressedRgbToIndex16_bound: "CompressedRgbToIndex16 ! unat (i :: 8 word) < 16"
proof -
  have "\<forall>x \<in> set CompressedRgbToIndex16. x < 16" by code_simp
  moreover have "length CompressedRgbToIndex16 = 256" by code_simp
  ultimately show ?thesis using unsigned_less [of i, where 'a = nat] by (auto intro: nth_mem)
qed

text \<open>A colour as the constructors build it, with 16 colour indices within the table.\<close>

definition tc_wf :: "TextColor \<Rightarrow> bool" where
  "tc_wf c \<longleftrightarrow>
     (case tc_meta c of
        IsDefault \<Rightarrow> tc_red c = 0 \<and> tc_green c = 0 \<and> tc_blue c = 0
      | IsIndex16 \<Rightarrow> tc_red c < 16 \<and> tc_green c = 0 \<and> tc_blue c = 0
      | IsIndex256 \<Rightarrow> tc_green c = 0 \<and> tc_blue c = 0
      | IsRgb \<Rightarrow> True)"

lemma tc_wf_cases:
  assumes "tc_wf c"
  obtains (default) "c = tc_Default" | (index16) i where "i < 16" "c = tc_Index i False"
    | (index256) i where "c = tc_Index i True" | (rgb) r g b where "c = tc_Rgb (RGB r g b)"
  using assms
  by (cases c; cases "tc_meta c") (auto simp: tc_wf_def tc_Default_def tc_Index_def tc_Rgb_RGB)

lemma tc_wf_constructors [simp]:
  "tc_wf tc_Default" "tc_wf (tc_Index i True)" "tc_wf (tc_Index i False) = (i < 16)" "tc_wf (tc_Rgb rgb)"
  by (simp_all add: tc_wf_def tc_Default_def tc_Index_def tc_Rgb_def)

lemma GetLegacyIndex_bound:
  assumes "tc_wf c" "defaultIndex < 16"
  shows "tc_GetLegacyIndex c defaultIndex < 16"
  using assms
  by (auto simp: tc_GetLegacyIndex_def Let_def tc_wf_def tc_GetIndex_def tc_IsIndex16_def tc_IsIndex256_def
      tc_IsDefault_def Index256ToIndex16_bound CompressedRgbToIndex16_bound)

definition ta_wf :: "TextAttribute \<Rightarrow> bool" where
  "ta_wf a \<longleftrightarrow> tc_wf (ta_foreground a) \<and> tc_wf (ta_background a)"

section \<open>Legacy attributes and blanks\<close>

lemma GetLegacyIndex_legacy:
  "i < 16 \<Longrightarrow> tc_GetLegacyIndex (s_LegacyIndexOrDefault i d) d = i"
  by (simp add: tc_GetLegacyIndex_def s_LegacyIndexOrDefault_def tc_Default_def tc_Index_def tc_IsDefault_def
      tc_IsIndex16_def tc_IsIndex256_def tc_GetIndex_def Index256ToIndex16_legacy)

lemma all_bits_16: "(\<forall>n < 16. P n) \<longleftrightarrow> (\<forall>n < 8. P n) \<and> (\<forall>n < 8. P (n + 8 :: nat))"
proof -
  have "P n" if "\<forall>n < 8. P n" "\<forall>n < 8. P (n + 8)" "n < 16" for n
    using that(1) [rule_format, of n] that(2) [rule_format, of "n - 8"] that(3) by (cases "n < 8") auto
  then show ?thesis by auto
qed

lemma nibble_less: "\<forall>n < 8. bit x n \<longrightarrow> n < 4 \<Longrightarrow> x < (16 :: 8 word)"
proof -
  assume "\<forall>n < 8. bit x n \<longrightarrow> n < 4"
  then have "x = take_bit 4 x"
    by (intro bit_word_eqI) (auto simp: bit_simps)
  then have "unat x = take_bit 4 (unat x)"
    by (metis unsigned_take_bit_eq)
  then show ?thesis
    using take_bit_nat_less_exp [of 4 "unat x"] by (simp add: word_less_nat_alt)
qed

lemma nibbles_bound: "ucast (w AND FG_ATTRS) < (16 :: 8 word)" "ucast (drop_bit 4 (w AND BG_ATTRS)) < (16 :: 8 word)"
  by (rule nibble_less; unfold all_less_8; simp add: bit_simps FG_ATTRS_def BG_ATTRS_def)+

lemma legacy_attribute_bits:
  "ucast (ucast (w AND FG_ATTRS) :: 8 word) OR push_bit 4 (ucast (ucast (drop_bit 4 (w AND BG_ATTRS)) :: 8 word)) OR
     ((w AND META_ATTRS) AND NOT 0x0300) AND META_ATTRS = w AND 0xDCFF" (is "?l = ?r")
proof (rule bit_word_eqI)
  fix n assume "n < LENGTH(16)"
  moreover have "\<forall>n < 16. bit ?l n = bit ?r n"
    unfolding all_bits_16 all_less_8
    by (simp add: bit_simps FG_ATTRS_def BG_ATTRS_def META_ATTRS_def)
  ultimately show "bit ?l n = bit ?r n" by simp
qed

lemma GetColor_total:
  assumes "256 \<le> length t"
  obtains rgb where "tc_GetColor c t d b = Some rgb"
proof -
  have "unat i < length t" for i :: "8 word"
    using assms unsigned_less [of i, where 'a = nat] by simp
  then have "tc_GetColor c t d b \<noteq> None"
    using assms by (simp add: tc_GetColor_def table_at_def split: option.split)
  then show thesis using that by blast
qed

lemma meta_flags:
  "META_ATTRS AND COMMON_LVB_REVERSE_VIDEO = COMMON_LVB_REVERSE_VIDEO"
  "META_ATTRS AND (COMMON_LVB_GRID_HORIZONTAL OR COMMON_LVB_GRID_LVERTICAL OR COMMON_LVB_GRID_RVERTICAL OR COMMON_LVB_UNDERSCORE) =
     COMMON_LVB_GRID_HORIZONTAL OR COMMON_LVB_GRID_LVERTICAL OR COMMON_LVB_GRID_RVERTICAL OR COMMON_LVB_UNDERSCORE"
  by (simp_all add: META_ATTRS_def)

lemma blank_flags:
  assumes "HasIdenticalVisualRepresentationForBlankSpace a other inverted"
  shows "ta_extendedAttrs other = ta_extendedAttrs a" "ta_IsReverseVideo other = ta_IsReverseVideo a"
    "ta_IsAnyGridLineEnabled other = ta_IsAnyGridLineEnabled a"
proof -
  let ?m = "\<lambda>x::16 word. x AND META_ATTRS"
  from assms have m: "?m (ta_wAttrLegacy other) = ?m (ta_wAttrLegacy a)" and e: "ta_extendedAttrs other = ta_extendedAttrs a"
    by (simp_all add: HasIdenticalVisualRepresentationForBlankSpace_def Let_def)
  have *: "x AND f = ?m x AND f" if "META_ATTRS AND f = f" for x f
    using that by (simp add: and.assoc)
  show "ta_extendedAttrs other = ta_extendedAttrs a" by (fact e)
  show "ta_IsReverseVideo other = ta_IsReverseVideo a"
    using * [of "0x4000"] m unfolding ta_IsReverseVideo_def WI_IsFlagSet_def by (metis meta_flags(1))
  show "ta_IsAnyGridLineEnabled other = ta_IsAnyGridLineEnabled a"
    using * [of "0x0400 OR 0x0800 OR 0x1000 OR 0x8000"] m unfolding ta_IsAnyGridLineEnabled_def by (metis meta_flags(2))
qed

section \<open>Renditions as a vector\<close>

lemma ta_renditions_set:
  "ta_renditions (ta_SetBold b a) = (ta_renditions a)[0 := b]"
  "ta_renditions (ta_SetFaint b a) = (ta_renditions a)[1 := b]"
  "ta_renditions (ta_SetItalic b a) = (ta_renditions a)[2 := b]"
  "ta_renditions (ta_SetBlinking b a) = (ta_renditions a)[3 := b]"
  "ta_renditions (ta_SetInvisible b a) = (ta_renditions a)[4 := b]"
  "ta_renditions (ta_SetCrossedOut b a) = (ta_renditions a)[5 := b]"
  "ta_renditions (ta_SetUnderlined b a) = (ta_renditions a)[6 := b]"
  "ta_renditions (ta_SetDoublyUnderlined b a) = (ta_renditions a)[7 := b]"
  "ta_renditions (ta_SetOverlined b a) = (ta_renditions a)[8 := b]"
  "ta_renditions (ta_SetReverseVideo b a) = (ta_renditions a)[9 := b]"
  by (simp_all add: ta_renditions_def ta_query_defs ta_setter_defs flag_simps)

lemma ta_renditions_nth:
  "ta_IsBold a = ta_renditions a ! 0" "ta_IsFaint a = ta_renditions a ! 1" "ta_IsItalic a = ta_renditions a ! 2"
  "ta_IsBlinking a = ta_renditions a ! 3" "ta_IsInvisible a = ta_renditions a ! 4" "ta_IsCrossedOut a = ta_renditions a ! 5"
  "ta_IsUnderlined a = ta_renditions a ! 6" "ta_IsDoublyUnderlined a = ta_renditions a ! 7"
  "ta_IsOverlined a = ta_renditions a ! 8" "ta_IsReverseVideo a = ta_renditions a ! 9"
  by (simp_all add: ta_renditions_def)

lemma length_ta_renditions [simp]: "length (ta_renditions a) = 10"
  by (simp add: ta_renditions_def)

text \<open>The colours and the hyperlink, which the setters of renditions leave alone.\<close>

definition ta_colors :: "TextAttribute \<Rightarrow> TextColor \<times> TextColor \<times> 16 word" where
  "ta_colors a = (ta_foreground a, ta_background a, ta_hyperlinkId a)"

lemma ta_colors_set:
  "ta_colors (ta_SetBold b a) = ta_colors a" "ta_colors (ta_SetFaint b a) = ta_colors a"
  "ta_colors (ta_SetItalic b a) = ta_colors a" "ta_colors (ta_SetBlinking b a) = ta_colors a"
  "ta_colors (ta_SetInvisible b a) = ta_colors a" "ta_colors (ta_SetCrossedOut b a) = ta_colors a"
  "ta_colors (ta_SetUnderlined b a) = ta_colors a" "ta_colors (ta_SetDoublyUnderlined b a) = ta_colors a"
  "ta_colors (ta_SetOverlined b a) = ta_colors a" "ta_colors (ta_SetReverseVideo b a) = ta_colors a"
  by (simp_all add: ta_colors_def ta_setter_defs)

end
