(* ===== verification/Sgr_Stack.thy ===== *)
theory Sgr_Stack
  imports Text_Attribute Vt_Types
begin

text \<open>
  The stack of saved renditions \<^verbatim>\<open>SgrStack\<close> (\<^verbatim>\<open>types/sgrStack.cpp\<close>): a ring of ten slots. The locale
  \<open>bounded_stack\<close> states what a client of such a stack relies on; the ring meets it with the list of its
  saved entries, the latest one first.
\<close>

unbundle bit_operations_syntax

section \<open>Saved attributes\<close>

text \<open>\<^verbatim>\<open>SgrSaveRestoreStackOptions\<close>, the positions of the bits of an \<^verbatim>\<open>AttrBitset\<close>.\<close>

abbreviation (input) SgrSave_All :: nat where "SgrSave_All \<equiv> 0"
abbreviation (input) SgrSave_Boldness :: nat where "SgrSave_Boldness \<equiv> 1"
abbreviation (input) SgrSave_Faintness :: nat where "SgrSave_Faintness \<equiv> 2"
abbreviation (input) SgrSave_Italics :: nat where "SgrSave_Italics \<equiv> 3"
abbreviation (input) SgrSave_Underline :: nat where "SgrSave_Underline \<equiv> 4"
abbreviation (input) SgrSave_Blink :: nat where "SgrSave_Blink \<equiv> 5"
abbreviation (input) SgrSave_Negative :: nat where "SgrSave_Negative \<equiv> 7"
abbreviation (input) SgrSave_Invisible :: nat where "SgrSave_Invisible \<equiv> 8"
abbreviation (input) SgrSave_CrossedOut :: nat where "SgrSave_CrossedOut \<equiv> 9"
abbreviation (input) SgrSave_DoublyUnderlined :: nat where "SgrSave_DoublyUnderlined \<equiv> 21"
abbreviation (input) SgrSave_SaveForegroundColor :: nat where "SgrSave_SaveForegroundColor \<equiv> 30"
abbreviation (input) SgrSave_SaveBackgroundColor :: nat where "SgrSave_SaveBackgroundColor \<equiv> 31"

type_synonym AttrBitset = "32 word"

record SavedSgrAttributes =
  saved_TextAttributes :: TextAttribute
  saved_ValidParts :: AttrBitset

definition c_MaxStoredSgrPushes :: nat where "c_MaxStoredSgrPushes = 10"

record SgrStack =
  ss_nextPushIndex :: nat
  ss_numSavedAttrs :: nat
  ss_storedSgrAttributes :: "SavedSgrAttributes list"

definition SgrStack :: SgrStack where
  "SgrStack =
     \<lparr>ss_nextPushIndex = 0, ss_numSavedAttrs = 0,
      ss_storedSgrAttributes =
        replicate c_MaxStoredSgrPushes \<lparr>saved_TextAttributes = ta_Default, saved_ValidParts = 0\<rparr>\<rparr>"

section \<open>Operations\<close>

fun valid_parts_loop :: "VTParameter list \<Rightarrow> AttrBitset \<Rightarrow> AttrBitset" where
  "valid_parts_loop [] validParts = validParts"
| "valid_parts_loop (p # ps) validParts =
     (let optionAsIndex = value_or p 0 in
      valid_parts_loop ps (if optionAsIndex < 32 then Bit_Operations.set_bit (unat optionAsIndex) validParts else validParts))"

definition valid_parts :: "VTParameters \<Rightarrow> AttrBitset" where
  "valid_parts options =
     (if options = [] then Bit_Operations.set_bit SgrSave_All 0 else valid_parts_loop options 0)"

definition ss_Push :: "TextAttribute \<Rightarrow> VTParameters \<Rightarrow> SgrStack \<Rightarrow> SgrStack" where
  "ss_Push currentAttributes options s =
     (let n = length (ss_storedSgrAttributes s);
          s = (if ss_numSavedAttrs s < n then s\<lparr>ss_numSavedAttrs := ss_numSavedAttrs s + 1\<rparr> else s)
      in s\<lparr>ss_storedSgrAttributes :=
             (ss_storedSgrAttributes s)[ss_nextPushIndex s :=
                \<lparr>saved_TextAttributes = currentAttributes, saved_ValidParts = valid_parts options\<rparr>],
           ss_nextPushIndex := (ss_nextPushIndex s + 1) mod n\<rparr>)"

text \<open>
  The body of \<^verbatim>\<open>_CombineWithCurrentAttributes\<close>, for parts that do not include \<^verbatim>\<open>All\<close>: one statement
  \<^verbatim>\<open>if (validParts.test(part)) { result.Set(...); }\<close> after the other.
\<close>

definition restore_part :: "AttrBitset \<Rightarrow> nat \<Rightarrow> (TextAttribute \<Rightarrow> TextAttribute) \<Rightarrow> TextAttribute \<Rightarrow> TextAttribute" where
  "restore_part validParts part setter result = (if bit validParts part then setter result else result)"

definition CombineWithCurrentAttributes :: "TextAttribute \<Rightarrow> TextAttribute \<Rightarrow> AttrBitset \<Rightarrow> TextAttribute" where
  "CombineWithCurrentAttributes currentAttributes savedAttribute validParts =
     (let result = currentAttributes;
          result = restore_part validParts SgrSave_Boldness (ta_SetBold (ta_IsBold savedAttribute)) result;
          result = restore_part validParts SgrSave_Faintness (ta_SetFaint (ta_IsFaint savedAttribute)) result;
          result = restore_part validParts SgrSave_Italics (ta_SetItalic (ta_IsItalic savedAttribute)) result;
          result = restore_part validParts SgrSave_Underline (ta_SetUnderlined (ta_IsUnderlined savedAttribute)) result;
          result = restore_part validParts SgrSave_Blink (ta_SetBlinking (ta_IsBlinking savedAttribute)) result;
          result = restore_part validParts SgrSave_Negative (ta_SetReverseVideo (ta_IsReverseVideo savedAttribute)) result;
          result = restore_part validParts SgrSave_Invisible (ta_SetInvisible (ta_IsInvisible savedAttribute)) result;
          result = restore_part validParts SgrSave_CrossedOut (ta_SetCrossedOut (ta_IsCrossedOut savedAttribute)) result;
          result = restore_part validParts SgrSave_DoublyUnderlined (ta_SetDoublyUnderlined (ta_IsDoublyUnderlined savedAttribute)) result;
          result = restore_part validParts SgrSave_SaveForegroundColor (ta_SetForeground (ta_foreground savedAttribute)) result;
          result = restore_part validParts SgrSave_SaveBackgroundColor (ta_SetBackground (ta_background savedAttribute)) result
      in result)"

definition restored :: "SavedSgrAttributes \<Rightarrow> TextAttribute \<Rightarrow> TextAttribute" where
  "restored restoreMe currentAttributes =
     (if bit (saved_ValidParts restoreMe) SgrSave_All then saved_TextAttributes restoreMe
      else CombineWithCurrentAttributes currentAttributes (saved_TextAttributes restoreMe) (saved_ValidParts restoreMe))"

definition ss_Pop :: "TextAttribute \<Rightarrow> SgrStack \<Rightarrow> TextAttribute \<times> SgrStack" where
  "ss_Pop currentAttributes s =
     (if ss_numSavedAttrs s > 0 then
        (let s = s\<lparr>ss_numSavedAttrs := ss_numSavedAttrs s - 1\<rparr>;
             s = (if ss_nextPushIndex s = 0
                  then s\<lparr>ss_nextPushIndex := length (ss_storedSgrAttributes s) - 1\<rparr>
                  else s\<lparr>ss_nextPushIndex := ss_nextPushIndex s - 1\<rparr>)
         in (restored (ss_storedSgrAttributes s ! ss_nextPushIndex s) currentAttributes, s))
      else (currentAttributes, s))"

text \<open>What restoring parts does to renditions, colours and the rest.\<close>

lemma restore_part_renditions:
  assumes "\<And>x. ta_renditions (setter x) = (ta_renditions x)[i := b]"
  shows "ta_renditions (restore_part parts n setter x) = (ta_renditions x)[i := if bit parts n then b else ta_renditions x ! i]"
  by (simp add: restore_part_def assms)

lemma restore_part_colors:
  assumes "\<And>x. ta_colors (setter x) = ta_colors x"
  shows "ta_colors (restore_part parts n setter x) = ta_colors x"
  by (simp add: restore_part_def assms)

lemmas restore_part_renditions_set =
  ta_renditions_set [THEN restore_part_renditions]

lemma restore_part_color_renditions:
  "ta_renditions (restore_part parts n (ta_SetForeground c) x) = ta_renditions x"
  "ta_renditions (restore_part parts n (ta_SetBackground c) x) = ta_renditions x"
  "ta_colors (restore_part parts n (ta_SetForeground c) x) = apfst (\<lambda>f. if bit parts n then c else f) (ta_colors x)"
  "ta_colors (restore_part parts n (ta_SetBackground c) x) = apsnd (apfst (\<lambda>f. if bit parts n then c else f)) (ta_colors x)"
  by (simp_all add: restore_part_def ta_color_setter_defs ta_renditions_def ta_query_defs ta_colors_def)

lemma CombineWithCurrentAttributes_parts:
  "ta_renditions (CombineWithCurrentAttributes c s parts) =
     map (\<lambda>(n, i). ta_renditions (if n \<noteq> 6 \<and> bit parts n then s else c) ! i) (zip [1, 2, 3, 5, 8, 9, 4, 21, 6, 7] [0..<10])"
  "ta_colors (CombineWithCurrentAttributes c s parts) =
     (ta_foreground (if bit parts 30 then s else c), ta_background (if bit parts 31 then s else c), ta_hyperlinkId c)"
  by (simp_all add: CombineWithCurrentAttributes_def Let_def restore_part_renditions_set restore_part_color_renditions
      ta_colors_set [THEN restore_part_colors] upt_rec)
    (simp_all add: ta_renditions_def ta_colors_def)

section \<open>The contract of a bounded stack\<close>

text \<open>
  Pushing beyond the capacity forgets the oldest entry; popping returns the latest entry through \<open>restore\<close>
  and leaves the argument alone when there is none.
\<close>

primrec pops :: "('a \<Rightarrow> 's \<Rightarrow> 'a \<times> 's) \<Rightarrow> 'a list \<Rightarrow> 's \<Rightarrow> 'a list" where
  "pops pop [] s = []"
| "pops pop (a # as) s = fst (pop a s) # pops pop as (snd (pop a s))"

locale bounded_stack =
  fixes inv :: "'s \<Rightarrow> bool"
    and entries :: "'s \<Rightarrow> 'e list"
    and capacity :: nat
    and push :: "'e \<Rightarrow> 's \<Rightarrow> 's"
    and pop :: "'a \<Rightarrow> 's \<Rightarrow> 'a \<times> 's"
    and restore :: "'e \<Rightarrow> 'a \<Rightarrow> 'a"
  assumes push_inv: "inv s \<Longrightarrow> inv (push e s)"
    and push_entries: "inv s \<Longrightarrow> entries (push e s) = take capacity (e # entries s)"
    and pop_inv: "inv s \<Longrightarrow> inv (snd (pop a s))"
    and pop_entries: "inv s \<Longrightarrow> entries (snd (pop a s)) = tl (entries s)"
    and pop_value: "inv s \<Longrightarrow> fst (pop a s) = (case entries s of [] \<Rightarrow> a | e # _ \<Rightarrow> restore e a)"
    and entries_bound: "inv s \<Longrightarrow> length (entries s) \<le> capacity"
begin

lemma pushes_inv: "inv s \<Longrightarrow> inv (fold push es s)"
  by (induction es arbitrary: s) (simp_all add: push_inv)

lemma pushes_entries: "inv s \<Longrightarrow> entries (fold push es s) = take capacity (rev es @ entries s)"
proof (induction es arbitrary: s)
  case Nil
  then show ?case using entries_bound by simp
next
  case (Cons e es)
  then have "entries (fold push (e # es) s) = take capacity (rev es @ take capacity (e # entries s))"
    using push_inv push_entries by simp
  also have "\<dots> = take capacity (rev es @ e # entries s)"
    by (simp add: take_append min_def)
  finally show ?case by simp
qed

lemma pops_restore:
  "inv s \<Longrightarrow> pops pop as s =
     map2 (\<lambda>a e. case e of None \<Rightarrow> a | Some e \<Rightarrow> restore e a) as (map Some (entries s) @ replicate (length as) None)"
proof (induction as arbitrary: s)
  case (Cons a as)
  have "zip as (ys @ replicate (Suc (length as)) None) = zip as (ys @ replicate (length as) None)" for ys :: "'e option list"
    by (intro nth_equalityI) (auto simp: nth_append min_def nth_Cons' simp flip: replicate_Suc)
  with Cons show ?case
    by (cases "entries s") (simp_all add: pop_inv pop_value pop_entries)
qed simp

lemma push_pop:
  assumes "inv s" "0 < capacity"
  shows "fst (pop a (push e s)) = restore e a" "entries (snd (pop a (push e s))) = take (capacity - 1) (entries s)"
  using assms push_inv [of s e] push_entries [of s e]
  by (cases capacity; simp add: pop_value pop_entries)+

lemma pushes_pop:
  assumes "inv s" "0 < capacity" "es \<noteq> []"
  shows "fst (pop a (fold push es s)) = restore (last es) a"
proof -
  obtain ds where es: "es = ds @ [last es]" using assms(3) by (metis append_butlast_last_id)
  have "entries (fold push es s) = take capacity (last es # rev ds @ entries s)"
    using pushes_entries [OF assms(1), of es] by (subst (asm) (2) es) simp
  then have "entries (fold push es s) = last es # take (capacity - 1) (rev ds @ entries s)"
    using assms(2) by (cases capacity) simp_all
  then show ?thesis using pop_value [OF pushes_inv [OF assms(1)]] by simp
qed

end

section \<open>The ring is a bounded stack\<close>

definition ss_inv :: "SgrStack \<Rightarrow> bool" where
  "ss_inv s \<longleftrightarrow> length (ss_storedSgrAttributes s) = c_MaxStoredSgrPushes \<and>
     ss_nextPushIndex s < c_MaxStoredSgrPushes \<and> ss_numSavedAttrs s \<le> c_MaxStoredSgrPushes"

definition ring_back :: "nat \<Rightarrow> nat \<Rightarrow> nat" where
  "ring_back i k = (i + 2 * c_MaxStoredSgrPushes - 1 - k) mod c_MaxStoredSgrPushes"

definition ss_entries :: "SgrStack \<Rightarrow> SavedSgrAttributes list" where
  "ss_entries s = map (\<lambda>k. ss_storedSgrAttributes s ! ring_back (ss_nextPushIndex s) k) [0..<ss_numSavedAttrs s]"

definition ss_push_saved :: "SavedSgrAttributes \<Rightarrow> SgrStack \<Rightarrow> SgrStack" where
  "ss_push_saved e s =
     s\<lparr>ss_numSavedAttrs := (if ss_numSavedAttrs s < length (ss_storedSgrAttributes s)
                            then ss_numSavedAttrs s + 1 else ss_numSavedAttrs s),
       ss_storedSgrAttributes := (ss_storedSgrAttributes s)[ss_nextPushIndex s := e],
       ss_nextPushIndex := (ss_nextPushIndex s + 1) mod length (ss_storedSgrAttributes s)\<rparr>"

lemma ss_Push_saved:
  "ss_Push a options s = ss_push_saved \<lparr>saved_TextAttributes = a, saved_ValidParts = valid_parts options\<rparr> s"
  by (simp add: ss_Push_def ss_push_saved_def Let_def)

lemma ring_back_eq:
  assumes "i < 10" "k < 10"
  shows "ring_back i k = (if k < i then i - 1 - k else i + 9 - k)"
proof (cases "k < i")
  case True
  then have "(i + 2 * 10 - 1 - k) mod 10 = (i - 1 - k + 2 * 10) mod 10" by (simp add: algebra_simps)
  also have "\<dots> = i - 1 - k" using assms by (simp only: mod_mult_self3 mod_mult_self2 mod_mult_self4 mod_mult_self1) simp
  finally show ?thesis using True by (simp add: ring_back_def c_MaxStoredSgrPushes_def)
next
  case False
  then have "(i + 2 * 10 - 1 - k) mod 10 = (i + 9 - k + 1 * 10) mod 10" using assms by (simp add: algebra_simps)
  also have "\<dots> = i + 9 - k" using assms False by (simp only: mod_mult_self3 mod_mult_self2 mod_mult_self4 mod_mult_self1) simp
  finally show ?thesis using False by (simp add: ring_back_def c_MaxStoredSgrPushes_def)
qed

lemma ring_back_push:
  assumes "i < 10"
  shows "ring_back ((i + 1) mod 10) 0 = i" "k < 9 \<Longrightarrow> ring_back ((i + 1) mod 10) (Suc k) = ring_back i k"
    "k < 9 \<Longrightarrow> ring_back i k \<noteq> i"
proof -
  have i: "(i + 1) mod 10 = (if i = 9 then 0 else i + 1)" using assms by simp
  show "ring_back ((i + 1) mod 10) 0 = i"
    unfolding i using assms ring_back_eq [of "if i = 9 then 0 else i + 1" 0] by simp
  assume k: "k < 9"
  show "ring_back ((i + 1) mod 10) (Suc k) = ring_back i k"
    unfolding i using assms k ring_back_eq [of "if i = 9 then 0 else i + 1" "Suc k"] ring_back_eq [of i k] by auto
  show "ring_back i k \<noteq> i"
    using assms k ring_back_eq [of i k] by auto
qed

lemma ring_back_pop:
  assumes "i < 10" "k < 9"
  shows "ring_back (if i = 0 then 9 else i - 1) k = ring_back i (Suc k)"
  using assms ring_back_eq [of "if i = 0 then 9 else i - 1" k] ring_back_eq [of i "Suc k"] by auto

lemma ring_back_zero: "i < 10 \<Longrightarrow> ring_back i 0 = (if i = 0 then 9 else i - 1)"
  by (simp add: ring_back_eq)

lemma ss_push_saved_inv: "ss_inv s \<Longrightarrow> ss_inv (ss_push_saved e s)"
  by (auto simp: ss_inv_def ss_push_saved_def c_MaxStoredSgrPushes_def)

lemma ss_push_saved_entries:
  assumes "ss_inv s"
  shows "ss_entries (ss_push_saved e s) = take c_MaxStoredSgrPushes (e # ss_entries s)"
proof -
  let ?i = "ss_nextPushIndex s" and ?xs = "ss_storedSgrAttributes s" and ?n = "ss_numSavedAttrs s"
  have i: "?i < 10" and l: "length ?xs = 10" and n: "?n \<le> 10"
    using assms by (simp_all add: ss_inv_def c_MaxStoredSgrPushes_def)
  define m where "m = (if ?n < 10 then ?n else 9)"
  have m: "m \<le> 9" "m \<le> ?n" "take 9 [0..<?n] = [0..<m]" using n by (auto simp: m_def min_def)
  have "ss_entries (ss_push_saved e s) = map (\<lambda>k. ?xs[?i := e] ! ring_back ((?i + 1) mod 10) k) [0..<Suc m]"
    using n by (simp add: ss_entries_def ss_push_saved_def l m_def del: upt_Suc)
  also have "\<dots> = ?xs[?i := e] ! ring_back ((?i + 1) mod 10) 0 #
      map (\<lambda>k. ?xs[?i := e] ! ring_back ((?i + 1) mod 10) (Suc k)) [0..<m]"
    by (simp only: upt_conv_Cons zero_less_Suc map_Suc_upt [symmetric] list.map map_map o_def)
  also have "\<dots> = e # map (\<lambda>k. ?xs ! ring_back ?i k) [0..<m]"
    using ring_back_push(1,2) [OF i] ring_back_push(3) [OF i, symmetric] i l m by simp
  also have "\<dots> = take 10 (e # ss_entries s)"
    using m by (simp add: ss_entries_def take_map)
  finally show ?thesis by (simp add: c_MaxStoredSgrPushes_def)
qed

lemma ss_Pop_inv: "ss_inv s \<Longrightarrow> ss_inv (snd (ss_Pop a s))"
  by (auto simp: ss_inv_def ss_Pop_def Let_def c_MaxStoredSgrPushes_def)

lemma ss_Pop_entries:
  assumes "ss_inv s"
  shows "ss_entries (snd (ss_Pop a s)) = tl (ss_entries s)"
proof (cases "ss_numSavedAttrs s")
  case (Suc n)
  let ?i = "ss_nextPushIndex s" and ?xs = "ss_storedSgrAttributes s"
  have i: "?i < 10" and l: "length ?xs = 10" and n: "Suc n \<le> 10"
    using assms Suc by (simp_all add: ss_inv_def c_MaxStoredSgrPushes_def)
  have "tl (ss_entries s) = map (\<lambda>k. ?xs ! ring_back ?i (Suc k)) [0..<n]"
    by (simp only: ss_entries_def Suc upt_conv_Cons zero_less_Suc map_Suc_upt [symmetric] list.map map_map o_def list.sel)
  moreover have "ss_entries (snd (ss_Pop a s)) = map (\<lambda>k. ?xs ! ring_back (if ?i = 0 then 9 else ?i - 1) k) [0..<n]"
    using Suc l by (simp add: ss_entries_def ss_Pop_def Let_def)
  ultimately show ?thesis
    using ring_back_pop [OF i] n by simp
qed (simp add: ss_entries_def ss_Pop_def)

lemma ss_Pop_value:
  assumes "ss_inv s"
  shows "fst (ss_Pop a s) = (case ss_entries s of [] \<Rightarrow> a | e # _ \<Rightarrow> restored e a)"
proof (cases "ss_numSavedAttrs s")
  case (Suc n)
  have i: "ss_nextPushIndex s < 10" "length (ss_storedSgrAttributes s) = 10"
    using assms by (simp_all add: ss_inv_def c_MaxStoredSgrPushes_def)
  have "hd (ss_entries s) = ss_storedSgrAttributes s ! ring_back (ss_nextPushIndex s) 0" "ss_entries s \<noteq> []"
    using Suc by (simp_all add: ss_entries_def hd_map del: upt_Suc)
  then have "(case ss_entries s of [] \<Rightarrow> a | e # _ \<Rightarrow> restored e a) =
      restored (ss_storedSgrAttributes s ! ring_back (ss_nextPushIndex s) 0) a"
    by (cases "ss_entries s") simp_all
  then show ?thesis
    using Suc i by (simp add: ss_Pop_def Let_def ring_back_zero)
qed (simp add: ss_entries_def ss_Pop_def)

interpretation sgr: bounded_stack ss_inv ss_entries c_MaxStoredSgrPushes ss_push_saved ss_Pop restored
proof unfold_locales
  fix s assume "ss_inv s"
  then show "length (ss_entries s) \<le> c_MaxStoredSgrPushes" by (simp add: ss_entries_def ss_inv_def)
qed (simp_all add: ss_push_saved_inv ss_push_saved_entries ss_Pop_inv ss_Pop_entries ss_Pop_value)

lemma SgrStack_inv: "ss_inv SgrStack" "ss_entries SgrStack = []"
  by (simp_all add: ss_inv_def SgrStack_def ss_entries_def c_MaxStoredSgrPushes_def)

end
