(* ===== verification/Formatting.thy ===== *)
theory Formatting
  imports Utils State_Machine_Seq
begin

text \<open>
  Numbers as text: the decimal conversion behind \<^verbatim>\<open>%d\<close> and \<^verbatim>\<open>std::to_wstring\<close>, and the fact that the parser's
  accumulation of digits reads such a number back.
\<close>

fun digits_of :: "nat \<Rightarrow> nat list" where
  "digits_of n = (if n < 10 then [n] else digits_of (n div 10) @ [n mod 10])"

declare digits_of.simps [simp del]

definition digit :: "nat \<Rightarrow> char" where
  "digit d = char_of (48 + d)"

definition fmt_u :: "nat \<Rightarrow> string" where
  "fmt_u n = map digit (digits_of n)"

definition fmt_d :: "int \<Rightarrow> string" where
  "fmt_d i = (if i < 0 then CHR ''-'' # fmt_u (nat (- i)) else fmt_u (nat i))"

lemma digits_of_digits: "list_all (\<lambda>d. d < 10) (digits_of n)"
  by (induction n rule: digits_of.induct) (subst digits_of.simps, simp)

lemma digits_of_nonempty [simp]: "digits_of n \<noteq> []"
  by (subst digits_of.simps) simp

lemma decimal_snoc: "decimal (ds @ [d]) = decimal ds * 10 + d"
  by (simp add: decimal_def)

lemma decimal_digits_of [simp]: "decimal (digits_of n) = n"
proof (induction n rule: digits_of.induct)
  case (1 n)
  show ?case
  proof (cases "n < 10")
    case True
    then show ?thesis by (subst digits_of.simps) (simp add: decimal_def)
  next
    case False
    then show ?thesis using 1 by (subst digits_of.simps) (simp add: decimal_snoc)
  qed
qed

lemma wide_digit: "d < 10 \<Longrightarrow> of_char (digit d) = digit_char d"
proof -
  assume "d < 10"
  then have "of_char (char_of (48 + d)) = 48 + d" by (simp add: of_char_of)
  then have "(of_nat (of_char (digit d)) :: wchar) = of_nat (48 + d)" by (simp add: digit_def)
  then show ?thesis by (simp add: digit_char_def of_nat_of_char)
qed

lemma wide_fmt_u: "wide (fmt_u n) = map digit_char (digits_of n)"
  using digits_of_digits [of n] by (simp add: wide_def fmt_u_def list_all_iff wide_digit)

lemma fmt_d_nonneg: "0 \<le> i \<Longrightarrow> fmt_d i = fmt_u (nat i)"
  by (simp add: fmt_d_def)

lemma wide_append: "wide (a @ b) = wide a @ wide b"
  by (simp add: wide_def)

end
