(* ===== verification/Hyperlinks.thy ===== *)
theory Hyperlinks
  imports Formatting
begin

text \<open>
  The hyperlink tables of a text buffer (\<^verbatim>\<open>buffer/out/textBuffer.cpp\<close>): the identifiers given to links, their
  targets and the identifiers that clients chose. The hash function of the standard library is a parameter.
\<close>

text \<open>
  \<open>hl_customIdMap\<close> is an \<^verbatim>\<open>unordered_map\<close>; the list holds its entries in the order in which the loops over it
  meet them.
\<close>

record hyperlink_tables =
  hl_hyperlinkMap :: "16 word \<rightharpoonup> wstring"
  hl_customIdMap :: "(wstring \<times> 16 word) list"
  hl_currentHyperlinkId :: "16 word"

definition no_hyperlinks :: hyperlink_tables where
  "no_hyperlinks = \<lparr>hl_hyperlinkMap = Map.empty, hl_customIdMap = [], hl_currentHyperlinkId = 1\<rparr>"

definition AddHyperlinkToMap :: "wstring \<Rightarrow> 16 word \<Rightarrow> hyperlink_tables \<Rightarrow> hyperlink_tables" where
  "AddHyperlinkToMap uri hid t = t\<lparr>hl_hyperlinkMap := (hl_hyperlinkMap t)(hid \<mapsto> uri)\<rparr>"

text \<open>\<open>None\<close>: \<^verbatim>\<open>at\<close> throws.\<close>

definition GetHyperlinkUriFromId :: "16 word \<Rightarrow> hyperlink_tables \<Rightarrow> wstring option" where
  "GetHyperlinkUriFromId hid t = hl_hyperlinkMap t hid"

definition custom_key :: "(wstring \<Rightarrow> size_t) \<Rightarrow> wstring \<Rightarrow> wstring \<Rightarrow> wstring" where
  "custom_key hash uri hid = hid @ wide ''%'' @ wide (fmt_u (unat (hash uri)))"

definition GetHyperlinkId ::
    "(wstring \<Rightarrow> size_t) \<Rightarrow> wstring \<Rightarrow> wstring \<Rightarrow> hyperlink_tables \<Rightarrow> 16 word \<times> hyperlink_tables" where
  "GetHyperlinkId hash uri hid t =
     (let (numericId, t) =
        (if hid = [] then
           (hl_currentHyperlinkId t, t\<lparr>hl_currentHyperlinkId := hl_currentHyperlinkId t + 1\<rparr>)
         else
           (let newId = custom_key hash uri hid
            in case map_of (hl_customIdMap t) newId of
                 Some n \<Rightarrow> (n, t)
               | None \<Rightarrow>
                   (hl_currentHyperlinkId t,
                    t\<lparr>hl_customIdMap := hl_customIdMap t @ [(newId, hl_currentHyperlinkId t)],
                      hl_currentHyperlinkId := hl_currentHyperlinkId t + 1\<rparr>)))
      in (numericId,
          if hl_currentHyperlinkId t = 0 then t\<lparr>hl_currentHyperlinkId := hl_currentHyperlinkId t + 1\<rparr> else t))"

fun remove_custom :: "16 word \<Rightarrow> (wstring \<times> 16 word) list \<Rightarrow> (wstring \<times> 16 word) list" where
  "remove_custom hid [] = []"
| "remove_custom hid ((k, v) # m) = (if v = hid then m else (k, v) # remove_custom hid m)"

definition RemoveHyperlinkFromMap :: "16 word \<Rightarrow> hyperlink_tables \<Rightarrow> hyperlink_tables" where
  "RemoveHyperlinkFromMap hid t =
     t\<lparr>hl_hyperlinkMap := (hl_hyperlinkMap t)(hid := None), hl_customIdMap := remove_custom hid (hl_customIdMap t)\<rparr>"

fun find_custom :: "16 word \<Rightarrow> (wstring \<times> 16 word) list \<Rightarrow> wstring" where
  "find_custom hid [] = []"
| "find_custom hid ((k, v) # m) = (if v = hid then k else find_custom hid m)"

definition GetCustomIdFromId :: "16 word \<Rightarrow> hyperlink_tables \<Rightarrow> wstring" where
  "GetCustomIdFromId hid t = find_custom hid (hl_customIdMap t)"

definition CopyHyperlinkMaps :: "hyperlink_tables \<Rightarrow> hyperlink_tables \<Rightarrow> hyperlink_tables" where
  "CopyHyperlinkMaps other t =
     t\<lparr>hl_hyperlinkMap := hl_hyperlinkMap other, hl_customIdMap := hl_customIdMap other,
       hl_currentHyperlinkId := hl_currentHyperlinkId other\<rparr>"

section \<open>The tables stay consistent\<close>

text \<open>The next identifier and all identifiers given to clients are not 0, the identifier of no link.\<close>

definition hl_inv :: "hyperlink_tables \<Rightarrow> bool" where
  "hl_inv t \<longleftrightarrow> hl_currentHyperlinkId t \<noteq> 0 \<and> (\<forall>(k, v) \<in> set (hl_customIdMap t). v \<noteq> 0)"

lemma no_hyperlinks_inv: "hl_inv no_hyperlinks"
  by (simp add: hl_inv_def no_hyperlinks_def)

lemma past_zero: "x + 1 = 0 \<Longrightarrow> 2 + x \<noteq> (0 :: 16 word)"
proof -
  assume "x + 1 = 0"
  moreover have "2 + x = 1 + (x + 1)" by simp
  ultimately show ?thesis by (simp only: add_0_right) simp
qed

lemma GetHyperlinkId_inv:
  assumes "hl_inv t" "GetHyperlinkId hash uri hid t = (n, t')"
  shows "hl_inv t'" "n \<noteq> 0" "hl_hyperlinkMap t' = hl_hyperlinkMap t"
  using assms
  by (auto simp: GetHyperlinkId_def hl_inv_def Let_def past_zero split: if_splits option.splits dest!: map_of_SomeD)

lemma GetHyperlinkId_again:
  assumes "GetHyperlinkId hash uri hid t = (n, t')" "hid \<noteq> []"
  shows "GetHyperlinkId hash uri hid t' = (n, t'\<lparr>hl_currentHyperlinkId := (if hl_currentHyperlinkId t' = 0 then 1 else hl_currentHyperlinkId t')\<rparr>)"
  using assms
  by (auto simp: GetHyperlinkId_def Let_def map_add_def split: if_splits option.splits)

text \<open>The tables that the operations of a buffer can produce.\<close>

inductive hl_reachable :: "(wstring \<Rightarrow> size_t) \<Rightarrow> hyperlink_tables \<Rightarrow> bool" for hash where
  initial: "hl_reachable hash no_hyperlinks"
| identify: "hl_reachable hash t \<Longrightarrow> hl_reachable hash (snd (GetHyperlinkId hash uri hid t))"
| add: "hl_reachable hash t \<Longrightarrow> hl_reachable hash (AddHyperlinkToMap uri n t)"
| remove: "hl_reachable hash t \<Longrightarrow> hl_reachable hash (RemoveHyperlinkFromMap n t)"
| copy: "hl_reachable hash t \<Longrightarrow> hl_reachable hash other \<Longrightarrow> hl_reachable hash (CopyHyperlinkMaps other t)"

lemma remove_custom_subset: "set (remove_custom hid m) \<subseteq> set m"
  by (induction m) (auto split: if_splits)

lemma hl_reachable_inv: "hl_reachable hash t \<Longrightarrow> hl_inv t"
proof (induction rule: hl_reachable.induct)
  case (identify t uri hid)
  then show ?case using GetHyperlinkId_inv(1) [of t hash uri hid] by (metis prod.collapse)
next
  case (remove t n)
  then show ?case using remove_custom_subset [of n "hl_customIdMap t"] by (auto simp: hl_inv_def RemoveHyperlinkFromMap_def)
qed (simp_all add: no_hyperlinks_inv, simp_all add: hl_inv_def AddHyperlinkToMap_def CopyHyperlinkMaps_def)

end
