(* ===== verification/Sgr_Dispatch.thy ===== *)
theory Sgr_Dispatch
  imports Sgr_Stack Term_Dispatch Hyperlinks
begin

text \<open>
  Graphic renditions on both sides of a pseudo console: \<^verbatim>\<open>AdaptDispatch\<close> of the console host
  (\<^verbatim>\<open>terminal/adapter/adaptDispatchGraphics.cpp\<close>) over its console interface, and \<^verbatim>\<open>TerminalDispatch\<close> of the
  terminal (\<^verbatim>\<open>cascadia/TerminalCore/TerminalDispatchGraphics.cpp\<close>) over its terminal interface. The locale
  \<open>text_attribute_api\<close> is what a dispatcher relies on; both interfaces are interpretations of it.
\<close>

unbundle bit_operations_syntax

section \<open>The options of SGR\<close>

datatype (plugins only: code) GraphicsOptions =
    Off | BoldBright | RGBColorOrFaint | Italics | Underline | BlinkOrXterm256Index | RapidBlink | Negative
  | Invisible | CrossedOut | DoublyUnderlined | NotBoldOrFaint | NotItalics | NoUnderline | Steady | Positive
  | Visible | NotCrossedOut | ForegroundBlack | ForegroundRed | ForegroundGreen | ForegroundYellow
  | ForegroundBlue | ForegroundMagenta | ForegroundCyan | ForegroundWhite | ForegroundExtended
  | ForegroundDefault | BackgroundBlack | BackgroundRed | BackgroundGreen | BackgroundYellow | BackgroundBlue
  | BackgroundMagenta | BackgroundCyan | BackgroundWhite | BackgroundExtended | BackgroundDefault | Overline
  | NoOverline | BrightForegroundBlack | BrightForegroundRed | BrightForegroundGreen | BrightForegroundYellow
  | BrightForegroundBlue | BrightForegroundMagenta | BrightForegroundCyan | BrightForegroundWhite
  | BrightBackgroundBlack | BrightBackgroundRed | BrightBackgroundGreen | BrightBackgroundYellow
  | BrightBackgroundBlue | BrightBackgroundMagenta | BrightBackgroundCyan | BrightBackgroundWhite

definition GraphicsOptions_values :: "(nat \<times> GraphicsOptions) list" where
  "GraphicsOptions_values =
    [(0, Off), (1, BoldBright), (2, RGBColorOrFaint), (3, Italics), (4, Underline), (5, BlinkOrXterm256Index),
     (6, RapidBlink), (7, Negative), (8, Invisible), (9, CrossedOut), (21, DoublyUnderlined),
     (22, NotBoldOrFaint), (23, NotItalics), (24, NoUnderline), (25, Steady), (27, Positive), (28, Visible),
     (29, NotCrossedOut), (30, ForegroundBlack), (31, ForegroundRed), (32, ForegroundGreen),
     (33, ForegroundYellow), (34, ForegroundBlue), (35, ForegroundMagenta), (36, ForegroundCyan),
     (37, ForegroundWhite), (38, ForegroundExtended), (39, ForegroundDefault), (40, BackgroundBlack),
     (41, BackgroundRed), (42, BackgroundGreen), (43, BackgroundYellow), (44, BackgroundBlue),
     (45, BackgroundMagenta), (46, BackgroundCyan), (47, BackgroundWhite), (48, BackgroundExtended),
     (49, BackgroundDefault), (53, Overline), (55, NoOverline), (90, BrightForegroundBlack),
     (91, BrightForegroundRed), (92, BrightForegroundGreen), (93, BrightForegroundYellow),
     (94, BrightForegroundBlue), (95, BrightForegroundMagenta), (96, BrightForegroundCyan),
     (97, BrightForegroundWhite), (100, BrightBackgroundBlack), (101, BrightBackgroundRed),
     (102, BrightBackgroundGreen), (103, BrightBackgroundYellow), (104, BrightBackgroundBlue),
     (105, BrightBackgroundMagenta), (106, BrightBackgroundCyan), (107, BrightBackgroundWhite)]"

definition graphics_option :: "size_t \<Rightarrow> GraphicsOptions option" where
  "graphics_option v = map_of GraphicsOptions_values (unat v)"

section \<open>Colour indices\<close>

definition XtermToWindowsIndex :: "size_t \<Rightarrow> 16 word" where
  "XtermToWindowsIndex xtermTableEntry =
     (let fRed = WI_IsFlagSet xtermTableEntry 0x01;
          fGreen = WI_IsFlagSet xtermTableEntry 0x02;
          fBlue = WI_IsFlagSet xtermTableEntry 0x04;
          fBright = WI_IsFlagSet xtermTableEntry 0x08
      in (if fRed then FOREGROUND_RED else 0) + (if fGreen then FOREGROUND_GREEN else 0) +
         (if fBlue then FOREGROUND_BLUE else 0) + (if fBright then FOREGROUND_INTENSITY else 0))"

definition Xterm256ToWindowsIndex :: "size_t \<Rightarrow> 16 word" where
  "Xterm256ToWindowsIndex xtermTableEntry =
     (if xtermTableEntry < 16 then XtermToWindowsIndex xtermTableEntry else ucast xtermTableEntry)"

section \<open>The options applied to an attribute\<close>

abbreviation (input) BLUE_ATTR :: "8 word" where "BLUE_ATTR \<equiv> 0x01"
abbreviation (input) GREEN_ATTR :: "8 word" where "GREEN_ATTR \<equiv> 0x02"
abbreviation (input) RED_ATTR :: "8 word" where "RED_ATTR \<equiv> 0x04"
abbreviation (input) BRIGHT_ATTR :: "8 word" where "BRIGHT_ATTR \<equiv> 0x08"
abbreviation (input) DARK_BLACK :: "8 word" where "DARK_BLACK \<equiv> 0"
abbreviation (input) DARK_RED :: "8 word" where "DARK_RED \<equiv> RED_ATTR"
abbreviation (input) DARK_GREEN :: "8 word" where "DARK_GREEN \<equiv> GREEN_ATTR"
abbreviation (input) DARK_YELLOW :: "8 word" where "DARK_YELLOW \<equiv> RED_ATTR OR GREEN_ATTR"
abbreviation (input) DARK_BLUE :: "8 word" where "DARK_BLUE \<equiv> BLUE_ATTR"
abbreviation (input) DARK_MAGENTA :: "8 word" where "DARK_MAGENTA \<equiv> RED_ATTR OR BLUE_ATTR"
abbreviation (input) DARK_CYAN :: "8 word" where "DARK_CYAN \<equiv> GREEN_ATTR OR BLUE_ATTR"
abbreviation (input) DARK_WHITE :: "8 word" where "DARK_WHITE \<equiv> RED_ATTR OR GREEN_ATTR OR BLUE_ATTR"
abbreviation (input) BRIGHT_BLACK :: "8 word" where "BRIGHT_BLACK \<equiv> BRIGHT_ATTR"
abbreviation (input) BRIGHT_RED :: "8 word" where "BRIGHT_RED \<equiv> BRIGHT_ATTR OR RED_ATTR"
abbreviation (input) BRIGHT_GREEN :: "8 word" where "BRIGHT_GREEN \<equiv> BRIGHT_ATTR OR GREEN_ATTR"
abbreviation (input) BRIGHT_YELLOW :: "8 word" where "BRIGHT_YELLOW \<equiv> BRIGHT_ATTR OR RED_ATTR OR GREEN_ATTR"
abbreviation (input) BRIGHT_BLUE :: "8 word" where "BRIGHT_BLUE \<equiv> BRIGHT_ATTR OR BLUE_ATTR"
abbreviation (input) BRIGHT_MAGENTA :: "8 word" where "BRIGHT_MAGENTA \<equiv> BRIGHT_ATTR OR RED_ATTR OR BLUE_ATTR"
abbreviation (input) BRIGHT_CYAN :: "8 word" where "BRIGHT_CYAN \<equiv> BRIGHT_ATTR OR GREEN_ATTR OR BLUE_ATTR"
abbreviation (input) BRIGHT_WHITE :: "8 word" where "BRIGHT_WHITE \<equiv> BRIGHT_ATTR OR RED_ATTR OR GREEN_ATTR OR BLUE_ATTR"

text \<open>
  The cases of the switch in \<^verbatim>\<open>AdaptDispatch::SetGraphicsRendition\<close>; the two extended colours, which read
  further options, are cases of the loop below.
\<close>

fun ad_apply_option :: "GraphicsOptions \<Rightarrow> TextAttribute \<Rightarrow> TextAttribute" where
  "ad_apply_option Off a = ta_SetDefaultMetaAttrs (ta_SetDefaultBackground (ta_SetDefaultForeground a))"
| "ad_apply_option ForegroundDefault a = ta_SetDefaultForeground a"
| "ad_apply_option BackgroundDefault a = ta_SetDefaultBackground a"
| "ad_apply_option BoldBright a = ta_SetBold True a"
| "ad_apply_option RGBColorOrFaint a = ta_SetFaint True a"
| "ad_apply_option NotBoldOrFaint a = ta_SetFaint False (ta_SetBold False a)"
| "ad_apply_option Italics a = ta_SetItalic True a"
| "ad_apply_option NotItalics a = ta_SetItalic False a"
| "ad_apply_option BlinkOrXterm256Index a = ta_SetBlinking True a"
| "ad_apply_option RapidBlink a = ta_SetBlinking True a"
| "ad_apply_option Steady a = ta_SetBlinking False a"
| "ad_apply_option Invisible a = ta_SetInvisible True a"
| "ad_apply_option Visible a = ta_SetInvisible False a"
| "ad_apply_option CrossedOut a = ta_SetCrossedOut True a"
| "ad_apply_option NotCrossedOut a = ta_SetCrossedOut False a"
| "ad_apply_option Negative a = ta_SetReverseVideo True a"
| "ad_apply_option Positive a = ta_SetReverseVideo False a"
| "ad_apply_option Underline a = ta_SetUnderlined True a"
| "ad_apply_option DoublyUnderlined a = ta_SetDoublyUnderlined True a"
| "ad_apply_option NoUnderline a = ta_SetDoublyUnderlined False (ta_SetUnderlined False a)"
| "ad_apply_option Overline a = ta_SetOverlined True a"
| "ad_apply_option NoOverline a = ta_SetOverlined False a"
| "ad_apply_option ForegroundBlack a = ta_SetIndexedForeground DARK_BLACK a"
| "ad_apply_option ForegroundBlue a = ta_SetIndexedForeground DARK_BLUE a"
| "ad_apply_option ForegroundGreen a = ta_SetIndexedForeground DARK_GREEN a"
| "ad_apply_option ForegroundCyan a = ta_SetIndexedForeground DARK_CYAN a"
| "ad_apply_option ForegroundRed a = ta_SetIndexedForeground DARK_RED a"
| "ad_apply_option ForegroundMagenta a = ta_SetIndexedForeground DARK_MAGENTA a"
| "ad_apply_option ForegroundYellow a = ta_SetIndexedForeground DARK_YELLOW a"
| "ad_apply_option ForegroundWhite a = ta_SetIndexedForeground DARK_WHITE a"
| "ad_apply_option BackgroundBlack a = ta_SetIndexedBackground DARK_BLACK a"
| "ad_apply_option BackgroundBlue a = ta_SetIndexedBackground DARK_BLUE a"
| "ad_apply_option BackgroundGreen a = ta_SetIndexedBackground DARK_GREEN a"
| "ad_apply_option BackgroundCyan a = ta_SetIndexedBackground DARK_CYAN a"
| "ad_apply_option BackgroundRed a = ta_SetIndexedBackground DARK_RED a"
| "ad_apply_option BackgroundMagenta a = ta_SetIndexedBackground DARK_MAGENTA a"
| "ad_apply_option BackgroundYellow a = ta_SetIndexedBackground DARK_YELLOW a"
| "ad_apply_option BackgroundWhite a = ta_SetIndexedBackground DARK_WHITE a"
| "ad_apply_option BrightForegroundBlack a = ta_SetIndexedForeground BRIGHT_BLACK a"
| "ad_apply_option BrightForegroundBlue a = ta_SetIndexedForeground BRIGHT_BLUE a"
| "ad_apply_option BrightForegroundGreen a = ta_SetIndexedForeground BRIGHT_GREEN a"
| "ad_apply_option BrightForegroundCyan a = ta_SetIndexedForeground BRIGHT_CYAN a"
| "ad_apply_option BrightForegroundRed a = ta_SetIndexedForeground BRIGHT_RED a"
| "ad_apply_option BrightForegroundMagenta a = ta_SetIndexedForeground BRIGHT_MAGENTA a"
| "ad_apply_option BrightForegroundYellow a = ta_SetIndexedForeground BRIGHT_YELLOW a"
| "ad_apply_option BrightForegroundWhite a = ta_SetIndexedForeground BRIGHT_WHITE a"
| "ad_apply_option BrightBackgroundBlack a = ta_SetIndexedBackground BRIGHT_BLACK a"
| "ad_apply_option BrightBackgroundBlue a = ta_SetIndexedBackground BRIGHT_BLUE a"
| "ad_apply_option BrightBackgroundGreen a = ta_SetIndexedBackground BRIGHT_GREEN a"
| "ad_apply_option BrightBackgroundCyan a = ta_SetIndexedBackground BRIGHT_CYAN a"
| "ad_apply_option BrightBackgroundRed a = ta_SetIndexedBackground BRIGHT_RED a"
| "ad_apply_option BrightBackgroundMagenta a = ta_SetIndexedBackground BRIGHT_MAGENTA a"
| "ad_apply_option BrightBackgroundYellow a = ta_SetIndexedBackground BRIGHT_YELLOW a"
| "ad_apply_option BrightBackgroundWhite a = ta_SetIndexedBackground BRIGHT_WHITE a"
| "ad_apply_option ForegroundExtended a = a"
| "ad_apply_option BackgroundExtended a = a"

definition ad_SetRgbColorsHelper :: "VTParameters \<Rightarrow> TextAttribute \<Rightarrow> bool \<Rightarrow> nat \<times> TextAttribute" where
  "ad_SetRgbColorsHelper options attr isForeground =
     (let typeOpt = vtp_enum (vtps_at options 0) in
      if typeOpt = 2 then
        (let red = value_or (vtps_at options 1) 0;
             green = value_or (vtps_at options 2) 0;
             blue = value_or (vtps_at options 3) 0
         in (4, if red \<le> 255 \<and> green \<le> 255 \<and> blue \<le> 255
                then ta_SetColor (RGB (ucast red) (ucast green) (ucast blue)) isForeground attr else attr))
      else if typeOpt = 5 then
        (let tableIndex = value_or (vtps_at options 1) 0
         in (2, if tableIndex \<le> 255 then
                  (let adjustedIndex = ucast (Xterm256ToWindowsIndex tableIndex)
                   in if isForeground then ta_SetIndexedForeground256 adjustedIndex attr
                      else ta_SetIndexedBackground256 adjustedIndex attr)
                else attr))
      else (1, attr))"

text \<open>The colour constants, the switch and the helper of \<^verbatim>\<open>TerminalDispatchGraphics.cpp\<close>.\<close>

abbreviation (input) td_RED_ATTR :: "8 word" where "td_RED_ATTR \<equiv> 0x01"
abbreviation (input) td_GREEN_ATTR :: "8 word" where "td_GREEN_ATTR \<equiv> 0x02"
abbreviation (input) td_BLUE_ATTR :: "8 word" where "td_BLUE_ATTR \<equiv> 0x04"
abbreviation (input) td_BRIGHT_ATTR :: "8 word" where "td_BRIGHT_ATTR \<equiv> 0x08"
abbreviation (input) td_DARK_BLACK :: "8 word" where "td_DARK_BLACK \<equiv> 0"
abbreviation (input) td_DARK_RED :: "8 word" where "td_DARK_RED \<equiv> td_RED_ATTR"
abbreviation (input) td_DARK_GREEN :: "8 word" where "td_DARK_GREEN \<equiv> td_GREEN_ATTR"
abbreviation (input) td_DARK_YELLOW :: "8 word" where "td_DARK_YELLOW \<equiv> td_RED_ATTR OR td_GREEN_ATTR"
abbreviation (input) td_DARK_BLUE :: "8 word" where "td_DARK_BLUE \<equiv> td_BLUE_ATTR"
abbreviation (input) td_DARK_MAGENTA :: "8 word" where "td_DARK_MAGENTA \<equiv> td_RED_ATTR OR td_BLUE_ATTR"
abbreviation (input) td_DARK_CYAN :: "8 word" where "td_DARK_CYAN \<equiv> td_GREEN_ATTR OR td_BLUE_ATTR"
abbreviation (input) td_DARK_WHITE :: "8 word" where "td_DARK_WHITE \<equiv> td_RED_ATTR OR td_GREEN_ATTR OR td_BLUE_ATTR"
abbreviation (input) td_BRIGHT_BLACK :: "8 word" where "td_BRIGHT_BLACK \<equiv> td_BRIGHT_ATTR"
abbreviation (input) td_BRIGHT_RED :: "8 word" where "td_BRIGHT_RED \<equiv> td_BRIGHT_ATTR OR td_RED_ATTR"
abbreviation (input) td_BRIGHT_GREEN :: "8 word" where "td_BRIGHT_GREEN \<equiv> td_BRIGHT_ATTR OR td_GREEN_ATTR"
abbreviation (input) td_BRIGHT_YELLOW :: "8 word" where "td_BRIGHT_YELLOW \<equiv> td_BRIGHT_ATTR OR td_RED_ATTR OR td_GREEN_ATTR"
abbreviation (input) td_BRIGHT_BLUE :: "8 word" where "td_BRIGHT_BLUE \<equiv> td_BRIGHT_ATTR OR td_BLUE_ATTR"
abbreviation (input) td_BRIGHT_MAGENTA :: "8 word" where "td_BRIGHT_MAGENTA \<equiv> td_BRIGHT_ATTR OR td_RED_ATTR OR td_BLUE_ATTR"
abbreviation (input) td_BRIGHT_CYAN :: "8 word" where "td_BRIGHT_CYAN \<equiv> td_BRIGHT_ATTR OR td_GREEN_ATTR OR td_BLUE_ATTR"
abbreviation (input) td_BRIGHT_WHITE :: "8 word" where "td_BRIGHT_WHITE \<equiv> td_BRIGHT_ATTR OR td_RED_ATTR OR td_GREEN_ATTR OR td_BLUE_ATTR"

fun td_apply_option :: "GraphicsOptions \<Rightarrow> TextAttribute \<Rightarrow> TextAttribute" where
  "td_apply_option Off a = ta_SetDefaultMetaAttrs (ta_SetDefaultBackground (ta_SetDefaultForeground a))"
| "td_apply_option ForegroundDefault a = ta_SetDefaultForeground a"
| "td_apply_option BackgroundDefault a = ta_SetDefaultBackground a"
| "td_apply_option BoldBright a = ta_SetBold True a"
| "td_apply_option RGBColorOrFaint a = ta_SetFaint True a"
| "td_apply_option NotBoldOrFaint a = ta_SetFaint False (ta_SetBold False a)"
| "td_apply_option Italics a = ta_SetItalic True a"
| "td_apply_option NotItalics a = ta_SetItalic False a"
| "td_apply_option BlinkOrXterm256Index a = ta_SetBlinking True a"
| "td_apply_option RapidBlink a = ta_SetBlinking True a"
| "td_apply_option Steady a = ta_SetBlinking False a"
| "td_apply_option Invisible a = ta_SetInvisible True a"
| "td_apply_option Visible a = ta_SetInvisible False a"
| "td_apply_option CrossedOut a = ta_SetCrossedOut True a"
| "td_apply_option NotCrossedOut a = ta_SetCrossedOut False a"
| "td_apply_option Negative a = ta_SetReverseVideo True a"
| "td_apply_option Positive a = ta_SetReverseVideo False a"
| "td_apply_option Underline a = ta_SetUnderlined True a"
| "td_apply_option DoublyUnderlined a = ta_SetDoublyUnderlined True a"
| "td_apply_option NoUnderline a = ta_SetDoublyUnderlined False (ta_SetUnderlined False a)"
| "td_apply_option Overline a = ta_SetOverlined True a"
| "td_apply_option NoOverline a = ta_SetOverlined False a"
| "td_apply_option ForegroundBlack a = ta_SetIndexedForeground td_DARK_BLACK a"
| "td_apply_option ForegroundBlue a = ta_SetIndexedForeground td_DARK_BLUE a"
| "td_apply_option ForegroundGreen a = ta_SetIndexedForeground td_DARK_GREEN a"
| "td_apply_option ForegroundCyan a = ta_SetIndexedForeground td_DARK_CYAN a"
| "td_apply_option ForegroundRed a = ta_SetIndexedForeground td_DARK_RED a"
| "td_apply_option ForegroundMagenta a = ta_SetIndexedForeground td_DARK_MAGENTA a"
| "td_apply_option ForegroundYellow a = ta_SetIndexedForeground td_DARK_YELLOW a"
| "td_apply_option ForegroundWhite a = ta_SetIndexedForeground td_DARK_WHITE a"
| "td_apply_option BackgroundBlack a = ta_SetIndexedBackground td_DARK_BLACK a"
| "td_apply_option BackgroundBlue a = ta_SetIndexedBackground td_DARK_BLUE a"
| "td_apply_option BackgroundGreen a = ta_SetIndexedBackground td_DARK_GREEN a"
| "td_apply_option BackgroundCyan a = ta_SetIndexedBackground td_DARK_CYAN a"
| "td_apply_option BackgroundRed a = ta_SetIndexedBackground td_DARK_RED a"
| "td_apply_option BackgroundMagenta a = ta_SetIndexedBackground td_DARK_MAGENTA a"
| "td_apply_option BackgroundYellow a = ta_SetIndexedBackground td_DARK_YELLOW a"
| "td_apply_option BackgroundWhite a = ta_SetIndexedBackground td_DARK_WHITE a"
| "td_apply_option BrightForegroundBlack a = ta_SetIndexedForeground td_BRIGHT_BLACK a"
| "td_apply_option BrightForegroundBlue a = ta_SetIndexedForeground td_BRIGHT_BLUE a"
| "td_apply_option BrightForegroundGreen a = ta_SetIndexedForeground td_BRIGHT_GREEN a"
| "td_apply_option BrightForegroundCyan a = ta_SetIndexedForeground td_BRIGHT_CYAN a"
| "td_apply_option BrightForegroundRed a = ta_SetIndexedForeground td_BRIGHT_RED a"
| "td_apply_option BrightForegroundMagenta a = ta_SetIndexedForeground td_BRIGHT_MAGENTA a"
| "td_apply_option BrightForegroundYellow a = ta_SetIndexedForeground td_BRIGHT_YELLOW a"
| "td_apply_option BrightForegroundWhite a = ta_SetIndexedForeground td_BRIGHT_WHITE a"
| "td_apply_option BrightBackgroundBlack a = ta_SetIndexedBackground td_BRIGHT_BLACK a"
| "td_apply_option BrightBackgroundBlue a = ta_SetIndexedBackground td_BRIGHT_BLUE a"
| "td_apply_option BrightBackgroundGreen a = ta_SetIndexedBackground td_BRIGHT_GREEN a"
| "td_apply_option BrightBackgroundCyan a = ta_SetIndexedBackground td_BRIGHT_CYAN a"
| "td_apply_option BrightBackgroundRed a = ta_SetIndexedBackground td_BRIGHT_RED a"
| "td_apply_option BrightBackgroundMagenta a = ta_SetIndexedBackground td_BRIGHT_MAGENTA a"
| "td_apply_option BrightBackgroundYellow a = ta_SetIndexedBackground td_BRIGHT_YELLOW a"
| "td_apply_option BrightBackgroundWhite a = ta_SetIndexedBackground td_BRIGHT_WHITE a"
| "td_apply_option ForegroundExtended a = a"
| "td_apply_option BackgroundExtended a = a"

definition td_SetRgbColorsHelper :: "VTParameters \<Rightarrow> TextAttribute \<Rightarrow> bool \<Rightarrow> nat \<times> TextAttribute" where
  "td_SetRgbColorsHelper options attr isForeground =
     (let typeOpt = vtp_enum (vtps_at options 0) in
      if typeOpt = 2 then
        (let red = value_or (vtps_at options 1) 0;
             green = value_or (vtps_at options 2) 0;
             blue = value_or (vtps_at options 3) 0
         in (4, if red \<le> 255 \<and> green \<le> 255 \<and> blue \<le> 255
                then ta_SetColor (RGB (ucast red) (ucast green) (ucast blue)) isForeground attr else attr))
      else if typeOpt = 5 then
        (let tableIndex = value_or (vtps_at options 1) 0
         in (2, if tableIndex \<le> 255 then
                  (let adjustedIndex = ucast tableIndex
                   in if isForeground then ta_SetIndexedForeground256 adjustedIndex attr
                      else ta_SetIndexedBackground256 adjustedIndex attr)
                else attr))
      else (1, attr))"

text \<open>
  The loop over the options, which both dispatchers have: \<open>sgr_loop\<close> with the dispatcher's switch and its
  \<^verbatim>\<open>_SetRgbColorsHelper\<close>. \<open>None\<close>: \<^verbatim>\<open>subspan\<close> ends the process.
\<close>

function sgr_loop :: "(GraphicsOptions \<Rightarrow> TextAttribute \<Rightarrow> TextAttribute) \<Rightarrow>
    (VTParameters \<Rightarrow> TextAttribute \<Rightarrow> bool \<Rightarrow> nat \<times> TextAttribute) \<Rightarrow>
    VTParameters \<Rightarrow> nat \<Rightarrow> TextAttribute \<Rightarrow> TextAttribute option" where
  "sgr_loop apply_option SetRgbColorsHelper options i attr =
     (if i < vtps_size options then
        (case graphics_option (vtp_enum (vtps_at options i)) of
           None \<Rightarrow> sgr_loop apply_option SetRgbColorsHelper options (i + 1) attr
         | Some opt \<Rightarrow>
             if opt = ForegroundExtended \<or> opt = BackgroundExtended then
               (case vtps_subspan options (i + 1) of
                  None \<Rightarrow> None
                | Some rest \<Rightarrow>
                    (case SetRgbColorsHelper rest attr (opt = ForegroundExtended) of
                       (consumed, attr') \<Rightarrow>
                         sgr_loop apply_option SetRgbColorsHelper options (i + consumed + 1) attr'))
             else sgr_loop apply_option SetRgbColorsHelper options (i + 1) (apply_option opt attr))
      else Some attr)"
  by pat_completeness auto
termination by (relation "measure (\<lambda>(apply_option, helper, options, i, attr). vtps_size options - i)") auto

declare sgr_loop.simps [simp del]

section \<open>The console host\<close>

text \<open>
  What \<^verbatim>\<open>AdaptDispatch\<close> uses of its console interface \<^verbatim>\<open>ConGetSet\<close>, and its own state. \<open>None\<close> as the result of an
  operation: the process ends.
\<close>

record 's text_api =
  PrivateGetTextAttributes :: "'s \<Rightarrow> bool \<times> TextAttribute"
  PrivateSetTextAttributes :: "TextAttribute \<Rightarrow> 's \<Rightarrow> bool \<times> 's"

record 's AdaptDispatch =
  ad_console :: 's
  ad_sgrStack :: SgrStack

definition ad_SetGraphicsRendition ::
    "'s text_api \<Rightarrow> VTParameters \<Rightarrow> 's AdaptDispatch \<Rightarrow> (bool \<times> 's AdaptDispatch) option" where
  "ad_SetGraphicsRendition api options d =
     (case PrivateGetTextAttributes api (ad_console d) of
        (success, attr) \<Rightarrow>
          if success then
            (case sgr_loop ad_apply_option ad_SetRgbColorsHelper options 0 attr of
               None \<Rightarrow> None
             | Some attr' \<Rightarrow>
                 (case PrivateSetTextAttributes api attr' (ad_console d) of
                    (success, s) \<Rightarrow> Some (success, d\<lparr>ad_console := s\<rparr>)))
          else Some (False, d))"

definition ad_PushGraphicsRendition ::
    "'s text_api \<Rightarrow> VTParameters \<Rightarrow> 's AdaptDispatch \<Rightarrow> bool \<times> 's AdaptDispatch" where
  "ad_PushGraphicsRendition api options d =
     (case PrivateGetTextAttributes api (ad_console d) of
        (success, currentAttributes) \<Rightarrow>
          if success then (True, d\<lparr>ad_sgrStack := ss_Push currentAttributes options (ad_sgrStack d)\<rparr>)
          else (False, d))"

definition ad_PopGraphicsRendition :: "'s text_api \<Rightarrow> 's AdaptDispatch \<Rightarrow> bool \<times> 's AdaptDispatch" where
  "ad_PopGraphicsRendition api d =
     (case PrivateGetTextAttributes api (ad_console d) of
        (success, currentAttributes) \<Rightarrow>
          if success then
            (case ss_Pop currentAttributes (ad_sgrStack d) of
               (attrs, stack) \<Rightarrow>
                 (case PrivateSetTextAttributes api attrs (ad_console d) of
                    (success, s) \<Rightarrow> (success, d\<lparr>ad_console := s, ad_sgrStack := stack\<rparr>)))
          else (False, d))"

text \<open>
  \<^verbatim>\<open>ConhostInternalGetSet\<close> and the parts of \<^verbatim>\<open>SCREEN_INFORMATION\<close> it reads and writes: the current attributes
  of the text buffer, the compatibility flag, the legacy defaults, and the buffer's hyperlinks.
\<close>

record screen_attributes =
  si_currentAttributes :: TextAttribute
  si_ignoreLegacyEquivalentVTAttributes :: bool
  si_legacyDefaults :: legacy_defaults
  si_hyperlinks :: hyperlink_tables

definition si_GetAttributes :: "screen_attributes \<Rightarrow> TextAttribute" where
  "si_GetAttributes s = si_currentAttributes s"

definition si_SetAttributes :: "TextAttribute \<Rightarrow> screen_attributes \<Rightarrow> screen_attributes" where
  "si_SetAttributes attributes s =
     (if si_ignoreLegacyEquivalentVTAttributes s
      then s\<lparr>si_currentAttributes := StripErroneousVT16VersionsOfLegacyDefaults (si_legacyDefaults s) attributes\<rparr>
      else s\<lparr>si_currentAttributes := attributes\<rparr>)"

definition ConhostInternalGetSet :: "screen_attributes text_api" where
  "ConhostInternalGetSet =
     \<lparr>PrivateGetTextAttributes = (\<lambda>s. (True, si_GetAttributes s)),
      PrivateSetTextAttributes = (\<lambda>attrs s. (True, si_SetAttributes attrs s))\<rparr>"

text \<open>Hyperlinks bypass \<^verbatim>\<open>SCREEN_INFORMATION::SetAttributes\<close> and write to the text buffer.\<close>

definition DoSrvAddHyperlink :: "(wstring \<Rightarrow> size_t) \<Rightarrow> wstring \<Rightarrow> wstring \<Rightarrow> screen_attributes \<Rightarrow> screen_attributes" where
  "DoSrvAddHyperlink hash uri params s =
     (let attr = si_GetAttributes s;
          (hid, tables) = GetHyperlinkId hash uri params (si_hyperlinks s);
          attr = ta_SetHyperlinkId hid attr
      in s\<lparr>si_currentAttributes := attr, si_hyperlinks := AddHyperlinkToMap uri hid tables\<rparr>)"

definition DoSrvEndHyperlink :: "screen_attributes \<Rightarrow> screen_attributes" where
  "DoSrvEndHyperlink s = s\<lparr>si_currentAttributes := ta_SetHyperlinkId 0 (si_GetAttributes s)\<rparr>"

section \<open>The terminal\<close>

record Terminal_attributes =
  term_currentAttributes :: TextAttribute
  term_sgrStack :: SgrStack
  term_hyperlinks :: hyperlink_tables

definition term_GetTextAttributes :: "Terminal_attributes \<Rightarrow> TextAttribute" where
  "term_GetTextAttributes t = term_currentAttributes t"

definition term_SetTextAttributes :: "TextAttribute \<Rightarrow> Terminal_attributes \<Rightarrow> Terminal_attributes" where
  "term_SetTextAttributes attrs t = t\<lparr>term_currentAttributes := attrs\<rparr>"

definition td_SetGraphicsRendition ::
    "VTParameters \<Rightarrow> Terminal_attributes \<Rightarrow> (bool \<times> Terminal_attributes) option" where
  "td_SetGraphicsRendition options t =
     (case sgr_loop td_apply_option td_SetRgbColorsHelper options 0 (term_GetTextAttributes t) of
        None \<Rightarrow> None
      | Some attr \<Rightarrow> Some (True, term_SetTextAttributes attr t))"

definition term_PushGraphicsRendition :: "VTParameters \<Rightarrow> Terminal_attributes \<Rightarrow> bool \<times> Terminal_attributes" where
  "term_PushGraphicsRendition options t =
     (True, t\<lparr>term_sgrStack := ss_Push (term_currentAttributes t) options (term_sgrStack t)\<rparr>)"

definition term_PopGraphicsRendition :: "Terminal_attributes \<Rightarrow> bool \<times> Terminal_attributes" where
  "term_PopGraphicsRendition t =
     (case ss_Pop (term_currentAttributes t) (term_sgrStack t) of
        (attrs, stack) \<Rightarrow> (True, t\<lparr>term_currentAttributes := attrs, term_sgrStack := stack\<rparr>))"

definition term_AddHyperlink ::
    "(wstring \<Rightarrow> size_t) \<Rightarrow> wstring \<Rightarrow> wstring \<Rightarrow> Terminal_attributes \<Rightarrow> bool \<times> Terminal_attributes" where
  "term_AddHyperlink hash uri params t =
     (let attr = term_currentAttributes t;
          (hid, tables) = GetHyperlinkId hash uri params (term_hyperlinks t);
          attr = ta_SetHyperlinkId hid attr
      in (True, t\<lparr>term_currentAttributes := attr, term_hyperlinks := AddHyperlinkToMap uri hid tables\<rparr>))"

definition term_EndHyperlink :: "Terminal_attributes \<Rightarrow> bool \<times> Terminal_attributes" where
  "term_EndHyperlink t = (True, t\<lparr>term_currentAttributes := ta_SetHyperlinkId 0 (term_currentAttributes t)\<rparr>)"

section \<open>The loop by the list of its options\<close>

text \<open>The options in order, each colour taking its own; an empty list is one omitted option.\<close>

function sgr_apply :: "(GraphicsOptions \<Rightarrow> TextAttribute \<Rightarrow> TextAttribute) \<Rightarrow>
    (VTParameters \<Rightarrow> TextAttribute \<Rightarrow> bool \<Rightarrow> nat \<times> TextAttribute) \<Rightarrow>
    VTParameters \<Rightarrow> TextAttribute \<Rightarrow> TextAttribute" where
  "sgr_apply f h [] a = a"
| "sgr_apply f h (p # ps) a =
     (case graphics_option (vtp_enum p) of
        None \<Rightarrow> sgr_apply f h ps a
      | Some opt \<Rightarrow>
          if opt = ForegroundExtended \<or> opt = BackgroundExtended
          then sgr_apply f h (drop (fst (h ps a (opt = ForegroundExtended))) ps) (snd (h ps a (opt = ForegroundExtended)))
          else sgr_apply f h ps (f opt a))"
  by pat_completeness auto
termination by (relation "measure (\<lambda>(f, h, ps, a). length ps)") auto

definition sgr_options :: "VTParameters \<Rightarrow> VTParameters" where
  "sgr_options options = (if options = [] then [vtp_omitted] else options)"

lemma graphics_option_zero: "graphics_option 0 = Some Off"
  by (simp add: graphics_option_def GraphicsOptions_values_def)

lemma sgr_loop_drop:
  assumes "options \<noteq> []"
  shows "sgr_loop f h options i a = Some (sgr_apply f h (drop i options) a)"
  using assms
proof (induction f h options i a rule: sgr_loop.induct)
  case (1 f h options i a)
  then have sz: "vtps_size options = length options"
    by (cases options) (simp_all add: vtps_size_def)
  show ?case
  proof (cases "i < length options")
    case False
    then show ?thesis by (subst sgr_loop.simps) (simp add: sz)
  next
    case True
    then have i: "i < vtps_size options" and d: "drop i options = options ! i # drop (Suc i) options"
      by (simp_all add: vtps_size_def Cons_nth_drop_Suc)
    show ?thesis
      using 1 i True
      by (subst sgr_loop.simps)
        (auto simp: d vtps_at_def vtps_subspan_def add.commute split: option.split prod.split)
  qed
qed

lemma sgr_loop_apply:
  "sgr_loop f h options 0 a = Some (sgr_apply f h (sgr_options options) a)"
proof (cases "options = []")
  case True
  have "sgr_loop f h [] 1 b = Some b" for b by (subst sgr_loop.simps) (simp add: vtps_size_def)
  then show ?thesis
    unfolding True
    by (subst sgr_loop.simps)
      (simp add: sgr_options_def vtps_size_def vtps_at_def vtp_enum_def value_or_def vtp_omitted_def has_value_def graphics_option_zero)
next
  case False
  then show ?thesis by (simp add: sgr_loop_drop sgr_options_def)
qed

section \<open>The contract of the attribute interface\<close>

text \<open>
  In the states \<open>ok\<close> both calls succeed, and what was set is what is read. The dispatcher then applies exactly
  its options, saves and restores exactly what the stack holds.
\<close>

locale text_attribute_api =
  fixes api :: "'s text_api"
    and ok :: "'s \<Rightarrow> bool"
  assumes get_ok: "ok s \<Longrightarrow> fst (PrivateGetTextAttributes api s)"
    and set_ok: "ok s \<Longrightarrow> fst (PrivateSetTextAttributes api a s)"
    and set_keeps: "ok s \<Longrightarrow> ok (snd (PrivateSetTextAttributes api a s))"
    and get_set: "ok s \<Longrightarrow> snd (PrivateGetTextAttributes api (snd (PrivateSetTextAttributes api a s))) = a"
begin

abbreviation (input) attributes :: "'s AdaptDispatch \<Rightarrow> TextAttribute" where
  "attributes d \<equiv> snd (PrivateGetTextAttributes api (ad_console d))"

lemma rendition_applied:
  assumes "ok (ad_console d)"
  obtains d' where "ad_SetGraphicsRendition api options d = Some (True, d')" "ok (ad_console d')"
    "attributes d' = sgr_apply ad_apply_option ad_SetRgbColorsHelper (sgr_options options) (attributes d)"
    "ad_sgrStack d' = ad_sgrStack d"
proof -
  define a where "a = sgr_apply ad_apply_option ad_SetRgbColorsHelper (sgr_options options) (attributes d)"
  have "ad_SetGraphicsRendition api options d =
      Some (True, d\<lparr>ad_console := snd (PrivateSetTextAttributes api a (ad_console d))\<rparr>)"
    using get_ok [OF assms] set_ok [OF assms, of a]
    by (simp add: ad_SetGraphicsRendition_def sgr_loop_apply case_prod_unfold a_def)
  then show thesis
    by (rule that) (simp_all add: set_keeps [OF assms] get_set [OF assms] a_def)
qed

lemma rendition_pushed:
  assumes "ok (ad_console d)"
  shows "ad_PushGraphicsRendition api options d =
    (True, d\<lparr>ad_sgrStack := ss_Push (attributes d) options (ad_sgrStack d)\<rparr>)"
  using get_ok [OF assms] by (simp add: ad_PushGraphicsRendition_def case_prod_unfold)

lemma rendition_popped:
  assumes "ok (ad_console d)"
  obtains d' where "ad_PopGraphicsRendition api d = (True, d')" "ok (ad_console d')"
    "attributes d' = fst (ss_Pop (attributes d) (ad_sgrStack d))"
    "ad_sgrStack d' = snd (ss_Pop (attributes d) (ad_sgrStack d))"
proof -
  let ?p = "ss_Pop (attributes d) (ad_sgrStack d)"
  have "ad_PopGraphicsRendition api d =
      (True, d\<lparr>ad_console := snd (PrivateSetTextAttributes api (fst ?p) (ad_console d)), ad_sgrStack := snd ?p\<rparr>)"
    using get_ok [OF assms] set_ok [OF assms, of "fst ?p"]
    by (simp add: ad_PopGraphicsRendition_def case_prod_unfold)
  then show thesis
    by (rule that) (simp_all add: set_keeps [OF assms] get_set [OF assms])
qed

end

interpretation conhost: text_attribute_api ConhostInternalGetSet "\<lambda>s. \<not> si_ignoreLegacyEquivalentVTAttributes s"
  by unfold_locales (simp_all add: ConhostInternalGetSet_def si_GetAttributes_def si_SetAttributes_def)

section \<open>The two colour orders\<close>

text \<open>
  The console host numbers its sixteen colours blue first, the terminal red first. \<open>tc_xterm\<close> exchanges the two
  orders; everything else of an attribute is the same on both sides.
\<close>

definition tc_xterm :: "TextColor \<Rightarrow> TextColor" where
  "tc_xterm c = (if tc_IsIndex16 c \<or> tc_IsIndex256 c then c\<lparr>tc_red := ucast (Xterm256ToWindowsIndex (ucast (tc_red c)))\<rparr> else c)"

definition ta_xterm :: "TextAttribute \<Rightarrow> TextAttribute" where
  "ta_xterm a = a\<lparr>ta_foreground := tc_xterm (ta_foreground a), ta_background := tc_xterm (ta_background a)\<rparr>"

end
