(* ===== verification/Vt_Render.thy ===== *)
theory Vt_Render
  imports Sgr_Dispatch
begin

text \<open>
  The VT renderer of the console host (\<^verbatim>\<open>renderer/vt\<close>): the sequences of \<^verbatim>\<open>VtSequences.cpp\<close>, the brush updates of
  \<^verbatim>\<open>paint.cpp\<close>, \<^verbatim>\<open>XtermEngine.cpp\<close> and \<^verbatim>\<open>Xterm256Engine.cpp\<close>, and the cursor moves of \<^verbatim>\<open>XtermEngine::_MoveCursor\<close>. The
  engine appends bytes to its buffer; running out of memory is not modelled, so an operation that can only
  fail there has no error value.
\<close>

unbundle bit_operations_syntax

section \<open>The engine's state\<close>

record COORD =
  coord_X :: int
  coord_Y :: int

definition INVALID_COORDS :: COORD where
  "INVALID_COORDS = \<lparr>coord_X = -1, coord_Y = -1\<rparr>"

definition INVALID_COLORREF :: COLORREF where
  "INVALID_COLORREF = 0xFFFFFFFF"

record VtEngine =
  ve_buffer :: string
  ve_lastTextAttributes :: TextAttribute
  ve_lastText :: COORD
  ve_deferredCursorPos :: COORD
  ve_wrappedRow :: "int option"
  ve_delayedEolWrap :: bool
  ve_resized :: bool
  ve_resizeQuirk :: bool
  ve_needToDisableCursor :: bool

text \<open>The constructors of \<^verbatim>\<open>VtEngine\<close> and \<^verbatim>\<open>XtermEngine\<close>.\<close>

definition VtEngine :: VtEngine where
  "VtEngine =
     \<lparr>ve_buffer = [], ve_lastTextAttributes = ta_Rgb INVALID_COLORREF INVALID_COLORREF,
      ve_lastText = \<lparr>coord_X = 0, coord_Y = 0\<rparr>, ve_deferredCursorPos = INVALID_COORDS, ve_wrappedRow = None,
      ve_delayedEolWrap = False, ve_resized = False, ve_resizeQuirk = False, ve_needToDisableCursor = False\<rparr>"

definition XtermEngine :: VtEngine where
  "XtermEngine = VtEngine\<lparr>ve_lastText := INVALID_COORDS\<rparr>"

definition ve_Write :: "string \<Rightarrow> VtEngine \<Rightarrow> VtEngine" where
  "ve_Write str v = v\<lparr>ve_buffer := ve_buffer v @ str\<rparr>"

text \<open>The control sequence introducer and the operating system command introducer.\<close>

abbreviation (input) CSI :: "string \<Rightarrow> string" where "CSI s \<equiv> CHR 0x1B # CHR ''['' # s"
abbreviation (input) OSC :: "string \<Rightarrow> string" where "OSC s \<equiv> CHR 0x1B # CHR '']'' # s"

section \<open>Sequences\<close>

definition StopCursorBlinking :: "VtEngine \<Rightarrow> VtEngine" where "StopCursorBlinking = ve_Write (CSI ''?12l'')"
definition StartCursorBlinking :: "VtEngine \<Rightarrow> VtEngine" where "StartCursorBlinking = ve_Write (CSI ''?12h'')"
definition HideCursor :: "VtEngine \<Rightarrow> VtEngine" where "HideCursor = ve_Write (CSI ''?25l'')"
definition ShowCursor :: "VtEngine \<Rightarrow> VtEngine" where "ShowCursor = ve_Write (CSI ''?25h'')"
definition ve_EraseLine :: "VtEngine \<Rightarrow> VtEngine" where "ve_EraseLine = ve_Write (CSI ''K'')"

definition ve_EraseCharacter :: "int \<Rightarrow> VtEngine \<Rightarrow> VtEngine" where
  "ve_EraseCharacter chars = ve_Write (CSI (fmt_d chars @ ''X''))"

definition ve_CursorForward :: "int \<Rightarrow> VtEngine \<Rightarrow> VtEngine" where
  "ve_CursorForward chars = ve_Write (CSI (fmt_d chars @ ''C''))"

definition ve_ClearScreen :: "VtEngine \<Rightarrow> VtEngine" where "ve_ClearScreen = ve_Write (CSI ''2J'')"
definition ve_ClearScrollback :: "VtEngine \<Rightarrow> VtEngine" where "ve_ClearScrollback = ve_Write (CSI ''3J'')"

definition ve_InsertDeleteLine :: "int \<Rightarrow> bool \<Rightarrow> VtEngine \<Rightarrow> VtEngine" where
  "ve_InsertDeleteLine sLines fInsertLine v =
     (if sLines \<le> 0 then v
      else if sLines = 1 then ve_Write (CSI (if fInsertLine then ''L'' else ''M'')) v
      else ve_Write (CSI (fmt_d sLines @ (if fInsertLine then ''L'' else ''M''))) v)"

definition ve_DeleteLine :: "int \<Rightarrow> VtEngine \<Rightarrow> VtEngine" where "ve_DeleteLine sLines = ve_InsertDeleteLine sLines False"
definition ve_InsertLine :: "int \<Rightarrow> VtEngine \<Rightarrow> VtEngine" where "ve_InsertLine sLines = ve_InsertDeleteLine sLines True"

definition ve_CursorPosition :: "COORD \<Rightarrow> VtEngine \<Rightarrow> VtEngine" where
  "ve_CursorPosition coord =
     (let coordVt_X = to_short (coord_X coord + 1);
          coordVt_Y = to_short (coord_Y coord + 1)
      in ve_Write (CSI (fmt_d coordVt_Y @ '';'' @ fmt_d coordVt_X @ ''H'')))"

definition ve_CursorHome :: "VtEngine \<Rightarrow> VtEngine" where "ve_CursorHome = ve_Write (CSI ''H'')"
definition ve_SetGraphicsDefault :: "VtEngine \<Rightarrow> VtEngine" where "ve_SetGraphicsDefault = ve_Write (CSI ''m'')"

definition vt_index_16 :: "16 word \<Rightarrow> bool \<Rightarrow> int" where
  "vt_index_16 wAttr fIsForeground =
     30 + (if fIsForeground then 0 else 10)
        + (if WI_IsFlagSet wAttr FOREGROUND_INTENSITY then 60 else 0)
        + (if WI_IsFlagSet wAttr FOREGROUND_RED then 1 else 0)
        + (if WI_IsFlagSet wAttr FOREGROUND_GREEN then 2 else 0)
        + (if WI_IsFlagSet wAttr FOREGROUND_BLUE then 4 else 0)"

definition SetGraphicsRendition16Color :: "16 word \<Rightarrow> bool \<Rightarrow> VtEngine \<Rightarrow> VtEngine" where
  "SetGraphicsRendition16Color wAttr fIsForeground = ve_Write (CSI (fmt_d (vt_index_16 wAttr fIsForeground) @ ''m''))"

definition SetGraphicsRendition256Color :: "16 word \<Rightarrow> bool \<Rightarrow> VtEngine \<Rightarrow> VtEngine" where
  "SetGraphicsRendition256Color index fIsForeground =
     ve_Write (CSI ((if fIsForeground then ''38;5;'' else ''48;5;'') @ fmt_d (uint (Xterm256ToWindowsIndex (ucast index))) @ ''m''))"

definition SetGraphicsRenditionRGBColor :: "COLORREF \<Rightarrow> bool \<Rightarrow> VtEngine \<Rightarrow> VtEngine" where
  "SetGraphicsRenditionRGBColor color fIsForeground =
     (let r = GetRValue color; g = GetGValue color; b = GetBValue color
      in ve_Write (CSI ((if fIsForeground then ''38;2;'' else ''48;2;'') @
           fmt_d (uint r) @ '';'' @ fmt_d (uint g) @ '';'' @ fmt_d (uint b) @ ''m'')))"

definition SetGraphicsRenditionDefaultColor :: "bool \<Rightarrow> VtEngine \<Rightarrow> VtEngine" where
  "SetGraphicsRenditionDefaultColor fIsForeground = ve_Write (CSI (if fIsForeground then ''39m'' else ''49m''))"

datatype vt_error = E_INVALIDARG

definition ve_ResizeWindow :: "int \<Rightarrow> int \<Rightarrow> VtEngine \<Rightarrow> vt_error + VtEngine" where
  "ve_ResizeWindow sWidth sHeight v =
     (if sWidth < 0 \<or> sHeight < 0 then Inl E_INVALIDARG
      else Inr (ve_Write (CSI (''8;'' @ fmt_d sHeight @ '';'' @ fmt_d sWidth @ ''t'')) v))"

definition RequestCursor :: "VtEngine \<Rightarrow> VtEngine" where "RequestCursor = ve_Write (CSI ''6n'')"

definition ChangeTitle :: "string \<Rightarrow> VtEngine \<Rightarrow> VtEngine" where
  "ChangeTitle title = ve_Write (OSC (''0;'' @ title @ [CHR 0x07]))"

definition ve_SetBold :: "bool \<Rightarrow> VtEngine \<Rightarrow> VtEngine" where
  "ve_SetBold isBold = ve_Write (CSI (if isBold then ''1m'' else ''22m''))"

definition ve_SetFaint :: "bool \<Rightarrow> VtEngine \<Rightarrow> VtEngine" where
  "ve_SetFaint isFaint = ve_Write (CSI (if isFaint then ''2m'' else ''22m''))"

definition ve_SetUnderlined :: "bool \<Rightarrow> VtEngine \<Rightarrow> VtEngine" where
  "ve_SetUnderlined isUnderlined = ve_Write (CSI (if isUnderlined then ''4m'' else ''24m''))"

definition ve_SetDoublyUnderlined :: "bool \<Rightarrow> VtEngine \<Rightarrow> VtEngine" where
  "ve_SetDoublyUnderlined isUnderlined = ve_Write (CSI (if isUnderlined then ''21m'' else ''24m''))"

definition ve_SetOverlined :: "bool \<Rightarrow> VtEngine \<Rightarrow> VtEngine" where
  "ve_SetOverlined isOverlined = ve_Write (CSI (if isOverlined then ''53m'' else ''55m''))"

definition ve_SetItalic :: "bool \<Rightarrow> VtEngine \<Rightarrow> VtEngine" where
  "ve_SetItalic isItalic = ve_Write (CSI (if isItalic then ''3m'' else ''23m''))"

definition ve_SetBlinking :: "bool \<Rightarrow> VtEngine \<Rightarrow> VtEngine" where
  "ve_SetBlinking isBlinking = ve_Write (CSI (if isBlinking then ''5m'' else ''25m''))"

definition ve_SetInvisible :: "bool \<Rightarrow> VtEngine \<Rightarrow> VtEngine" where
  "ve_SetInvisible isInvisible = ve_Write (CSI (if isInvisible then ''8m'' else ''28m''))"

definition ve_SetCrossedOut :: "bool \<Rightarrow> VtEngine \<Rightarrow> VtEngine" where
  "ve_SetCrossedOut isCrossedOut = ve_Write (CSI (if isCrossedOut then ''9m'' else ''29m''))"

definition ve_SetReverseVideo :: "bool \<Rightarrow> VtEngine \<Rightarrow> VtEngine" where
  "ve_SetReverseVideo isReversed = ve_Write (CSI (if isReversed then ''7m'' else ''27m''))"

definition RequestWin32Input :: "VtEngine \<Rightarrow> VtEngine" where "RequestWin32Input = ve_Write (CSI ''?9001h'')"

text \<open>
  What the hyperlink sequences take from outside: the conversion to UTF-8 (\<^verbatim>\<open>til::u16u8\<close> over the Windows
  interface) and the identifier of this process.
\<close>

record hyperlink_env =
  u16u8 :: "wstring \<Rightarrow> string"
  currentProcessId :: nat

definition ve_SetHyperlink :: "hyperlink_env \<Rightarrow> wstring \<Rightarrow> wstring \<Rightarrow> 16 word \<Rightarrow> VtEngine \<Rightarrow> VtEngine" where
  "ve_SetHyperlink henv uri customId numberId =
     (if customId = [] then
        (let sessionID = currentProcessId henv;
             uri_str = u16u8 henv uri
         in ve_Write (OSC (''8;id='' @ fmt_u sessionID @ ''-'' @ fmt_u (unat numberId) @ '';'' @ uri_str @ [CHR 0x1B, CHR 0x5C])))
      else
        (let uri_str = u16u8 henv uri;
             customId_str = u16u8 henv customId
         in ve_Write (OSC (''8;id=u-'' @ customId_str @ '';'' @ uri_str @ [CHR 0x1B, CHR 0x5C]))))"

definition ve_EndHyperlink :: "VtEngine \<Rightarrow> VtEngine" where
  "ve_EndHyperlink = ve_Write (OSC (''8;;'' @ [CHR 0x1B, CHR 0x5C]))"

section \<open>Brushes\<close>

definition update_last :: "(TextAttribute \<Rightarrow> TextAttribute) \<Rightarrow> VtEngine \<Rightarrow> VtEngine" where
  "update_last f v = v\<lparr>ve_lastTextAttributes := f (ve_lastTextAttributes v)\<rparr>"

definition reset_attributes :: "VtEngine \<Rightarrow> VtEngine" where
  "reset_attributes v =
     update_last ta_SetDefaultMetaAttrs (update_last ta_SetDefaultForeground (update_last ta_SetDefaultBackground
       (ve_SetGraphicsDefault v)))"

text \<open>The chain of tests that selects the sequence for a colour, for the foreground and for the background.\<close>

definition color_sequence :: "TextColor \<Rightarrow> bool \<Rightarrow> VtEngine \<Rightarrow> VtEngine" where
  "color_sequence c isForeground v =
     (if tc_IsDefault c then SetGraphicsRenditionDefaultColor isForeground v
      else if tc_IsIndex16 c then SetGraphicsRendition16Color (ucast (tc_GetIndex c)) isForeground v
      else if tc_IsIndex256 c then SetGraphicsRendition256Color (ucast (tc_GetIndex c)) isForeground v
      else if tc_IsRgb c then SetGraphicsRenditionRGBColor (tc_GetRGB c) isForeground v
      else v)"

definition update_foreground :: "TextColor \<Rightarrow> TextColor \<Rightarrow> VtEngine \<Rightarrow> VtEngine" where
  "update_foreground fg lastFg v =
     (if fg \<noteq> lastFg then update_last (ta_SetForeground fg) (color_sequence fg True v) else v)"

definition update_background :: "TextColor \<Rightarrow> TextColor \<Rightarrow> VtEngine \<Rightarrow> VtEngine" where
  "update_background bg lastBg v =
     (if bg \<noteq> lastBg then update_last (ta_SetBackground bg) (color_sequence bg False v) else v)"

definition RgbUpdateDrawingBrushes :: "TextAttribute \<Rightarrow> VtEngine \<Rightarrow> VtEngine" where
  "RgbUpdateDrawingBrushes textAttributes v =
     (let fg = ta_foreground textAttributes;
          bg = ta_background textAttributes;
          lastFg = ta_foreground (ve_lastTextAttributes v);
          lastBg = ta_background (ve_lastTextAttributes v);
          (v, lastFg, lastBg) =
            (if tc_IsDefault fg \<and> tc_IsDefault bg \<and> \<not> (tc_IsDefault lastFg \<and> tc_IsDefault lastBg)
             then (reset_attributes v, tc_Default, tc_Default) else (v, lastFg, lastBg))
      in update_background bg lastBg (update_foreground fg lastFg v))"

definition need_bold :: "bool \<Rightarrow> VtEngine \<Rightarrow> VtEngine" where
  "need_bold needBold v =
     (if needBold \<noteq> ta_IsBold (ve_lastTextAttributes v)
      then update_last (ta_SetBold needBold) (ve_SetBold needBold v) else v)"

definition Color16UpdateDrawingBrushes :: "TextAttribute \<Rightarrow> VtEngine \<Rightarrow> VtEngine" where
  "Color16UpdateDrawingBrushes textAttributes v =
     (let fg = ta_foreground textAttributes;
          bg = ta_background textAttributes;
          lastFg = ta_foreground (ve_lastTextAttributes v);
          lastBg = ta_background (ve_lastTextAttributes v);
          (v, lastFg, lastBg) =
            (if (tc_IsDefault fg \<and> \<not> tc_IsDefault lastFg) \<or> (tc_IsDefault bg \<and> \<not> tc_IsDefault lastBg)
             then (reset_attributes v, tc_Default, tc_Default) else (v, lastFg, lastBg));
          fgIndex = tc_GetLegacyIndex fg 0;
          bgIndex = tc_GetLegacyIndex bg 0;
          brighten = (ta_IsBold textAttributes \<and> tc_CanBeBrightened fg);
          fgIndex = fgIndex OR (if brighten then FOREGROUND_INTENSITY else 0);
          v = need_bold (fgIndex > 7) v;
          fgIndex = fgIndex AND 7;
          bgIndex = bgIndex AND 7;
          v = (if \<not> tc_IsDefault fg \<and> (tc_IsDefault lastFg \<or> fgIndex \<noteq> tc_GetIndex lastFg)
               then update_last (ta_SetIndexedForeground fgIndex) (SetGraphicsRendition16Color (ucast fgIndex) True v) else v)
      in if \<not> tc_IsDefault bg \<and> (tc_IsDefault lastBg \<or> bgIndex \<noteq> tc_GetIndex lastBg)
         then update_last (ta_SetIndexedBackground bgIndex) (SetGraphicsRendition16Color (ucast bgIndex) False v) else v)"

text \<open>\<^verbatim>\<open>_UpdateExtendedAttrs\<close>, one definition for each of its statements.\<close>

definition bold_or_faint_off :: "TextAttribute \<Rightarrow> VtEngine \<Rightarrow> VtEngine" where
  "bold_or_faint_off a v =
     (if \<not> ta_IsBold a \<and> ta_IsBold (ve_lastTextAttributes v) \<or> \<not> ta_IsFaint a \<and> ta_IsFaint (ve_lastTextAttributes v)
      then update_last (ta_SetFaint False) (update_last (ta_SetBold False) (ve_SetBold False v)) else v)"

definition bold_on :: "TextAttribute \<Rightarrow> VtEngine \<Rightarrow> VtEngine" where
  "bold_on a v =
     (if ta_IsBold a \<and> \<not> ta_IsBold (ve_lastTextAttributes v) then update_last (ta_SetBold True) (ve_SetBold True v) else v)"

definition faint_on :: "TextAttribute \<Rightarrow> VtEngine \<Rightarrow> VtEngine" where
  "faint_on a v =
     (if ta_IsFaint a \<and> \<not> ta_IsFaint (ve_lastTextAttributes v) then update_last (ta_SetFaint True) (ve_SetFaint True v) else v)"

definition underlines_off :: "TextAttribute \<Rightarrow> VtEngine \<Rightarrow> VtEngine" where
  "underlines_off a v =
     (if \<not> ta_IsUnderlined a \<and> ta_IsUnderlined (ve_lastTextAttributes v) \<or>
         \<not> ta_IsDoublyUnderlined a \<and> ta_IsDoublyUnderlined (ve_lastTextAttributes v)
      then update_last (ta_SetDoublyUnderlined False) (update_last (ta_SetUnderlined False) (ve_SetUnderlined False v)) else v)"

definition underline_on :: "TextAttribute \<Rightarrow> VtEngine \<Rightarrow> VtEngine" where
  "underline_on a v =
     (if ta_IsUnderlined a \<and> \<not> ta_IsUnderlined (ve_lastTextAttributes v)
      then update_last (ta_SetUnderlined True) (ve_SetUnderlined True v) else v)"

definition double_underline_on :: "TextAttribute \<Rightarrow> VtEngine \<Rightarrow> VtEngine" where
  "double_underline_on a v =
     (if ta_IsDoublyUnderlined a \<and> \<not> ta_IsDoublyUnderlined (ve_lastTextAttributes v)
      then update_last (ta_SetDoublyUnderlined True) (ve_SetDoublyUnderlined True v) else v)"

definition update_overlined :: "TextAttribute \<Rightarrow> VtEngine \<Rightarrow> VtEngine" where
  "update_overlined a v =
     (if ta_IsOverlined a \<noteq> ta_IsOverlined (ve_lastTextAttributes v)
      then update_last (ta_SetOverlined (ta_IsOverlined a)) (ve_SetOverlined (ta_IsOverlined a) v) else v)"

definition update_italic :: "TextAttribute \<Rightarrow> VtEngine \<Rightarrow> VtEngine" where
  "update_italic a v =
     (if ta_IsItalic a \<noteq> ta_IsItalic (ve_lastTextAttributes v)
      then update_last (ta_SetItalic (ta_IsItalic a)) (ve_SetItalic (ta_IsItalic a) v) else v)"

definition update_blinking :: "TextAttribute \<Rightarrow> VtEngine \<Rightarrow> VtEngine" where
  "update_blinking a v =
     (if ta_IsBlinking a \<noteq> ta_IsBlinking (ve_lastTextAttributes v)
      then update_last (ta_SetBlinking (ta_IsBlinking a)) (ve_SetBlinking (ta_IsBlinking a) v) else v)"

definition update_invisible :: "TextAttribute \<Rightarrow> VtEngine \<Rightarrow> VtEngine" where
  "update_invisible a v =
     (if ta_IsInvisible a \<noteq> ta_IsInvisible (ve_lastTextAttributes v)
      then update_last (ta_SetInvisible (ta_IsInvisible a)) (ve_SetInvisible (ta_IsInvisible a) v) else v)"

definition update_crossed_out :: "TextAttribute \<Rightarrow> VtEngine \<Rightarrow> VtEngine" where
  "update_crossed_out a v =
     (if ta_IsCrossedOut a \<noteq> ta_IsCrossedOut (ve_lastTextAttributes v)
      then update_last (ta_SetCrossedOut (ta_IsCrossedOut a)) (ve_SetCrossedOut (ta_IsCrossedOut a) v) else v)"

definition update_reverse_video :: "TextAttribute \<Rightarrow> VtEngine \<Rightarrow> VtEngine" where
  "update_reverse_video a v =
     (if ta_IsReverseVideo a \<noteq> ta_IsReverseVideo (ve_lastTextAttributes v)
      then update_last (ta_SetReverseVideo (ta_IsReverseVideo a)) (ve_SetReverseVideo (ta_IsReverseVideo a) v) else v)"

definition UpdateExtendedAttrs :: "TextAttribute \<Rightarrow> VtEngine \<Rightarrow> VtEngine" where
  "UpdateExtendedAttrs a v =
     update_reverse_video a (update_crossed_out a (update_invisible a (update_blinking a (update_italic a
       (update_overlined a (double_underline_on a (underline_on a (underlines_off a (faint_on a (bold_on a
         (bold_or_faint_off a v)))))))))))"

text \<open>
  The interface to the buffer's hyperlinks; \<open>None\<close>: the lookup of an unknown identifier throws in a function that
  may not.
\<close>

definition UpdateHyperlinkAttr :: "hyperlink_env \<Rightarrow> hyperlink_tables \<Rightarrow> TextAttribute \<Rightarrow> VtEngine \<Rightarrow> VtEngine option" where
  "UpdateHyperlinkAttr henv pData a v =
     (if ta_hyperlinkId a \<noteq> ta_hyperlinkId (ve_lastTextAttributes v) then
        (let update = update_last (ta_SetHyperlinkId (ta_hyperlinkId a)) in
         if ta_IsHyperlink a then
           (let hid = ta_hyperlinkId a;
                customId = GetCustomIdFromId hid pData
            in case GetHyperlinkUriFromId hid pData of
                 None \<Rightarrow> None
               | Some uri \<Rightarrow> Some (update (ve_SetHyperlink henv uri customId hid v)))
         else Some (update (ve_EndHyperlink v)))
      else Some v)"

definition Xterm256_UpdateDrawingBrushes ::
    "hyperlink_env \<Rightarrow> hyperlink_tables \<Rightarrow> TextAttribute \<Rightarrow> VtEngine \<Rightarrow> VtEngine option" where
  "Xterm256_UpdateDrawingBrushes henv pData textAttributes v =
     map_option (UpdateExtendedAttrs textAttributes)
       (UpdateHyperlinkAttr henv pData textAttributes (RgbUpdateDrawingBrushes textAttributes v))"

definition xterm_underlined :: "TextAttribute \<Rightarrow> VtEngine \<Rightarrow> VtEngine" where
  "xterm_underlined a v =
     (if ta_IsUnderlined a \<noteq> ta_IsUnderlined (ve_lastTextAttributes v)
      then update_last (ta_SetUnderlined (ta_IsUnderlined a)) (ve_SetUnderlined (ta_IsUnderlined a) v) else v)"

definition Xterm_UpdateDrawingBrushes :: "TextAttribute \<Rightarrow> VtEngine \<Rightarrow> VtEngine" where
  "Xterm_UpdateDrawingBrushes textAttributes v =
     xterm_underlined textAttributes (update_reverse_video textAttributes (Color16UpdateDrawingBrushes textAttributes v))"

section \<open>Moving the cursor\<close>

definition ve_MoveCursor :: "COORD \<Rightarrow> VtEngine \<Rightarrow> VtEngine" where
  "ve_MoveCursor coord v =
     (let lastText = ve_lastText v;
          v = (if coord_X coord \<noteq> coord_X lastText \<or> coord_Y coord \<noteq> coord_Y lastText then
                 (let v =
                    (if coord_X coord = 0 \<and> coord_Y coord = 0 then ve_CursorHome (v\<lparr>ve_needToDisableCursor := True\<rparr>)
                     else if ve_resized v \<and> ve_resizeQuirk v then ve_CursorPosition coord v
                     else if coord_X coord = 0 \<and> coord_Y coord = coord_Y lastText + 1 then
                       (let previousLineWrapped =
                              (case ve_wrappedRow v of None \<Rightarrow> False | Some row \<Rightarrow> coord_Y coord = row + 1)
                        in if previousLineWrapped then v else ve_Write [CHR 0x0D, CHR 0x0A] v)
                     else if ve_delayedEolWrap v then ve_CursorPosition coord v
                     else if coord_X coord = 0 \<and> coord_Y coord = coord_Y lastText then ve_Write [CHR 0x0D] v
                     else if coord_X coord = coord_X lastText \<and> coord_Y coord = coord_Y lastText + 1
                     then ve_Write [CHR 0x0A] v
                     else if coord_X coord = coord_X lastText - 1 \<and> coord_Y coord = coord_Y lastText
                     then ve_Write [CHR 0x08] v
                     else if coord_Y coord = coord_Y lastText \<and> coord_X coord > coord_X lastText
                     then ve_CursorForward (to_short (coord_X coord - coord_X lastText)) v
                     else ve_CursorPosition coord (v\<lparr>ve_needToDisableCursor := True\<rparr>))
                  in v\<lparr>ve_lastText := coord\<rparr>)
               else v)
      in v\<lparr>ve_deferredCursorPos := INVALID_COORDS, ve_wrappedRow := None, ve_delayedEolWrap := False\<rparr>)"

end
