(* ===== verification/Sgr_Agree.thy ===== *)
theory Sgr_Agree
  imports Sgr_Dispatch
begin

text \<open>
  The console host and the terminal agree on renditions: the terminal's state is the console's with the colour
  indices in the other order, and every rendition call, on the stack as well, keeps it so.
\<close>

unbundle bit_operations_syntax

definition xterm_index :: "8 word \<Rightarrow> 8 word" where
  "xterm_index x = ucast (Xterm256ToWindowsIndex (ucast x))"

lemma xterm_index_small: "\<forall>k \<in> set [0..<16]. xterm_index (of_nat k) < 16 \<and> xterm_index (xterm_index (of_nat k)) = of_nat k"
  by code_simp

lemma xterm_index_cases: "x < 16 \<Longrightarrow> xterm_index x < 16 \<and> xterm_index (xterm_index x) = x"
proof -
  assume "x < 16"
  then have "unat x \<in> set [0..<16]" by (simp add: word_less_nat_alt)
  then show ?thesis using xterm_index_small by fastforce
qed

lemma xterm_index_large: "\<not> x < 16 \<Longrightarrow> xterm_index x = x"
proof -
  assume "\<not> x < 16"
  moreover have "unat (ucast x :: 64 word) = unat x"
    using unsigned_less [of x, where 'a = nat] by (simp add: unsigned_ucast_eq take_bit_nat_eq_self)
  moreover have "ucast (ucast (ucast x :: 64 word) :: 16 word) = x"
    by (rule bit_word_eqI) (simp add: bit_simps)
  ultimately show ?thesis
    by (simp add: xterm_index_def Xterm256ToWindowsIndex_def word_less_nat_alt)
qed

lemma xterm_index_involution [simp]: "xterm_index (xterm_index x) = x"
  using xterm_index_cases xterm_index_large by (cases "x < 16") auto

lemma Xterm256ToWindowsIndex_byte:
  assumes "t \<le> 255"
  shows "ucast (Xterm256ToWindowsIndex t) = xterm_index (ucast t)"
proof -
  have "ucast (ucast t :: 8 word) = t"
    using assms by (intro word_unat_eq_iff [THEN iffD2]) (simp add: word_le_nat_alt unsigned_ucast_eq unsigned_take_bit_eq take_bit_nat_eq_self)
  then show ?thesis by (simp add: xterm_index_def)
qed

lemma tc_xterm_constructors [simp]:
  "tc_xterm tc_Default = tc_Default" "tc_xterm (tc_Rgb rgb) = tc_Rgb rgb"
  "tc_xterm (tc_Index i is256) = tc_Index (xterm_index i) is256"
  by (simp_all add: tc_xterm_def tc_Default_def tc_Rgb_def tc_Index_def tc_IsIndex16_def tc_IsIndex256_def xterm_index_def)

lemma tc_xterm_involution [simp]: "tc_xterm (tc_xterm c) = c"
  by (simp add: tc_xterm_def tc_IsIndex16_def tc_IsIndex256_def xterm_index_def [symmetric])

lemma ta_xterm_involution [simp]: "ta_xterm (ta_xterm a) = a"
  by (simp add: ta_xterm_def)

lemma ta_xterm_fields [simp]:
  "ta_wAttrLegacy (ta_xterm a) = ta_wAttrLegacy a" "ta_hyperlinkId (ta_xterm a) = ta_hyperlinkId a"
  "ta_extendedAttrs (ta_xterm a) = ta_extendedAttrs a"
  "ta_foreground (ta_xterm a) = tc_xterm (ta_foreground a)" "ta_background (ta_xterm a) = tc_xterm (ta_background a)"
  by (simp_all add: ta_xterm_def)

lemma ta_xterm_queries [simp]:
  "ta_IsBold (ta_xterm a) = ta_IsBold a" "ta_IsFaint (ta_xterm a) = ta_IsFaint a"
  "ta_IsItalic (ta_xterm a) = ta_IsItalic a" "ta_IsBlinking (ta_xterm a) = ta_IsBlinking a"
  "ta_IsInvisible (ta_xterm a) = ta_IsInvisible a" "ta_IsCrossedOut (ta_xterm a) = ta_IsCrossedOut a"
  "ta_IsUnderlined (ta_xterm a) = ta_IsUnderlined a" "ta_IsDoublyUnderlined (ta_xterm a) = ta_IsDoublyUnderlined a"
  "ta_IsOverlined (ta_xterm a) = ta_IsOverlined a" "ta_IsReverseVideo (ta_xterm a) = ta_IsReverseVideo a"
  by (simp_all add: ta_query_defs)

lemma ta_xterm_setters:
  "ta_SetBold b (ta_xterm a) = ta_xterm (ta_SetBold b a)"
  "ta_SetFaint b (ta_xterm a) = ta_xterm (ta_SetFaint b a)"
  "ta_SetItalic b (ta_xterm a) = ta_xterm (ta_SetItalic b a)"
  "ta_SetBlinking b (ta_xterm a) = ta_xterm (ta_SetBlinking b a)"
  "ta_SetInvisible b (ta_xterm a) = ta_xterm (ta_SetInvisible b a)"
  "ta_SetCrossedOut b (ta_xterm a) = ta_xterm (ta_SetCrossedOut b a)"
  "ta_SetUnderlined b (ta_xterm a) = ta_xterm (ta_SetUnderlined b a)"
  "ta_SetDoublyUnderlined b (ta_xterm a) = ta_xterm (ta_SetDoublyUnderlined b a)"
  "ta_SetOverlined b (ta_xterm a) = ta_xterm (ta_SetOverlined b a)"
  "ta_SetReverseVideo b (ta_xterm a) = ta_xterm (ta_SetReverseVideo b a)"
  "ta_SetDefaultMetaAttrs (ta_xterm a) = ta_xterm (ta_SetDefaultMetaAttrs a)"
  "ta_SetForeground (tc_xterm c) (ta_xterm a) = ta_xterm (ta_SetForeground c a)"
  "ta_SetBackground (tc_xterm c) (ta_xterm a) = ta_xterm (ta_SetBackground c a)"
  "ta_SetDefaultForeground (ta_xterm a) = ta_xterm (ta_SetDefaultForeground a)"
  "ta_SetDefaultBackground (ta_xterm a) = ta_xterm (ta_SetDefaultBackground a)"
  "ta_SetColor rgb fg (ta_xterm a) = ta_xterm (ta_SetColor rgb fg a)"
  "ta_SetIndexedForeground i (ta_xterm a) = ta_xterm (ta_SetIndexedForeground (xterm_index i) a)"
  "ta_SetIndexedBackground i (ta_xterm a) = ta_xterm (ta_SetIndexedBackground (xterm_index i) a)"
  "ta_SetIndexedForeground256 i (ta_xterm a) = ta_xterm (ta_SetIndexedForeground256 (xterm_index i) a)"
  "ta_SetIndexedBackground256 i (ta_xterm a) = ta_xterm (ta_SetIndexedBackground256 (xterm_index i) a)"
  by (cases a; simp add: ta_xterm_def ta_setter_defs ta_color_setter_defs ta_SetDefaultMetaAttrs_def)+

lemma xterm_index_values:
  "xterm_index 0 = 0" "xterm_index 1 = 4" "xterm_index 2 = 2" "xterm_index 3 = 6" "xterm_index 4 = 1"
  "xterm_index 5 = 5" "xterm_index 6 = 3" "xterm_index 7 = 7" "xterm_index 8 = 8" "xterm_index 9 = 12"
  "xterm_index 10 = 10" "xterm_index 11 = 14" "xterm_index 12 = 9" "xterm_index 13 = 13" "xterm_index 14 = 11"
  "xterm_index 15 = 15"
  by code_simp+

lemma xterm_option: "td_apply_option opt (ta_xterm a) = ta_xterm (ad_apply_option opt a)"
  by (cases opt) (simp_all add: ta_xterm_setters xterm_index_values)

lemma xterm_helper:
  "td_SetRgbColorsHelper ps (ta_xterm a) fg = map_prod (\<lambda>n. n) ta_xterm (ad_SetRgbColorsHelper ps a fg)"
proof -
  have i: "ta_SetIndexedForeground256 (ucast t) (ta_xterm a) = ta_xterm (ta_SetIndexedForeground256 (ucast (Xterm256ToWindowsIndex t)) a)"
    "ta_SetIndexedBackground256 (ucast t) (ta_xterm a) = ta_xterm (ta_SetIndexedBackground256 (ucast (Xterm256ToWindowsIndex t)) a)"
    if "t \<le> 255" for t
    using Xterm256ToWindowsIndex_byte [OF that] ta_xterm_setters(19,20) [of "ucast t" a] by simp_all
  show ?thesis
    by (simp add: td_SetRgbColorsHelper_def ad_SetRgbColorsHelper_def Let_def ta_xterm_setters(16) i)
qed

lemma xterm_apply:
  "sgr_apply td_apply_option td_SetRgbColorsHelper ps (ta_xterm a) =
    ta_xterm (sgr_apply ad_apply_option ad_SetRgbColorsHelper ps a)"
proof (induction ad_apply_option ad_SetRgbColorsHelper ps a rule: sgr_apply.induct)
  case (2 p ps a)
  then show ?case
    by (auto simp: xterm_helper xterm_option split: option.split)
qed simp

section \<open>The stacks\<close>

definition saved_xterm :: "SavedSgrAttributes \<Rightarrow> SavedSgrAttributes" where
  "saved_xterm e = e\<lparr>saved_TextAttributes := ta_xterm (saved_TextAttributes e)\<rparr>"

definition ss_xterm :: "SgrStack \<Rightarrow> SgrStack" where
  "ss_xterm s = s\<lparr>ss_storedSgrAttributes := map saved_xterm (ss_storedSgrAttributes s)\<rparr>"

lemma xterm_push: "ss_Push (ta_xterm a) options (ss_xterm s) = ss_xterm (ss_Push a options s)"
  by (simp add: ss_Push_saved ss_push_saved_def ss_xterm_def map_update saved_xterm_def)

lemma xterm_restore_part:
  "restore_part p n (ta_SetBold b) (ta_xterm a) = ta_xterm (restore_part p n (ta_SetBold b) a)"
  "restore_part p n (ta_SetFaint b) (ta_xterm a) = ta_xterm (restore_part p n (ta_SetFaint b) a)"
  "restore_part p n (ta_SetItalic b) (ta_xterm a) = ta_xterm (restore_part p n (ta_SetItalic b) a)"
  "restore_part p n (ta_SetUnderlined b) (ta_xterm a) = ta_xterm (restore_part p n (ta_SetUnderlined b) a)"
  "restore_part p n (ta_SetBlinking b) (ta_xterm a) = ta_xterm (restore_part p n (ta_SetBlinking b) a)"
  "restore_part p n (ta_SetReverseVideo b) (ta_xterm a) = ta_xterm (restore_part p n (ta_SetReverseVideo b) a)"
  "restore_part p n (ta_SetInvisible b) (ta_xterm a) = ta_xterm (restore_part p n (ta_SetInvisible b) a)"
  "restore_part p n (ta_SetCrossedOut b) (ta_xterm a) = ta_xterm (restore_part p n (ta_SetCrossedOut b) a)"
  "restore_part p n (ta_SetDoublyUnderlined b) (ta_xterm a) = ta_xterm (restore_part p n (ta_SetDoublyUnderlined b) a)"
  "restore_part p n (ta_SetForeground (tc_xterm c)) (ta_xterm a) = ta_xterm (restore_part p n (ta_SetForeground c) a)"
  "restore_part p n (ta_SetBackground (tc_xterm c)) (ta_xterm a) = ta_xterm (restore_part p n (ta_SetBackground c) a)"
  by (simp_all add: restore_part_def ta_xterm_setters)

lemma xterm_combine:
  "CombineWithCurrentAttributes (ta_xterm a) (ta_xterm b) parts = ta_xterm (CombineWithCurrentAttributes a b parts)"
  by (simp add: CombineWithCurrentAttributes_def Let_def xterm_restore_part)

lemma xterm_restored: "restored (saved_xterm e) (ta_xterm a) = ta_xterm (restored e a)"
  by (simp add: restored_def saved_xterm_def xterm_combine)

lemma xterm_pop:
  assumes "ss_inv s"
  shows "ss_Pop (ta_xterm a) (ss_xterm s) = map_prod ta_xterm ss_xterm (ss_Pop a s)"
proof -
  have "ss_nextPushIndex s - Suc 0 < length (ss_storedSgrAttributes s)" "0 < length (ss_storedSgrAttributes s)"
    using assms by (auto simp: ss_inv_def c_MaxStoredSgrPushes_def)
  then show ?thesis
    by (simp add: ss_Pop_def Let_def ss_xterm_def xterm_restored)
qed

section \<open>Sequences of rendition calls\<close>

text \<open>The rendition calls among the calls of \<^verbatim>\<open>ITermDispatch\<close>; \<open>None\<close> for every other call.\<close>

fun ad_rendition :: "'s text_api \<Rightarrow> dispatch_call \<Rightarrow> 's AdaptDispatch \<Rightarrow> (bool \<times> 's AdaptDispatch) option" where
  "ad_rendition api (SetGraphicsRendition options) d = ad_SetGraphicsRendition api options d"
| "ad_rendition api (PushGraphicsRendition options) d = Some (ad_PushGraphicsRendition api options d)"
| "ad_rendition api PopGraphicsRendition d = Some (ad_PopGraphicsRendition api d)"
| "ad_rendition api _ d = None"

fun td_rendition :: "dispatch_call \<Rightarrow> Terminal_attributes \<Rightarrow> (bool \<times> Terminal_attributes) option" where
  "td_rendition (SetGraphicsRendition options) t = td_SetGraphicsRendition options t"
| "td_rendition (PushGraphicsRendition options) t = Some (term_PushGraphicsRendition options t)"
| "td_rendition PopGraphicsRendition t = Some (term_PopGraphicsRendition t)"
| "td_rendition _ t = None"

definition is_rendition :: "dispatch_call \<Rightarrow> bool" where
  "is_rendition c = (case c of SetGraphicsRendition _ \<Rightarrow> True | PushGraphicsRendition _ \<Rightarrow> True
     | PopGraphicsRendition \<Rightarrow> True | _ \<Rightarrow> False)"

lemma is_rendition_cases:
  assumes "is_rendition c"
  obtains (set) ps where "c = SetGraphicsRendition ps" | (push) ps where "c = PushGraphicsRendition ps"
    | (pop) "c = PopGraphicsRendition"
  using assms by (cases c) (simp_all add: is_rendition_def)

fun run_calls :: "('c \<Rightarrow> 's \<Rightarrow> (bool \<times> 's) option) \<Rightarrow> 'c list \<Rightarrow> 's \<Rightarrow> 's option" where
  "run_calls f [] s = Some s"
| "run_calls f (c # cs) s = (case f c s of None \<Rightarrow> None | Some (_, s') \<Rightarrow> run_calls f cs s')"

definition same_renditions :: "screen_attributes AdaptDispatch \<Rightarrow> Terminal_attributes \<Rightarrow> bool" where
  "same_renditions d t \<longleftrightarrow>
     \<not> si_ignoreLegacyEquivalentVTAttributes (ad_console d) \<and> ss_inv (ad_sgrStack d) \<and>
     term_currentAttributes t = ta_xterm (si_currentAttributes (ad_console d)) \<and>
     term_sgrStack t = ss_xterm (ad_sgrStack d)"

lemma conhost_attributes: "snd (PrivateGetTextAttributes ConhostInternalGetSet s) = si_currentAttributes s"
  by (simp add: ConhostInternalGetSet_def si_GetAttributes_def)

lemma rendition_step:
  assumes "same_renditions d t" "is_rendition c"
  obtains d' t' where "ad_rendition ConhostInternalGetSet c d = Some (True, d')" "td_rendition c t = Some (True, t')"
    "same_renditions d' t'"
proof -
  have ok: "\<not> si_ignoreLegacyEquivalentVTAttributes (ad_console d)" and inv: "ss_inv (ad_sgrStack d)"
    using assms(1) by (simp_all add: same_renditions_def)
  show thesis
    using assms(2)
  proof (cases rule: is_rendition_cases)
    case (set ps)
    obtain d' where d': "ad_SetGraphicsRendition ConhostInternalGetSet ps d = Some (True, d')"
      "\<not> si_ignoreLegacyEquivalentVTAttributes (ad_console d')" "ad_sgrStack d' = ad_sgrStack d"
      "si_currentAttributes (ad_console d') =
         sgr_apply ad_apply_option ad_SetRgbColorsHelper (sgr_options ps) (si_currentAttributes (ad_console d))"
      using conhost.rendition_applied [OF ok, of ps] by (auto simp: conhost_attributes)
    have "td_SetGraphicsRendition ps t = Some (True, t\<lparr>term_currentAttributes := ta_xterm (si_currentAttributes (ad_console d'))\<rparr>)"
      using assms(1)
      by (simp add: td_SetGraphicsRendition_def sgr_loop_apply term_GetTextAttributes_def term_SetTextAttributes_def
          same_renditions_def xterm_apply d'(4))
    then show thesis using assms(1) d' set that by (simp add: same_renditions_def)
  next
    case (push ps)
    then show thesis
      using assms(1) conhost.rendition_pushed [OF ok, of ps] that sgr.push_inv [OF inv]
      by (simp add: same_renditions_def term_PushGraphicsRendition_def conhost_attributes xterm_push) (simp add: ss_Push_saved)
  next
    case pop
    obtain d' where "ad_PopGraphicsRendition ConhostInternalGetSet d = (True, d')"
      "\<not> si_ignoreLegacyEquivalentVTAttributes (ad_console d')"
      "si_currentAttributes (ad_console d') = fst (ss_Pop (si_currentAttributes (ad_console d)) (ad_sgrStack d))"
      "ad_sgrStack d' = snd (ss_Pop (si_currentAttributes (ad_console d)) (ad_sgrStack d))"
      using conhost.rendition_popped [OF ok] by (auto simp: conhost_attributes)
    then show thesis
      using assms(1) pop that sgr.pop_inv [OF inv]
      by (simp add: same_renditions_def term_PopGraphicsRendition_def xterm_pop [OF inv] case_prod_unfold)
  qed
qed

lemma rendition_run:
  assumes "same_renditions d t" "list_all is_rendition cs"
  shows "\<exists>d' t'. run_calls (ad_rendition ConhostInternalGetSet) cs d = Some d' \<and> run_calls td_rendition cs t = Some t' \<and>
    same_renditions d' t'"
  using assms
proof (induction cs arbitrary: d t)
  case (Cons c cs)
  obtain d' t' where "ad_rendition ConhostInternalGetSet c d = Some (True, d')" "td_rendition c t = Some (True, t')"
    "same_renditions d' t'"
    using rendition_step [OF Cons.prems(1)] Cons.prems(2) by auto
  with Cons.IH [of d' t'] Cons.prems(2) show ?case by simp
qed simp

end
