(* ===== verification/Vt_Effect.thy ===== *)
theory Vt_Effect
  imports Vt_Render Sgr_Agree State_Machine_Text
begin

text \<open>
  What the renderer's sequences mean: the text of each rendition sequence is a well-formed control sequence whose
  options change an attribute exactly as the renderer changes its own record of the terminal's attributes.
\<close>

unbundle bit_operations_syntax

definition sgr_effect :: "string \<Rightarrow> (TextAttribute \<Rightarrow> TextAttribute) \<Rightarrow> bool" where
  "sgr_effect txt f \<longleftrightarrow>
     (\<exists>ps. wide txt = csi_text [] ps [] 0x6D \<and> csi_ok [] ps [] 0x6D \<and>
        (\<forall>a. sgr_apply ad_apply_option ad_SetRgbColorsHelper (sgr_options (parsed_params ps)) a = f a))"

lemma final_m: "final_char 0x6D"
  by (simp add: char_class)

lemma vtp_enum_param: "ds \<noteq> [] \<Longrightarrow> decimal ds \<le> 32767 \<Longrightarrow> vtp_enum (param_of ds) = of_nat (decimal ds)"
  by (simp add: vtp_enum_def value_or_def param_of_def has_value_def)

lemma sgr_effect_option:
  assumes "n \<le> 32767" "graphics_option (of_nat n) = Some opt" "opt \<noteq> ForegroundExtended" "opt \<noteq> BackgroundExtended"
  shows "sgr_effect (CSI (fmt_u n @ ''m'')) (ad_apply_option opt)"
  unfolding sgr_effect_def
proof (intro exI [of _ "[digits_of n]"] conjI allI)
  show "wide (CSI (fmt_u n @ ''m'')) = csi_text [] [digits_of n] [] 0x6D"
    using wide_fmt_u [of n] by (simp add: csi_text_def wide_def)
  show "csi_ok [] [digits_of n] [] 0x6D"
    using digits_of_digits [of n] by (simp add: csi_ok_def final_m)
  show "sgr_apply ad_apply_option ad_SetRgbColorsHelper (sgr_options (parsed_params [digits_of n])) a = ad_apply_option opt a" for a
    using assms by (simp add: sgr_options_def parsed_params_def vtp_enum_param)
qed

lemma digits_2: "10 \<le> n \<Longrightarrow> n < 100 \<Longrightarrow> digits_of n = [n div 10, n mod 10]"
  by (subst digits_of.simps, subst digits_of.simps) simp

lemma digits_1: "n < 10 \<Longrightarrow> digits_of n = [n]"
  by (subst digits_of.simps) simp

lemma graphics_option_literal:
  "graphics_option (of_nat n) = map_of GraphicsOptions_values n" if "n \<le> 32767"
proof -
  have "unat (of_nat n :: size_t) = n" using that by (intro unat_of_nat_small) simp
  then show ?thesis by (simp add: graphics_option_def)
qed

lemma sgr_literal:
  assumes "map_of GraphicsOptions_values n = Some opt" "n \<le> 100" "opt \<noteq> ForegroundExtended" "opt \<noteq> BackgroundExtended"
  shows "sgr_effect (CSI (fmt_u n @ ''m'')) (ad_apply_option opt)"
  using assms by (intro sgr_effect_option) (simp_all add: graphics_option_literal)

lemma digit_values:
  "digit 0 = CHR ''0''" "digit 1 = CHR ''1''" "digit 2 = CHR ''2''" "digit 3 = CHR ''3''" "digit 4 = CHR ''4''"
  "digit 5 = CHR ''5''" "digit 6 = CHR ''6''" "digit 7 = CHR ''7''" "digit 8 = CHR ''8''" "digit 9 = CHR ''9''"
  by code_simp+

lemma ad_apply_option_functions:
  "ad_apply_option BoldBright = ta_SetBold True"
  "ad_apply_option RGBColorOrFaint = ta_SetFaint True"
  "ad_apply_option NotBoldOrFaint = (\<lambda>a. ta_SetFaint False (ta_SetBold False a))"
  "ad_apply_option Underline = ta_SetUnderlined True"
  "ad_apply_option DoublyUnderlined = ta_SetDoublyUnderlined True"
  "ad_apply_option NoUnderline = (\<lambda>a. ta_SetDoublyUnderlined False (ta_SetUnderlined False a))"
  "ad_apply_option Overline = ta_SetOverlined True"
  "ad_apply_option NoOverline = ta_SetOverlined False"
  "ad_apply_option Italics = ta_SetItalic True"
  "ad_apply_option NotItalics = ta_SetItalic False"
  "ad_apply_option BlinkOrXterm256Index = ta_SetBlinking True"
  "ad_apply_option Steady = ta_SetBlinking False"
  "ad_apply_option Invisible = ta_SetInvisible True"
  "ad_apply_option Visible = ta_SetInvisible False"
  "ad_apply_option CrossedOut = ta_SetCrossedOut True"
  "ad_apply_option NotCrossedOut = ta_SetCrossedOut False"
  "ad_apply_option Negative = ta_SetReverseVideo True"
  "ad_apply_option Positive = ta_SetReverseVideo False"
  "ad_apply_option ForegroundDefault = ta_SetDefaultForeground"
  "ad_apply_option BackgroundDefault = ta_SetDefaultBackground"
  by (simp_all add: fun_eq_iff)

lemma option_values:
  "map_of GraphicsOptions_values 1 = Some BoldBright"
  "map_of GraphicsOptions_values 2 = Some RGBColorOrFaint"
  "map_of GraphicsOptions_values 22 = Some NotBoldOrFaint"
  "map_of GraphicsOptions_values 4 = Some Underline"
  "map_of GraphicsOptions_values 21 = Some DoublyUnderlined"
  "map_of GraphicsOptions_values 24 = Some NoUnderline"
  "map_of GraphicsOptions_values 53 = Some Overline"
  "map_of GraphicsOptions_values 55 = Some NoOverline"
  "map_of GraphicsOptions_values 3 = Some Italics"
  "map_of GraphicsOptions_values 23 = Some NotItalics"
  "map_of GraphicsOptions_values 5 = Some BlinkOrXterm256Index"
  "map_of GraphicsOptions_values 25 = Some Steady"
  "map_of GraphicsOptions_values 8 = Some Invisible"
  "map_of GraphicsOptions_values 28 = Some Visible"
  "map_of GraphicsOptions_values 9 = Some CrossedOut"
  "map_of GraphicsOptions_values 29 = Some NotCrossedOut"
  "map_of GraphicsOptions_values 7 = Some Negative"
  "map_of GraphicsOptions_values 27 = Some Positive"
  "map_of GraphicsOptions_values 39 = Some ForegroundDefault"
  "map_of GraphicsOptions_values 49 = Some BackgroundDefault"
  by code_simp+

lemmas sgr_literal_simps =
  option_values option_values [simplified One_nat_def] fmt_u_def digits_1 digits_2 digit_values digit_values [simplified One_nat_def] ad_apply_option_functions

lemma sgr_effect_ext: "sgr_effect txt f \<Longrightarrow> (\<And>a. f a = g a) \<Longrightarrow> sgr_effect txt g"
  by (simp add: sgr_effect_def)

lemma sgr_effect_literals:
  "sgr_effect (CSI ''1m'') (ta_SetBold True)" "sgr_effect (CSI ''2m'') (ta_SetFaint True)"
  "sgr_effect (CSI ''22m'') (\<lambda>a. ta_SetFaint False (ta_SetBold False a))"
  "sgr_effect (CSI ''4m'') (ta_SetUnderlined True)" "sgr_effect (CSI ''21m'') (ta_SetDoublyUnderlined True)"
  "sgr_effect (CSI ''24m'') (\<lambda>a. ta_SetDoublyUnderlined False (ta_SetUnderlined False a))"
  "sgr_effect (CSI ''53m'') (ta_SetOverlined True)" "sgr_effect (CSI ''55m'') (ta_SetOverlined False)"
  "sgr_effect (CSI ''3m'') (ta_SetItalic True)" "sgr_effect (CSI ''23m'') (ta_SetItalic False)"
  "sgr_effect (CSI ''5m'') (ta_SetBlinking True)" "sgr_effect (CSI ''25m'') (ta_SetBlinking False)"
  "sgr_effect (CSI ''8m'') (ta_SetInvisible True)" "sgr_effect (CSI ''28m'') (ta_SetInvisible False)"
  "sgr_effect (CSI ''9m'') (ta_SetCrossedOut True)" "sgr_effect (CSI ''29m'') (ta_SetCrossedOut False)"
  "sgr_effect (CSI ''7m'') (ta_SetReverseVideo True)" "sgr_effect (CSI ''27m'') (ta_SetReverseVideo False)"
  "sgr_effect (CSI ''39m'') ta_SetDefaultForeground" "sgr_effect (CSI ''49m'') ta_SetDefaultBackground"
  using sgr_literal [of 1 BoldBright]
    sgr_literal [of 2 RGBColorOrFaint]
    sgr_literal [of 22 NotBoldOrFaint]
    sgr_literal [of 4 Underline]
    sgr_literal [of 21 DoublyUnderlined]
    sgr_literal [of 24 NoUnderline]
    sgr_literal [of 53 Overline]
    sgr_literal [of 55 NoOverline]
    sgr_literal [of 3 Italics]
    sgr_literal [of 23 NotItalics]
    sgr_literal [of 5 BlinkOrXterm256Index]
    sgr_literal [of 25 Steady]
    sgr_literal [of 8 Invisible]
    sgr_literal [of 28 Visible]
    sgr_literal [of 9 CrossedOut]
    sgr_literal [of 29 NotCrossedOut]
    sgr_literal [of 7 Negative]
    sgr_literal [of 27 Positive]
    sgr_literal [of 39 ForegroundDefault]
    sgr_literal [of 49 BackgroundDefault]
  by (simp_all add: sgr_literal_simps)

lemma sgr_effect_reset: "sgr_effect (CSI ''m'') (ad_apply_option Off)"
  unfolding sgr_effect_def
proof (intro exI [of _ "[]"] conjI allI)
  show "wide (CSI ''m'') = csi_text [] [] [] 0x6D" by (simp add: csi_text_def wide_def)
  show "csi_ok [] [] [] 0x6D" by (simp add: csi_ok_def)
  show "sgr_apply ad_apply_option ad_SetRgbColorsHelper (sgr_options (parsed_params [])) a = ad_apply_option Off a" for a
    using graphics_option_zero
    by (simp add: sgr_options_def parsed_params_def vtp_enum_def value_or_def vtp_omitted_def has_value_def)
qed

section \<open>Colours\<close>

lemma index_16_cases:
  assumes "i < (16 :: 8 word)"
  shows "i \<in> {0, 1, 2, 3, 4, 5, 6, 7, 8, 9, 10, 11, 12, 13, 14, 15}"
proof -
  have "unat i \<in> set [0..<16]" using assms by (simp add: word_less_nat_alt)
  moreover have "[0..<16] = [0, 1, 2, 3, 4, 5, 6, 7, 8, 9, 10, 11, 12, 13, 14, 15]" by code_simp
  ultimately have "unat i \<in> {0, 1, 2, 3, 4, 5, 6, 7, 8, 9, 10, 11, 12, 13, 14, 15}" by simp
  then have "of_nat (unat i) \<in> (of_nat ` {0, 1, 2, 3, 4, 5, 6, 7, 8, 9, 10, 11, 12, 13, 14, 15} :: 8 word set)" by blast
  then show ?thesis by simp
qed

definition options_16 :: "(8 word \<times> GraphicsOptions \<times> GraphicsOptions) list" where
  "options_16 =
     [(0, ForegroundBlack, BackgroundBlack), (1, ForegroundBlue, BackgroundBlue),
      (2, ForegroundGreen, BackgroundGreen), (3, ForegroundCyan, BackgroundCyan),
      (4, ForegroundRed, BackgroundRed), (5, ForegroundMagenta, BackgroundMagenta),
      (6, ForegroundYellow, BackgroundYellow), (7, ForegroundWhite, BackgroundWhite),
      (8, BrightForegroundBlack, BrightBackgroundBlack), (9, BrightForegroundBlue, BrightBackgroundBlue),
      (10, BrightForegroundGreen, BrightBackgroundGreen), (11, BrightForegroundCyan, BrightBackgroundCyan),
      (12, BrightForegroundRed, BrightBackgroundRed), (13, BrightForegroundMagenta, BrightBackgroundMagenta),
      (14, BrightForegroundYellow, BrightBackgroundYellow), (15, BrightForegroundWhite, BrightBackgroundWhite)]"

definition option_16 :: "8 word \<Rightarrow> bool \<Rightarrow> GraphicsOptions" where
  "option_16 i fg = (case map_of options_16 i of Some (f, b) \<Rightarrow> if fg then f else b)"

definition row_16 :: "bool \<Rightarrow> 8 word \<Rightarrow> GraphicsOptions \<Rightarrow> bool" where
  "row_16 fg i opt \<longleftrightarrow>
     map_of GraphicsOptions_values (nat (vt_index_16 (ucast i) fg)) = Some opt \<and>
     30 \<le> vt_index_16 (ucast i) fg \<and> vt_index_16 (ucast i) fg \<le> 107 \<and>
     opt \<noteq> ForegroundExtended \<and> opt \<noteq> BackgroundExtended"

lemma options_16_table: "list_all (\<lambda>(i, f, b). row_16 True i f \<and> row_16 False i b) options_16"
  by code_simp

lemma option_16_row:
  assumes "i < 16"
  shows "(i, option_16 i True, option_16 i False) \<in> set options_16"
  using index_16_cases [OF assms] by (elim insertE emptyE; simp add: option_16_def options_16_def)

lemma option_16:
  assumes "i < 16"
  shows "row_16 fg i (option_16 i fg)"
  using option_16_row [OF assms] options_16_table by (cases fg) (auto simp: list_all_iff)

lemma option_16_apply:
  assumes "i < 16"
  shows "ad_apply_option (option_16 i fg) a = (if fg then ta_SetIndexedForeground i a else ta_SetIndexedBackground i a)"
  using index_16_cases [OF assms] by (cases fg; elim insertE emptyE; simp add: option_16_def options_16_def)

lemma sgr_effect_16:
  assumes "i < 16"
  shows "sgr_effect (CSI (fmt_d (vt_index_16 (ucast i) fg) @ ''m''))
    (\<lambda>a. if fg then ta_SetIndexedForeground i a else ta_SetIndexedBackground i a)"
proof -
  let ?n = "nat (vt_index_16 (ucast i) fg)"
  note row = option_16 [OF assms, of fg, unfolded row_16_def]
  then have n: "?n \<le> 32767" by auto
  have "graphics_option (of_nat ?n) = Some (option_16 i fg)"
    unfolding graphics_option_literal [OF n] using row by blast
  then have "sgr_effect (CSI (fmt_u ?n @ ''m'')) (ad_apply_option (option_16 i fg))"
    by (rule sgr_effect_option [OF n]) (use row in blast)+
  then show ?thesis
    using row option_16_apply [OF assms, of fg] by (auto simp: fmt_d_nonneg intro: sgr_effect_ext)
qed

definition extended :: "bool \<Rightarrow> GraphicsOptions" where
  "extended fg = (if fg then ForegroundExtended else BackgroundExtended)"

lemma extended_option: "graphics_option (if fg then 38 else 48) = Some (extended fg)"
  by (simp add: graphics_option_def GraphicsOptions_values_def extended_def)

lemma enum_digits: "n \<le> 255 \<Longrightarrow> vtp_enum (param_of (digits_of n)) = of_nat n"
  "n \<le> 255 \<Longrightarrow> value_or (param_of (digits_of n)) 0 = of_nat n"
  by (simp_all add: vtp_enum_def value_or_def param_of_def has_value_def)

lemma sgr_effect_extended:
  assumes "\<And>a. ad_SetRgbColorsHelper (map param_of ps) a fg = (length ps, f a)"
    and "list_all (list_all (\<lambda>d. d < 10)) ps" "length ps < 32"
    and "wide txt = csi_text [] ((if fg then [3, 8] else [4, 8]) # ps) [] 0x6D"
  shows "sgr_effect txt f"
proof -
  let ?d = "if fg then [3, 8] else [4, 8] :: nat list"
  have "parsed_params (?d # ps) = param_of ?d # map param_of ps"
    using assms(3) by (cases ps) (auto simp: parsed_params_def)
  moreover have "vtp_enum (param_of ?d) = (if fg then 38 else 48)"
    by (simp add: vtp_enum_def value_or_def param_of_def has_value_def decimal_def)
  ultimately have "sgr_apply ad_apply_option ad_SetRgbColorsHelper (sgr_options (parsed_params (?d # ps))) a = f a" for a
    using assms(1) [of a] extended_option [of fg] by (cases fg) (simp_all add: sgr_options_def extended_def)
  moreover have "csi_ok [] (?d # ps) [] 0x6D" using assms(2) by (simp add: csi_ok_def)
  ultimately show ?thesis using assms(4) unfolding sgr_effect_def by blast
qed

lemma unat_byte: "unat (x :: 8 word) \<le> 255"
  using unsigned_less [of x, where 'a = nat] by simp

lemma fmt_byte: "fmt_d (uint (x :: 'w::len word)) = fmt_u (unat x)"
  by (simp add: fmt_d_nonneg)

lemma wide_Cons: "wide (c # s) = of_char c # wide s" "wide [] = []"
  by (simp_all add: wide_def)

lemma Xterm256ToWindowsIndex_word: "Xterm256ToWindowsIndex (ucast i) = ucast (xterm_index i)"
proof (cases "i < 16")
  case True
  then show ?thesis
    using index_16_cases [OF True]
    by (elim insertE emptyE; simp add: xterm_index_values Xterm256ToWindowsIndex_def XtermToWindowsIndex_def WI_IsFlagSet_def)
next
  case False
  then have "\<not> (ucast i :: size_t) < 16"
    using unat_byte [of i] by (simp add: word_less_nat_alt unsigned_ucast_eq take_bit_nat_eq_self)
  then show ?thesis
    by (simp add: Xterm256ToWindowsIndex_def xterm_index_large [OF False]) (rule bit_word_eqI, simp add: bit_simps)
qed

lemma of_nat_byte: "(of_nat (unat (x :: 8 word)) :: size_t) \<le> 255" "ucast (of_nat (unat x) :: size_t) = x"
proof -
  have "unat (of_nat (unat x) :: size_t) = unat x" using unat_byte [of x] by (intro unat_of_nat_small) simp
  then show "(of_nat (unat x) :: size_t) \<le> 255" using unat_byte [of x] by (simp add: word_le_nat_alt)
  have "of_nat (unat x) = (ucast x :: size_t)" by simp
  then show "ucast (of_nat (unat x) :: size_t) = x" by (simp only:) (rule bit_word_eqI, simp add: bit_simps)
qed

lemma sgr_effect_256:
  "sgr_effect (CSI ((if fg then ''38;5;'' else ''48;5;'') @ fmt_d (uint (Xterm256ToWindowsIndex (ucast (ucast i :: 16 word)))) @ ''m''))
    (\<lambda>a. if fg then ta_SetIndexedForeground256 i a else ta_SetIndexedBackground256 i a)"
proof (rule sgr_effect_extended [of "[[5], digits_of (unat (xterm_index i))]" fg])
  have u: "ucast (ucast i :: 16 word) = (ucast i :: size_t)"
    by (rule bit_word_eqI) (auto simp: bit_simps dest: bit_imp_le_length)
  have n: "unat (Xterm256ToWindowsIndex (ucast i)) = unat (xterm_index i)"
    using unat_byte [of "xterm_index i"]
    by (simp add: Xterm256ToWindowsIndex_word unsigned_ucast_eq take_bit_nat_eq_self)
  show "wide (CSI ((if fg then ''38;5;'' else ''48;5;'') @ fmt_d (uint (Xterm256ToWindowsIndex (ucast (ucast i :: 16 word)))) @ ''m'')) =
      csi_text [] ((if fg then [3, 8] else [4, 8]) # [[5], digits_of (unat (xterm_index i))]) [] 0x6D"
    by (simp add: wide_Cons wide_append csi_text_def fmt_byte wide_fmt_u digit_char_def u n)
  have "vtp_enum (param_of [5]) = 5"
    by (simp add: vtp_enum_def value_or_def param_of_def has_value_def decimal_def)
  then show "ad_SetRgbColorsHelper (map param_of [[5], digits_of (unat (xterm_index i))]) a fg =
      (length [[5], digits_of (unat (xterm_index i))], if fg then ta_SetIndexedForeground256 i a else ta_SetIndexedBackground256 i a)" for a
    by (simp add: ad_SetRgbColorsHelper_def vtps_at_def Let_def enum_digits unat_byte of_nat_byte Xterm256ToWindowsIndex_byte
        del: of_nat_unat)
qed (simp_all add: digits_of_digits)

lemma sgr_effect_rgb:
  "sgr_effect (CSI ((if fg then ''38;2;'' else ''48;2;'') @
      fmt_d (uint r) @ '';'' @ fmt_d (uint g) @ '';'' @ fmt_d (uint b) @ ''m''))
    (ta_SetColor (RGB r g b) fg)"
proof (rule sgr_effect_extended [of "[[2], digits_of (unat r), digits_of (unat g), digits_of (unat b)]" fg])
  have "vtp_enum (param_of [2]) = 2"
    by (simp add: vtp_enum_def value_or_def param_of_def has_value_def decimal_def)
  then show "ad_SetRgbColorsHelper (map param_of [[2], digits_of (unat r), digits_of (unat g), digits_of (unat b)]) a fg =
      (length [[2], digits_of (unat r), digits_of (unat g), digits_of (unat b)], ta_SetColor (RGB r g b) fg a)" for a
    by (simp add: ad_SetRgbColorsHelper_def vtps_at_def Let_def enum_digits unat_byte of_nat_byte numeral_3_eq_3
        del: of_nat_unat)
qed (simp_all add: digits_of_digits wide_Cons wide_append csi_text_def fmt_byte wide_fmt_u digit_char_def)

end
