(* ===== verification/Vt_Lockstep.thy ===== *)
theory Vt_Lockstep
  imports Vt_Effect
begin

text \<open>
  The renderer and the terminal change their attributes in step: whatever the brush updates append to the buffer
  is a series of rendition sequences with the effect that they have on the renderer's own record, and the record
  ends with the colours and renditions that were asked for.
\<close>

unbundle bit_operations_syntax

section \<open>Steps\<close>

definition renders :: "VtEngine \<Rightarrow> VtEngine \<Rightarrow> bool" where
  "renders v v' \<longleftrightarrow>
     (\<exists>seqs fs. ve_buffer v' = ve_buffer v @ concat seqs \<and> list_all2 sgr_effect seqs fs \<and>
        ve_lastTextAttributes v' = fold (\<lambda>f a. f a) fs (ve_lastTextAttributes v))"

lemma renders_refl [intro]: "renders v v"
  unfolding renders_def by (rule exI [of _ "[]"], rule exI [of _ "[]"]) simp

lemma renders_trans:
  assumes "renders u v" "renders v w"
  shows "renders u w"
proof -
  obtain ts fs ts' fs' where
    "ve_buffer v = ve_buffer u @ concat ts" "list_all2 sgr_effect ts fs"
    "ve_lastTextAttributes v = fold (\<lambda>f a. f a) fs (ve_lastTextAttributes u)"
    "ve_buffer w = ve_buffer v @ concat ts'" "list_all2 sgr_effect ts' fs'"
    "ve_lastTextAttributes w = fold (\<lambda>f a. f a) fs' (ve_lastTextAttributes v)"
    using assms by (auto simp: renders_def)
  then have "ve_buffer w = ve_buffer u @ concat (ts @ ts')" "list_all2 sgr_effect (ts @ ts') (fs @ fs')"
    "ve_lastTextAttributes w = fold (\<lambda>f a. f a) (fs @ fs') (ve_lastTextAttributes u)"
    by (simp_all add: list_all2_appendI)
  then show ?thesis unfolding renders_def by blast
qed

lemma renders_step: "sgr_effect seq f \<Longrightarrow> renders v (update_last f (ve_Write seq v))"
  unfolding renders_def
  by (rule exI [of _ "[seq]"], rule exI [of _ "[f]"]) (simp add: update_last_def ve_Write_def)

lemma last_fields [simp]:
  "ve_lastTextAttributes (update_last f v) = f (ve_lastTextAttributes v)"
  "ve_lastTextAttributes (ve_Write seq v) = ve_lastTextAttributes v"
  by (simp_all add: update_last_def ve_Write_def)

lemma update_last_comp: "update_last f (update_last g v) = update_last (\<lambda>a. f (g a)) v"
  by (simp add: update_last_def)

section \<open>The extended attributes\<close>

abbreviation (input) last_renditions :: "VtEngine \<Rightarrow> bool list" where
  "last_renditions v \<equiv> ta_renditions (ve_lastTextAttributes v)"

text \<open>
  A statement of \<^verbatim>\<open>_UpdateExtendedAttrs\<close>: it renders, keeps colours and hyperlink, and changes the renditions by
  \<open>u\<close>.
\<close>

definition rendition_step :: "(VtEngine \<Rightarrow> VtEngine) \<Rightarrow> (bool list \<Rightarrow> bool list) \<Rightarrow> bool" where
  "rendition_step step u \<longleftrightarrow>
     (\<forall>v. renders v (step v) \<and> last_renditions (step v) = u (last_renditions v) \<and>
        ta_colors (ve_lastTextAttributes (step v)) = ta_colors (ve_lastTextAttributes v))"

lemma rendition_stepI:
  assumes "\<And>v. step v = (if c (last_renditions v) then update_last f (ve_Write seq v) else v)"
    and "sgr_effect seq f"
    and "\<And>a. ta_renditions (f a) = g (ta_renditions a)" "\<And>a. ta_colors (f a) = ta_colors a"
    and "\<And>r. length r = 10 \<Longrightarrow> u r = (if c r then g r else r)"
  shows "rendition_step step u"
  unfolding rendition_step_def
  using assms by (auto simp: renders_step)

lemma rendition_steps:
  assumes "list_all2 rendition_step steps us"
  shows "rendition_step (fold (\<lambda>s v. s v) steps) (fold (\<lambda>u r. u r) us)"
  using assms
proof (induction steps us)
  case Nil
  then show ?case by (simp add: rendition_step_def renders_refl)
next
  case (Cons s steps u us)
  then show ?case unfolding rendition_step_def by (auto intro: renders_trans)
qed

lemma update_toggle:
  assumes "\<And>v. step v = (if query a \<noteq> query (ve_lastTextAttributes v)
      then update_last (setter (query a)) (ve_Write (CSI (if query a then on else off)) v) else v)"
    and "sgr_effect (CSI on) (setter True)" "sgr_effect (CSI off) (setter False)"
    and "\<And>b x. ta_renditions (setter b x) = (ta_renditions x)[k := b]" "\<And>b x. ta_colors (setter b x) = ta_colors x"
    and "\<And>x. query x = ta_renditions x ! k"
  shows "rendition_step step (\<lambda>r. r[k := ta_renditions a ! k])"
  by (rule rendition_stepI [where c = "\<lambda>r. ta_renditions a ! k \<noteq> r ! k" and f = "setter (query a)"
        and seq = "CSI (if query a then on else off)" and g = "\<lambda>r. r[k := query a]"])
    (use assms in auto)

lemma toggle_steps:
  "rendition_step (update_overlined a) (\<lambda>r. r[8 := ta_renditions a ! 8])"
  "rendition_step (update_italic a) (\<lambda>r. r[2 := ta_renditions a ! 2])"
  "rendition_step (update_blinking a) (\<lambda>r. r[3 := ta_renditions a ! 3])"
  "rendition_step (update_invisible a) (\<lambda>r. r[4 := ta_renditions a ! 4])"
  "rendition_step (update_crossed_out a) (\<lambda>r. r[5 := ta_renditions a ! 5])"
  "rendition_step (update_reverse_video a) (\<lambda>r. r[9 := ta_renditions a ! 9])"
  by (rule update_toggle,
      simp only: update_overlined_def update_italic_def update_blinking_def update_invisible_def update_crossed_out_def
        update_reverse_video_def ve_SetOverlined_def ve_SetItalic_def ve_SetBlinking_def ve_SetInvisible_def
        ve_SetCrossedOut_def ve_SetReverseVideo_def,
      (rule sgr_effect_literals ta_renditions_set ta_colors_set ta_renditions_nth)+)+

definition pair_off :: "nat \<Rightarrow> nat \<Rightarrow> bool list \<Rightarrow> bool list \<Rightarrow> bool list" where
  "pair_off i j s r = (if \<not> s ! i \<and> r ! i \<or> \<not> s ! j \<and> r ! j then r[i := False, j := False] else r)"

definition switch_on :: "nat \<Rightarrow> bool list \<Rightarrow> bool list \<Rightarrow> bool list" where
  "switch_on i s r = (if s ! i \<and> \<not> r ! i then r[i := True] else r)"

lemma switch_steps:
  "rendition_step (bold_or_faint_off a) (pair_off 0 1 (ta_renditions a))"
  "rendition_step (bold_on a) (switch_on 0 (ta_renditions a))"
  "rendition_step (faint_on a) (switch_on 1 (ta_renditions a))"
  "rendition_step (underlines_off a) (pair_off 6 7 (ta_renditions a))"
  "rendition_step (underline_on a) (switch_on 6 (ta_renditions a))"
  "rendition_step (double_underline_on a) (switch_on 7 (ta_renditions a))"
  by (rule rendition_stepI,
      simp only: bold_or_faint_off_def bold_on_def faint_on_def underlines_off_def underline_on_def double_underline_on_def
        ve_SetBold_def ve_SetFaint_def ve_SetUnderlined_def ve_SetDoublyUnderlined_def update_last_comp if_True if_False
        ta_renditions_nth,
      rule sgr_effect_literals, simp only: ta_renditions_set ta_colors_set, simp only: ta_colors_set,
      simp add: pair_off_def switch_on_def)+

lemma pair_off_on:
  assumes "i < length r" "j < length r" "i \<noteq> j"
  shows "switch_on j s (switch_on i s (pair_off i j s r)) = r[i := s ! i, j := s ! j]"
proof (rule nth_equalityI)
  show "length (switch_on j s (switch_on i s (pair_off i j s r))) = length (r[i := s ! i, j := s ! j])"
    by (simp add: switch_on_def pair_off_def)
  show "switch_on j s (switch_on i s (pair_off i j s r)) ! k = r[i := s ! i, j := s ! j] ! k" for k
    using assms by (cases "k = i"; cases "k = j") (auto simp: switch_on_def pair_off_def)
qed

lemma all_renditions:
  assumes "length r = 10" "length s = 10"
  shows "r[0 := s ! 0, 1 := s ! 1, 6 := s ! 6, 7 := s ! 7, 8 := s ! 8, 2 := s ! 2, 3 := s ! 3, 4 := s ! 4, 5 := s ! 5,
    9 := s ! 9] = s"
proof (rule nth_equalityI)
  fix k assume "k < length (r[0 := s ! 0, 1 := s ! 1, 6 := s ! 6, 7 := s ! 7, 8 := s ! 8, 2 := s ! 2, 3 := s ! 3,
    4 := s ! 4, 5 := s ! 5, 9 := s ! 9])"
  then have "k = 0 \<or> k = 1 \<or> k = 2 \<or> k = 3 \<or> k = 4 \<or> k = 5 \<or> k = 6 \<or> k = 7 \<or> k = 8 \<or> k = 9"
    using assms(1) by auto
  then show "r[0 := s ! 0, 1 := s ! 1, 6 := s ! 6, 7 := s ! 7, 8 := s ! 8, 2 := s ! 2, 3 := s ! 3, 4 := s ! 4, 5 := s ! 5,
      9 := s ! 9] ! k = s ! k"
    using assms(1) by (elim disjE) simp_all
qed (simp add: assms)

lemma extended_attributes:
  "renders v (UpdateExtendedAttrs a v)" "last_renditions (UpdateExtendedAttrs a v) = ta_renditions a"
  "ta_colors (ve_lastTextAttributes (UpdateExtendedAttrs a v)) = ta_colors (ve_lastTextAttributes v)"
proof -
  let ?s = "ta_renditions a"
  let ?steps = "[bold_or_faint_off a, bold_on a, faint_on a, underlines_off a, underline_on a, double_underline_on a,
    update_overlined a, update_italic a, update_blinking a, update_invisible a, update_crossed_out a, update_reverse_video a]"
  let ?us = "[pair_off 0 1 ?s, switch_on 0 ?s, switch_on 1 ?s, pair_off 6 7 ?s, switch_on 6 ?s, switch_on 7 ?s,
    \<lambda>r. r[8 := ?s ! 8], \<lambda>r. r[2 := ?s ! 2], \<lambda>r. r[3 := ?s ! 3], \<lambda>r. r[4 := ?s ! 4], \<lambda>r. r[5 := ?s ! 5],
    \<lambda>r. r[9 := ?s ! 9]]"
  have "list_all2 rendition_step ?steps ?us"
    by (simp only: list_all2_Cons list_all2_Nil toggle_steps switch_steps simp_thms)
  then have step: "rendition_step (fold (\<lambda>s v. s v) ?steps) (fold (\<lambda>u r. u r) ?us)" by (rule rendition_steps)
  have run: "UpdateExtendedAttrs a v = fold (\<lambda>s v. s v) ?steps v"
    by (simp add: UpdateExtendedAttrs_def)
  have "fold (\<lambda>u r. u r) ?us r = ?s" if "length r = 10" for r
    using all_renditions [of r ?s] that by (simp add: pair_off_on)
  then show "renders v (UpdateExtendedAttrs a v)" "last_renditions (UpdateExtendedAttrs a v) = ta_renditions a"
    "ta_colors (ve_lastTextAttributes (UpdateExtendedAttrs a v)) = ta_colors (ve_lastTextAttributes v)"
    using step unfolding rendition_step_def run by (metis length_ta_renditions)+
qed

section \<open>The colours\<close>

definition set_color :: "bool \<Rightarrow> TextColor \<Rightarrow> TextAttribute \<Rightarrow> TextAttribute" where
  "set_color fg c = (if fg then ta_SetForeground c else ta_SetBackground c)"

lemma color_sequence_renders:
  assumes "tc_wf c"
  shows "\<exists>seq. color_sequence c fg = ve_Write seq \<and> sgr_effect seq (set_color fg c)"
  using assms
proof (cases c rule: tc_wf_cases)
  case default
  have "color_sequence c fg = ve_Write (CSI (if fg then ''39m'' else ''49m''))"
    by (rule ext) (simp add: default color_sequence_def SetGraphicsRenditionDefaultColor_def tc_Default_def tc_IsDefault_def)
  moreover have "set_color fg c = (if fg then ta_SetDefaultForeground else ta_SetDefaultBackground)"
    by (rule ext) (simp add: default set_color_def ta_color_setter_defs)
  ultimately show ?thesis using sgr_effect_literals(19,20) by auto
next
  case (index16 i)
  have "color_sequence c fg = ve_Write (CSI (fmt_d (vt_index_16 (ucast i) fg) @ ''m''))"
    by (rule ext) (simp add: index16 color_sequence_def SetGraphicsRendition16Color_def tc_Index_def tc_IsDefault_def
        tc_IsIndex16_def tc_GetIndex_def)
  moreover have "set_color fg c = (\<lambda>a. if fg then ta_SetIndexedForeground i a else ta_SetIndexedBackground i a)"
    by (rule ext) (simp add: index16 set_color_def ta_color_setter_defs)
  ultimately show ?thesis using sgr_effect_16 [OF index16(1), of fg] by auto
next
  case (index256 i)
  have "color_sequence c fg = ve_Write (CSI ((if fg then ''38;5;'' else ''48;5;'') @
      fmt_d (uint (Xterm256ToWindowsIndex (ucast (ucast i :: 16 word)))) @ ''m''))"
    by (rule ext) (simp add: index256 color_sequence_def SetGraphicsRendition256Color_def tc_Index_def tc_IsDefault_def
        tc_IsIndex16_def tc_IsIndex256_def tc_GetIndex_def)
  moreover have "set_color fg c = (\<lambda>a. if fg then ta_SetIndexedForeground256 i a else ta_SetIndexedBackground256 i a)"
    by (rule ext) (simp add: index256 set_color_def ta_color_setter_defs)
  ultimately show ?thesis using sgr_effect_256 [of fg i] by auto
next
  case (rgb r g b)
  have "color_sequence c fg = ve_Write (CSI ((if fg then ''38;2;'' else ''48;2;'') @
      fmt_d (uint r) @ '';'' @ fmt_d (uint g) @ '';'' @ fmt_d (uint b) @ ''m''))"
    by (rule ext) (simp add: rgb color_sequence_def SetGraphicsRenditionRGBColor_def tc_Rgb_RGB tc_IsDefault_def
        tc_IsIndex16_def tc_IsIndex256_def tc_IsRgb_def tc_GetRGB_def Let_def)
  moreover have "set_color fg c = ta_SetColor (RGB r g b) fg"
    by (rule ext) (simp add: rgb set_color_def ta_color_setter_defs)
  ultimately show ?thesis using sgr_effect_rgb [of fg r g b] by auto
qed

lemma renders_color:
  assumes "tc_wf c"
  shows "renders v (update_last (set_color fg c) (color_sequence c fg v))"
  using color_sequence_renders [OF assms, of fg] renders_step by metis

lemma reset_attributes_renders:
  "renders v (reset_attributes v)"
  "ve_lastTextAttributes (reset_attributes v) = ad_apply_option Off (ve_lastTextAttributes v)"
proof -
  have "reset_attributes v = update_last (ad_apply_option Off) (ve_Write (CSI ''m'') v)"
    by (simp add: reset_attributes_def ve_SetGraphicsDefault_def update_last_def ve_Write_def ta_SetDefaultMetaAttrs_def
        ta_color_setter_defs)
  then show "renders v (reset_attributes v)"
    "ve_lastTextAttributes (reset_attributes v) = ad_apply_option Off (ve_lastTextAttributes v)"
    using renders_step [OF sgr_effect_reset] by simp_all
qed

lemma option_off_fields:
  "ta_foreground (ad_apply_option Off a) = tc_Default" "ta_background (ad_apply_option Off a) = tc_Default"
  "ta_hyperlinkId (ad_apply_option Off a) = ta_hyperlinkId a"
  by (simp_all add: ta_SetDefaultMetaAttrs_def ta_color_setter_defs)

text \<open>An update of one colour from the last one, as the record has it.\<close>

lemma last_color_sequence: "ve_lastTextAttributes (color_sequence c fg v) = ve_lastTextAttributes v"
  by (simp add: color_sequence_def SetGraphicsRenditionDefaultColor_def SetGraphicsRendition16Color_def
      SetGraphicsRendition256Color_def SetGraphicsRenditionRGBColor_def Let_def)

lemma update_foreground_renders:
  assumes "tc_wf c" "ta_foreground (ve_lastTextAttributes v) = old"
  shows "renders v (update_foreground c old v)"
    "ve_lastTextAttributes (update_foreground c old v) = ta_SetForeground c (ve_lastTextAttributes v)"
  using renders_color [OF assms(1), of v True] assms(2)
  by (auto simp: update_foreground_def set_color_def renders_refl last_color_sequence ta_SetForeground_def)

lemma update_background_renders:
  assumes "tc_wf c" "ta_background (ve_lastTextAttributes v) = old"
  shows "renders v (update_background c old v)"
    "ve_lastTextAttributes (update_background c old v) = ta_SetBackground c (ve_lastTextAttributes v)"
  using renders_color [OF assms(1), of v False] assms(2)
  by (auto simp: update_background_def set_color_def renders_refl last_color_sequence ta_SetBackground_def)

lemma rgb_brushes:
  assumes "ta_wf a"
  shows "renders v (RgbUpdateDrawingBrushes a v)"
    "ta_foreground (ve_lastTextAttributes (RgbUpdateDrawingBrushes a v)) = ta_foreground a"
    "ta_background (ve_lastTextAttributes (RgbUpdateDrawingBrushes a v)) = ta_background a"
    "ta_hyperlinkId (ve_lastTextAttributes (RgbUpdateDrawingBrushes a v)) = ta_hyperlinkId (ve_lastTextAttributes v)"
proof -
  define reset where "reset \<longleftrightarrow> tc_IsDefault (ta_foreground a) \<and> tc_IsDefault (ta_background a) \<and>
      \<not> (tc_IsDefault (ta_foreground (ve_lastTextAttributes v)) \<and> tc_IsDefault (ta_background (ve_lastTextAttributes v)))"
  define w where "w = (if reset then reset_attributes v else v)"
  have wf: "tc_wf (ta_foreground a)" "tc_wf (ta_background a)" using assms by (simp_all add: ta_wf_def)
  have w: "renders v w" "ta_hyperlinkId (ve_lastTextAttributes w) = ta_hyperlinkId (ve_lastTextAttributes v)"
    using reset_attributes_renders [of v] by (auto simp: w_def renders_refl option_off_fields simp del: ad_apply_option.simps)
  define x where "x = update_foreground (ta_foreground a) (ta_foreground (ve_lastTextAttributes w)) w"
  note x = update_foreground_renders [OF wf(1) refl, of w, folded x_def]
  have lx: "ta_background (ve_lastTextAttributes w) = ta_background (ve_lastTextAttributes x)"
    by (simp add: x(2) ta_SetForeground_def)
  define y where "y = update_background (ta_background a) (ta_background (ve_lastTextAttributes w)) x"
  note y = update_background_renders [OF wf(2) lx [symmetric], folded y_def]
  have "RgbUpdateDrawingBrushes a v = y"
    unfolding RgbUpdateDrawingBrushes_def Let_def reset_def [symmetric]
    by (cases reset) (simp_all add: y_def x_def w_def reset_attributes_renders option_off_fields del: ad_apply_option.simps)
  then show "renders v (RgbUpdateDrawingBrushes a v)"
    "ta_foreground (ve_lastTextAttributes (RgbUpdateDrawingBrushes a v)) = ta_foreground a"
    "ta_background (ve_lastTextAttributes (RgbUpdateDrawingBrushes a v)) = ta_background a"
    "ta_hyperlinkId (ve_lastTextAttributes (RgbUpdateDrawingBrushes a v)) = ta_hyperlinkId (ve_lastTextAttributes v)"
    using renders_trans [OF w(1) renders_trans [OF x(1) y(1)]] w(2) by (simp_all add: y(2) x(2) ta_SetForeground_def ta_SetBackground_def)
qed

end
