(* ===== verification/Vt_Roundtrip.thy ===== *)
theory Vt_Roundtrip
  imports Vt_Lockstep Parser_Spec
begin

text \<open>
  From the renderer to the terminal: the bytes of a brush update, however they are cut into reads, pass the
  terminal's parser and engine and leave its current attributes equal to the renderer's record.
\<close>

unbundle bit_operations_syntax

section \<open>Texts that perform a change\<close>

text \<open>
  Read in one piece by a parser at rest, the text changes the dispatcher's state by \<open>g\<close> and leaves the parser at rest.
\<close>

definition performs :: "('d, 't) oe_env \<Rightarrow> wstring \<Rightarrow> ('d \<Rightarrow> 'd) \<Rightarrow> bool" where
  "performs env str g \<longleftrightarrow>
     (\<forall>s. ok_machine quiet s \<longrightarrow> ready s \<longrightarrow>
        (\<exists>s'. process_writes (output_engine_ops env) [str] s = Inr s' \<and> ok_machine quiet s' \<and> ready s' \<and>
           oe_dispatch (sm_engine s') = g (oe_dispatch (sm_engine s))))"

lemma performs_each:
  assumes "list_all2 (performs env) strs gs" "ok_machine quiet s" "ready s"
  shows "\<exists>s'. process_writes (output_engine_ops env) strs s = Inr s' \<and> ok_machine quiet s' \<and> ready s' \<and>
    oe_dispatch (sm_engine s') = fold (\<lambda>g d. g d) gs (oe_dispatch (sm_engine s))"
  using assms
proof (induction strs gs arbitrary: s)
  case (Cons str strs g gs)
  then obtain t where t: "process_writes (output_engine_ops env) [str] s = Inr t" "ok_machine quiet t" "ready t"
    "oe_dispatch (sm_engine t) = g (oe_dispatch (sm_engine s))"
    by (auto simp: performs_def)
  then show ?case
    using Cons.IH [OF t(2,3)] process_writes_append [of "output_engine_ops env" "[str]" strs s] by simp
qed simp

lemma performs_writes:
  assumes "prints_piecewise env" "list_all2 (performs env) strs gs" "concat ws = concat strs"
    and "ok_machine quiet s" "ready s"
  shows "\<exists>s'. process_writes (output_engine_ops env) ws s = Inr s' \<and> ok_machine quiet s' \<and> ready s' \<and>
    oe_dispatch (sm_engine s') = fold (\<lambda>g d. g d) gs (oe_dispatch (sm_engine s))"
proof -
  obtain t where t: "process_writes (output_engine_ops env) strs s = Inr t" "ready t"
    "oe_dispatch (sm_engine t) = fold (\<lambda>g d. g d) gs (oe_dispatch (sm_engine s))"
    using performs_each [OF assms(2,4,5)] by blast
  have sim: "sim_result quiet (process_writes (output_engine_ops env) vs s) (stream (output_engine_ops env) (concat vs) s)" for vs
    by (rule oes.process_writes_stream [OF print_compositional_output [OF assms(1)] sim_refl [OF assms(4)]])
  obtain u where u: "stream (output_engine_ops env) (concat strs) s = Inr u" "sim quiet t u"
    using sim [of strs] t(1) by (cases "stream (output_engine_ops env) (concat strs) s") auto
  obtain s' where s': "process_writes (output_engine_ops env) ws s = Inr s'" "sim quiet s' u"
    using writes_stream [OF assms(1,4)] u(1) assms(3) by metis
  then show ?thesis
    using t(2,3) sim_fields [OF u(2)] sim_fields [OF s'(2)] by (auto simp: sim_def ready_def)
qed

section \<open>Calls\<close>

text \<open>A call that keeps the parser's mode, as a change of the dispatcher's state.\<close>

definition call_effect :: "('d, 't) oe_env \<Rightarrow> dispatch_call \<Rightarrow> ('d \<Rightarrow> 'd) \<Rightarrow> bool" where
  "call_effect env c g \<longleftrightarrow> (\<forall>d. snd (dispatch env c True d) = (True, g d))"

lemma call_after:
  assumes "call_effect env c g" "ok_machine quiet s" "ready s"
    and "alike (snd (flush_and_clear env (do_call env c s))) s'" "sm_state s' = Ground"
  shows "ready s'" "oe_dispatch (sm_engine s') = g (oe_dispatch (sm_engine s))"
proof -
  have m: "sm_isInAnsiMode s" "quiet (sm_engine s)" using assms(2,3) by (simp_all add: ready_def ok_machine_def)
  have "sm_isInAnsiMode s' = sm_isInAnsiMode (snd (do_call env c s))"
    using assms(4) m(2) by (simp add: quiet_flush_and_clear quiet_do_call alike_def ClearLastChar_engine)
  moreover have "snd (dispatch env c True (oe_dispatch (sm_engine s))) = (True, g (oe_dispatch (sm_engine s)))"
    using assms(1) by (simp add: call_effect_def)
  ultimately show "ready s'" "oe_dispatch (sm_engine s') = g (oe_dispatch (sm_engine s))"
    using alike_call [OF m(2) assms(4)] assms(5) m(1) by (auto simp: ready_def do_call_def split: prod.splits)
qed

lemma sgr_switch: "csi_switch env (Finalize 0x6D (builder_of [])) ps s = do_call env (SetGraphicsRendition ps) s"
  by (simp add: csi_switch_def Finalize_def builder_of_def vtid_from_string_def Let_def)

lemma performs_sgr:
  assumes "prints_piecewise env" "csi_ok [] ps [] 0x6D" "call_effect env (SetGraphicsRendition (parsed_params ps)) g"
  shows "performs env (csi_text [] ps [] 0x6D) g"
  unfolding performs_def
proof (intro allI impI)
  fix s :: "('a, 'b) oe_machine" assume s: "ok_machine quiet s" "ready s"
  obtain s' where s': "process_writes (output_engine_ops env) [csi_text [] ps [] 0x6D] s = Inr s'" "sm_state s' = Ground"
    "ok_machine quiet s'"
    "alike (snd (oe_ActionCsiDispatch env (Finalize 0x6D (builder_of [])) (parsed_params ps) s)) s'"
    using writes_csi [OF assms(1) s assms(2), of "[csi_text [] ps [] 0x6D]"] by auto
  then show "\<exists>s'. process_writes (output_engine_ops env) [csi_text [] ps [] 0x6D] s = Inr s' \<and> ok_machine quiet s' \<and>
      ready s' \<and> oe_dispatch (sm_engine s') = g (oe_dispatch (sm_engine s))"
    using call_after [OF assms(3) s _ s'(2)] by (simp add: oe_ActionCsiDispatch_def sgr_switch)
qed

lemma performs_osc:
  assumes "prints_piecewise env" "osc_ok ds str ts" "call_effect env c g"
    and "\<And>s. osc_switch env (of_nat (min 32767 (decimal ds))) str s = do_call env c s"
  shows "performs env (osc_text ds str ts) g"
  unfolding performs_def
proof (intro allI impI)
  fix s :: "('a, 'b) oe_machine" assume s: "ok_machine quiet s" "ready s"
  obtain s' where s': "process_writes (output_engine_ops env) [osc_text ds str ts] s = Inr s'" "sm_state s' = Ground"
    "ok_machine quiet s'"
    "alike (snd (oe_ActionOscDispatch env 0 (of_nat (min 32767 (decimal ds))) str s)) s'"
    using writes_osc [OF assms(1) s assms(2), of "[osc_text ds str ts]"] by auto
  then show "\<exists>s'. process_writes (output_engine_ops env) [osc_text ds str ts] s = Inr s' \<and> ok_machine quiet s' \<and>
      ready s' \<and> oe_dispatch (sm_engine s') = g (oe_dispatch (sm_engine s))"
    using call_after [OF assms(3) s _ s'(2)] by (simp add: oe_ActionOscDispatch_def assms(4))
qed

section \<open>The terminal's dispatcher\<close>

text \<open>
  \<^verbatim>\<open>TerminalDispatch\<close> over the terminal: the calls that the model of the terminal covers go there, every other call
  goes to \<open>other\<close>, which may also change the rest of the terminal's state.
\<close>

type_synonym 'r terminal = "Terminal_attributes \<times> 'r"

definition terminal_dispatch ::
    "(wstring \<Rightarrow> size_t) \<Rightarrow> (dispatch_call \<Rightarrow> bool \<Rightarrow> 'r terminal \<Rightarrow> bool \<times> bool \<times> 'r terminal) \<Rightarrow>
     dispatch_call \<Rightarrow> bool \<Rightarrow> 'r terminal \<Rightarrow> bool \<times> bool \<times> 'r terminal" where
  "terminal_dispatch hash other c mode d =
     (case d of (t, r) \<Rightarrow>
        (case c of
           SetGraphicsRendition options \<Rightarrow>
             (case td_SetGraphicsRendition options t of
                Some (success, t') \<Rightarrow> (success, mode, t', r)
              | None \<Rightarrow> (False, mode, d))
         | PushGraphicsRendition options \<Rightarrow>
             (case term_PushGraphicsRendition options t of (success, t') \<Rightarrow> (success, mode, t', r))
         | PopGraphicsRendition \<Rightarrow> (case term_PopGraphicsRendition t of (success, t') \<Rightarrow> (success, mode, t', r))
         | AddHyperlink uri params \<Rightarrow>
             (case term_AddHyperlink hash uri params t of (success, t') \<Rightarrow> (success, mode, t', r))
         | EndHyperlink \<Rightarrow> (case term_EndHyperlink t of (success, t') \<Rightarrow> (success, mode, t', r))
         | _ \<Rightarrow> other c mode d))"

definition terminal_env ::
    "(wstring \<Rightarrow> size_t) \<Rightarrow> ('r terminal, 't) oe_env \<Rightarrow> ('r terminal, 't) oe_env" where
  "terminal_env hash env = env\<lparr>dispatch := terminal_dispatch hash (dispatch env)\<rparr>"

lemma terminal_prints_piecewise: "prints_piecewise env \<Longrightarrow> prints_piecewise (terminal_env hash env)"
  by (simp add: prints_piecewise_def terminal_env_def terminal_dispatch_def case_prod_unfold)

definition change_attributes :: "(TextAttribute \<Rightarrow> TextAttribute) \<Rightarrow> 'r terminal \<Rightarrow> 'r terminal" where
  "change_attributes f d = map_prod (\<lambda>t. t\<lparr>term_currentAttributes := f (term_currentAttributes t)\<rparr>) id d"

lemma sgr_call_effect:
  "call_effect (terminal_env hash env) (SetGraphicsRendition ps)
    (change_attributes (sgr_apply td_apply_option td_SetRgbColorsHelper (sgr_options ps)))"
  by (simp add: call_effect_def terminal_env_def terminal_dispatch_def td_SetGraphicsRendition_def sgr_loop_apply
      change_attributes_def term_SetTextAttributes_def term_GetTextAttributes_def case_prod_unfold)

lemma xterm_apply': "sgr_apply td_apply_option td_SetRgbColorsHelper ps a =
    ta_xterm (sgr_apply ad_apply_option ad_SetRgbColorsHelper ps (ta_xterm a))"
  using xterm_apply [of ps "ta_xterm a"] by simp

lemma performs_effect:
  assumes "prints_piecewise env" "sgr_effect seq f"
  shows "performs (terminal_env hash env) (wide seq) (change_attributes (\<lambda>a. ta_xterm (f (ta_xterm a))))"
proof -
  obtain ps where ps: "wide seq = csi_text [] ps [] 0x6D" "csi_ok [] ps [] 0x6D"
    "\<And>a. sgr_apply ad_apply_option ad_SetRgbColorsHelper (sgr_options (parsed_params ps)) a = f a"
    using assms(2) by (auto simp: sgr_effect_def)
  have "call_effect (terminal_env hash env) (SetGraphicsRendition (parsed_params ps))
      (change_attributes (\<lambda>a. ta_xterm (f (ta_xterm a))))"
    using sgr_call_effect [of hash env "parsed_params ps"]
    by (subst (asm) ext [OF xterm_apply']) (simp add: ps(3))
  then show ?thesis
    unfolding ps(1) by (rule performs_sgr [OF terminal_prints_piecewise [OF assms(1)] ps(2)])
qed

section \<open>The terminal mirrors the renderer's record\<close>

definition no_link :: "TextAttribute \<Rightarrow> TextAttribute" where
  "no_link a = ta_SetHyperlinkId 0 a"

definition mirrors :: "VtEngine \<Rightarrow> 'r terminal \<Rightarrow> bool" where
  "mirrors v d \<longleftrightarrow> no_link (term_currentAttributes (fst d)) = no_link (ta_xterm (ve_lastTextAttributes v))"

text \<open>Renditions and hyperlinks are independent.\<close>

lemma link_option: "ad_apply_option opt (ta_SetHyperlinkId h a) = ta_SetHyperlinkId h (ad_apply_option opt a)"
  by (cases opt) (simp_all add: ta_SetHyperlinkId_def ta_setter_defs ta_color_setter_defs ta_SetDefaultMetaAttrs_def)

lemma link_helper:
  "ad_SetRgbColorsHelper ps (ta_SetHyperlinkId h a) fg = map_prod id (ta_SetHyperlinkId h) (ad_SetRgbColorsHelper ps a fg)"
  by (simp add: ad_SetRgbColorsHelper_def Let_def ta_SetHyperlinkId_def ta_color_setter_defs)

lemma link_apply:
  "sgr_apply ad_apply_option ad_SetRgbColorsHelper ps (ta_SetHyperlinkId h a) =
    ta_SetHyperlinkId h (sgr_apply ad_apply_option ad_SetRgbColorsHelper ps a)"
proof (induction ad_apply_option ad_SetRgbColorsHelper ps a rule: sgr_apply.induct)
  case (2 p ps a)
  then show ?case by (auto simp: link_helper link_option split: option.split)
qed simp

lemma link_effect:
  assumes "sgr_effect seq f"
  shows "f (ta_SetHyperlinkId h a) = ta_SetHyperlinkId h (f a)" "ta_hyperlinkId (f a) = ta_hyperlinkId a"
proof -
  show c: "f (ta_SetHyperlinkId h a) = ta_SetHyperlinkId h (f a)" for h a
    using assms link_apply unfolding sgr_effect_def by metis
  have "ta_SetHyperlinkId (ta_hyperlinkId a) a = a" by (simp add: ta_SetHyperlinkId_def)
  then have "f a = ta_SetHyperlinkId (ta_hyperlinkId a) (f a)" using c [of "ta_hyperlinkId a" a] by simp
  then have "ta_hyperlinkId (f a) = ta_hyperlinkId (ta_SetHyperlinkId (ta_hyperlinkId a) (f a))" by simp
  then show "ta_hyperlinkId (f a) = ta_hyperlinkId a" by (simp add: ta_SetHyperlinkId_def)
qed

lemma link_effects:
  assumes "list_all2 sgr_effect seqs fs"
  shows "fold (\<lambda>f a. f a) fs (ta_SetHyperlinkId h a) = ta_SetHyperlinkId h (fold (\<lambda>f a. f a) fs a)"
    "ta_hyperlinkId (fold (\<lambda>f a. f a) fs a) = ta_hyperlinkId a"
  using assms by (induction seqs fs arbitrary: a) (simp_all add: link_effect)

lemma no_link_effects:
  assumes "list_all2 sgr_effect seqs fs" "no_link a = no_link b"
  shows "no_link (fold (\<lambda>f a. f a) fs a) = no_link (fold (\<lambda>f a. f a) fs b)"
  using assms(2) link_effects(1) [OF assms(1), of 0 a] link_effects(1) [OF assms(1), of 0 b] by (simp add: no_link_def)

lemma no_link_xterm: "no_link (ta_xterm a) = ta_xterm (no_link a)"
  by (simp add: no_link_def ta_SetHyperlinkId_def ta_xterm_def)

lemma mirrors_iff: "mirrors v d \<longleftrightarrow> no_link (ta_xterm (term_currentAttributes (fst d))) = no_link (ve_lastTextAttributes v)"
  unfolding mirrors_def no_link_xterm by (metis ta_xterm_involution)

lemma fold_change_attributes:
  "fold (\<lambda>g d. g d) (map (\<lambda>f. change_attributes (\<lambda>a. ta_xterm (f (ta_xterm a)))) fs) d =
    change_attributes (\<lambda>a. ta_xterm (fold (\<lambda>f a. f a) fs (ta_xterm a))) d"
  by (induction fs arbitrary: d) (simp_all add: change_attributes_def map_prod_def case_prod_unfold)

text \<open>A stretch of rendition sequences takes a mirroring terminal to a mirroring one.\<close>

lemma renders_performs:
  assumes "prints_piecewise env" "renders v v'"
  obtains strs gs where "wide (ve_buffer v') = wide (ve_buffer v) @ concat strs"
    "list_all2 (performs (terminal_env hash env)) strs gs"
    "\<And>d. mirrors v d \<Longrightarrow> mirrors v' (fold (\<lambda>g d. g d) gs d)"
    "\<And>d. \<exists>a. fold (\<lambda>g d. g d) gs d = change_attributes (\<lambda>_. a) d \<and>
       ta_hyperlinkId a = ta_hyperlinkId (term_currentAttributes (fst d))"
proof -
  obtain seqs fs where r: "ve_buffer v' = ve_buffer v @ concat seqs" "list_all2 sgr_effect seqs fs"
    "ve_lastTextAttributes v' = fold (\<lambda>f a. f a) fs (ve_lastTextAttributes v)"
    using assms(2) by (auto simp: renders_def)
  let ?gs = "map (\<lambda>f. change_attributes (\<lambda>a. ta_xterm (f (ta_xterm a)))) fs"
  show thesis
  proof (rule that [of "map wide seqs" ?gs])
    show "wide (ve_buffer v') = wide (ve_buffer v) @ concat (map wide seqs)"
      by (simp add: r(1) wide_def map_concat)
    show "list_all2 (performs (terminal_env hash env)) (map wide seqs) ?gs"
      using r(2) performs_effect [OF assms(1)] by (auto simp: list_all2_map1 list_all2_map2 elim: list_all2_mono)
    show "mirrors v' (fold (\<lambda>g d. g d) ?gs d)" if "mirrors v d" for d
      unfolding fold_change_attributes
      using no_link_effects [OF r(2) that [unfolded mirrors_iff]] by (simp add: mirrors_iff r(3) change_attributes_def)
    show "\<exists>a. fold (\<lambda>g d. g d) ?gs d = change_attributes (\<lambda>_. a) d \<and>
        ta_hyperlinkId a = ta_hyperlinkId (term_currentAttributes (fst d))" for d
      unfolding fold_change_attributes
      by (rule exI [of _ "ta_xterm (fold (\<lambda>f a. f a) fs (ta_xterm (term_currentAttributes (fst d))))"])
        (simp add: change_attributes_def link_effects [OF r(2)] map_prod_def case_prod_unfold)
  qed
qed

section \<open>Hyperlinks\<close>

text \<open>Text that every step carries unchanged: printable, within ASCII; and UTF-8 encodes ASCII as itself.\<close>

definition plain_text :: "wstring \<Rightarrow> bool" where
  "plain_text w \<longleftrightarrow> list_all (\<lambda>c. 0x20 \<le> unat c \<and> unat c < 0x7F) w"

definition utf8_ascii :: "hyperlink_env \<Rightarrow> bool" where
  "utf8_ascii henv \<longleftrightarrow> (\<forall>w. list_all (\<lambda>c. unat c < 0x80) w \<longrightarrow> wide (u16u8 henv w) = w)"

lemma plain_text_utf8: "utf8_ascii henv \<Longrightarrow> plain_text w \<Longrightarrow> wide (u16u8 henv w) = w"
  unfolding utf8_ascii_def plain_text_def by (fastforce simp: list_all_iff)

lemma plain_text_osc: "plain_text w \<Longrightarrow> list_all osc_char w"
  by (fastforce simp: plain_text_def list_all_iff osc_char_def char_class word_le_nat_alt)

lemma plain_text_append: "plain_text (a @ b) = (plain_text a \<and> plain_text b)"
  by (simp add: plain_text_def)

lemma plain_text_number: "plain_text (wide (fmt_u n))" "0x3B \<notin> set (wide (fmt_u n))" "0x3A \<notin> set (wide (fmt_u n))"
proof -
  have "c \<in> set (wide (fmt_u n)) \<Longrightarrow> 0x30 \<le> unat c \<and> unat c \<le> 0x39" for c
    using digits_of_digits [of n] by (auto simp: wide_fmt_u list_all_iff unat_digit_char)
  then have *: "\<forall>c \<in> set (wide (fmt_u n)). 0x30 \<le> unat c \<and> unat c \<le> 0x39" by blast
  then show "plain_text (wide (fmt_u n))" by (fastforce simp: plain_text_def list_all_iff)
  show "0x3B \<notin> set (wide (fmt_u n))" "0x3A \<notin> set (wide (fmt_u n))" using * by fastforce+
qed

lemma ParseHyperlink_id:
  assumes "0x3B \<notin> set p" "0x3A \<notin> set p"
  shows "ParseHyperlink (wide ''id='' @ p @ 0x3B # uri) = (True, p, uri)"
proof -
  have "wstr_find 0x3B ((wide ''id='' @ p) @ 0x3B # uri) 0 = Some (length (wide ''id='' @ p))"
    using assms(1) by (intro wstr_find_append) (simp add: wide_def)
  then have f: "wstr_find 0x3B (wide ''id='' @ p @ 0x3B # uri) 0 = Some (length (wide ''id='' @ p))" by simp
  have "split_chars 0x3A (wide ''id='' @ p) = [wide ''id='' @ p]"
    using assms(2) by (intro split_chars_no_delimiter) (simp add: wide_def)
  then have "SplitString (wide ''id='' @ p) 0x3A = [wide ''id='' @ p]"
    by (simp add: SplitString_eq wide_def)
  moreover have "wide ''id='' @ p @ 0x3B # uri \<noteq> wide '';''" by (simp add: wide_def)
  ultimately show ?thesis
    by (simp add: ParseHyperlink_def f) (simp add: hyperlinkIDParameter_def wide_def)
qed

text \<open>The link sequences, and what they do to the terminal.\<close>

lemma call_effect_AddHyperlink:
  "call_effect (terminal_env hash env) (AddHyperlink uri params) (map_prod (\<lambda>t. snd (term_AddHyperlink hash uri params t)) id)"
  by (simp add: call_effect_def terminal_env_def terminal_dispatch_def case_prod_unfold map_prod_def)

lemma call_effect_EndHyperlink:
  "call_effect (terminal_env hash env) EndHyperlink (map_prod (\<lambda>t. snd (term_EndHyperlink t)) id)"
  by (simp add: call_effect_def terminal_env_def terminal_dispatch_def case_prod_unfold map_prod_def)

lemma performs_link:
  assumes "prints_piecewise env" "plain_text p" "plain_text uri" "uri \<noteq> []" "0x3B \<notin> set p" "0x3A \<notin> set p"
  shows "performs (terminal_env hash env) (osc_text [8] (wide ''id='' @ p @ 0x3B # uri) [0x1B, 0x5C])
    (map_prod (\<lambda>t. snd (term_AddHyperlink hash uri p t)) id)"
proof (rule performs_osc [OF terminal_prints_piecewise [OF assms(1)] _ call_effect_AddHyperlink])
  have "list_all osc_char (wide ''id='')" "osc_char 0x3B" by (simp_all add: wide_def osc_char_def char_class)
  then show "osc_ok [8] (wide ''id='' @ p @ 0x3B # uri) [0x1B, 0x5C]"
    using plain_text_osc [OF assms(2)] plain_text_osc [OF assms(3)] by (simp add: osc_ok_def osc_terminator_def)
  show "osc_switch (terminal_env hash env) (of_nat (min 32767 (decimal [8]))) (wide ''id='' @ p @ 0x3B # uri) s =
      do_call (terminal_env hash env) (AddHyperlink uri p) s" for s
    using ParseHyperlink_id [OF assms(5,6), of uri] assms(4) by (simp add: osc_switch_def decimal_def)
qed

lemma performs_link_end:
  assumes "prints_piecewise env"
  shows "performs (terminal_env hash env) (osc_text [8] [0x3B] [0x1B, 0x5C]) (map_prod (\<lambda>t. snd (term_EndHyperlink t)) id)"
proof (rule performs_osc [OF terminal_prints_piecewise [OF assms] _ call_effect_EndHyperlink])
  show "osc_ok [8] [0x3B] [0x1B, 0x5C]" by (simp add: osc_ok_def osc_terminator_def osc_char_def char_class)
  show "osc_switch (terminal_env hash env) (of_nat (min 32767 (decimal [8]))) [0x3B] s =
      do_call (terminal_env hash env) EndHyperlink s" for s
    by (simp add: osc_switch_def decimal_def ParseHyperlink_def wide_def)
qed

text \<open>The identifier that the renderer sends for a link, and the links it can send.\<close>

definition link_id :: "hyperlink_env \<Rightarrow> wstring \<Rightarrow> 16 word \<Rightarrow> wstring" where
  "link_id henv customId numberId =
     (if customId = [] then wide (fmt_u (currentProcessId henv)) @ wide ''-'' @ wide (fmt_u (unat numberId))
      else wide ''u-'' @ customId)"

definition sendable :: "hyperlink_tables \<Rightarrow> 16 word \<Rightarrow> bool" where
  "sendable tables hid \<longleftrightarrow>
     (case GetHyperlinkUriFromId hid tables of None \<Rightarrow> False | Some uri \<Rightarrow> uri \<noteq> [] \<and> plain_text uri) \<and>
     plain_text (GetCustomIdFromId hid tables) \<and>
     0x3B \<notin> set (GetCustomIdFromId hid tables) \<and> 0x3A \<notin> set (GetCustomIdFromId hid tables)"

lemma link_id_plain:
  assumes "plain_text customId" "0x3B \<notin> set customId" "0x3A \<notin> set customId"
  shows "plain_text (link_id henv customId n)" "0x3B \<notin> set (link_id henv customId n)" "0x3A \<notin> set (link_id henv customId n)"
  using assms plain_text_number
  by (auto simp: link_id_def plain_text_append) (simp_all add: plain_text_def wide_def)

lemma SetHyperlink_text:
  assumes "utf8_ascii henv" "plain_text uri" "plain_text customId"
  shows "\<exists>str. ve_SetHyperlink henv uri customId n = ve_Write str \<and>
    wide str = osc_text [8] (wide ''id='' @ link_id henv customId n @ 0x3B # uri) [0x1B, 0x5C]"
proof (cases "customId = []")
  case True
  then show ?thesis
    using plain_text_utf8 [OF assms(1,2)]
    by (intro exI conjI) (auto simp: ve_SetHyperlink_def link_id_def osc_text_def wide_append wide_Cons digit_char_def)
next
  case False
  then show ?thesis
    using plain_text_utf8 [OF assms(1,2)] plain_text_utf8 [OF assms(1,3)]
    by (intro exI conjI) (auto simp: ve_SetHyperlink_def link_id_def osc_text_def wide_append wide_Cons digit_char_def)
qed

section \<open>Brush updates keep renderer and terminal in step\<close>

text \<open>
  Renderer and terminal in step: the terminal's current attributes mirror the renderer's record, and the terminal's
  current link has the target of the renderer's last one, or both have none.
\<close>

definition in_step :: "hyperlink_tables \<Rightarrow> VtEngine \<Rightarrow> 'r terminal \<Rightarrow> bool" where
  "in_step tables v d \<longleftrightarrow>
     (let h = ta_hyperlinkId (ve_lastTextAttributes v);
          k = ta_hyperlinkId (term_currentAttributes (fst d))
      in mirrors v d \<and> hl_inv (term_hyperlinks (fst d)) \<and> (k = 0 \<longleftrightarrow> h = 0) \<and>
         (h \<noteq> 0 \<longrightarrow> GetHyperlinkUriFromId k (term_hyperlinks (fst d)) = GetHyperlinkUriFromId h tables))"

definition transmits :: "('r terminal, 't) oe_env \<Rightarrow> hyperlink_tables \<Rightarrow> VtEngine \<Rightarrow> VtEngine \<Rightarrow> bool" where
  "transmits env tables v v' \<longleftrightarrow>
     (\<exists>strs gs. wide (ve_buffer v') = wide (ve_buffer v) @ concat strs \<and> list_all2 (performs env) strs gs \<and>
        (\<forall>d. in_step tables v d \<longrightarrow>
           in_step tables v' (fold (\<lambda>g d. g d) gs d) \<and> snd (fold (\<lambda>g d. g d) gs d) = snd d))"

lemma transmits_refl: "transmits env tables v v"
  unfolding transmits_def by (rule exI [of _ "[]"], rule exI [of _ "[]"]) simp

lemma transmits_trans:
  assumes "transmits env tables u v" "transmits env tables v w"
  shows "transmits env tables u w"
proof -
  obtain a f b g where "wide (ve_buffer v) = wide (ve_buffer u) @ concat a" "list_all2 (performs env) a f"
    "\<forall>d. in_step tables u d \<longrightarrow> in_step tables v (fold (\<lambda>g d. g d) f d) \<and> snd (fold (\<lambda>g d. g d) f d) = snd d"
    "wide (ve_buffer w) = wide (ve_buffer v) @ concat b" "list_all2 (performs env) b g"
    "\<forall>d. in_step tables v d \<longrightarrow> in_step tables w (fold (\<lambda>g d. g d) g d) \<and> snd (fold (\<lambda>g d. g d) g d) = snd d"
    using assms unfolding transmits_def by metis
  then have "wide (ve_buffer w) = wide (ve_buffer u) @ concat (a @ b)" "list_all2 (performs env) (a @ b) (f @ g)"
    "\<forall>d. in_step tables u d \<longrightarrow> in_step tables w (fold (\<lambda>g d. g d) (f @ g) d) \<and> snd (fold (\<lambda>g d. g d) (f @ g) d) = snd d"
    by (simp_all only: list_all2_appendI concat_append append_assoc fold_append comp_apply, metis)
  then show ?thesis unfolding transmits_def by blast
qed

lemma renders_link: "renders v v' \<Longrightarrow> ta_hyperlinkId (ve_lastTextAttributes v') = ta_hyperlinkId (ve_lastTextAttributes v)"
  by (auto simp: renders_def link_effects)

lemma transmits_renders:
  assumes "prints_piecewise env" "renders v v'"
  shows "transmits (terminal_env hash env) tables v v'"
proof -
  obtain strs gs where s: "wide (ve_buffer v') = wide (ve_buffer v) @ concat strs"
    "list_all2 (performs (terminal_env hash env)) strs gs"
    "\<And>d. mirrors v d \<Longrightarrow> mirrors v' (fold (\<lambda>g d. g d) gs d)"
    "\<And>d. \<exists>a. fold (\<lambda>g d. g d) gs d = change_attributes (\<lambda>_. a) d \<and>
       ta_hyperlinkId a = ta_hyperlinkId (term_currentAttributes (fst d))"
    using renders_performs [OF assms] by metis
  have "in_step tables v' (fold (\<lambda>g d. g d) gs d) \<and> snd (fold (\<lambda>g d. g d) gs d) = snd d" if "in_step tables v d" for d
    using s(4) [of d] s(3) [of d] that renders_link [OF assms(2)]
    by (auto simp: in_step_def Let_def change_attributes_def)
  then show ?thesis using s(1,2) unfolding transmits_def by blast
qed

lemma transmits_text:
  assumes "performs env (wide str) g" "ve_buffer v' = ve_buffer v @ str"
    and "\<And>d. in_step tables v d \<Longrightarrow> in_step tables v' (g d) \<and> snd (g d) = snd d"
  shows "transmits env tables v v'"
  unfolding transmits_def
  by (rule exI [of _ "[wide str]"], rule exI [of _ "[g]"]) (simp add: assms wide_append)

lemma mirrors_link:
  assumes "mirrors v d"
  shows "mirrors (update_last (ta_SetHyperlinkId h) (ve_Write str v))
    (t\<lparr>term_currentAttributes := ta_SetHyperlinkId k (term_currentAttributes (fst d)), term_hyperlinks := m\<rparr>, r)"
  using assms by (simp add: mirrors_def no_link_def ta_SetHyperlinkId_def ta_xterm_def)

lemma in_step_link:
  assumes "in_step tables v d" "h \<noteq> 0" "GetHyperlinkUriFromId h tables = Some uri"
  shows "in_step tables (update_last (ta_SetHyperlinkId h) (ve_Write str v))
    (map_prod (\<lambda>t. snd (term_AddHyperlink hash uri params t)) id d)"
proof -
  obtain t r where d: "d = (t, r)" by fastforce
  obtain k m where km: "GetHyperlinkId hash uri params (term_hyperlinks t) = (k, m)" by fastforce
  have m: "hl_inv m" "k \<noteq> 0" using GetHyperlinkId_inv [OF _ km] assms(1) by (simp_all add: in_step_def Let_def d)
  have "mirrors (update_last (ta_SetHyperlinkId h) (ve_Write str v)) (map_prod (\<lambda>t. snd (term_AddHyperlink hash uri params t)) id d)"
    using assms(1) mirrors_link [of v d] by (simp add: in_step_def Let_def d term_AddHyperlink_def km)
  then show ?thesis using m assms(2,3)
    by (simp add: in_step_def Let_def d term_AddHyperlink_def km AddHyperlinkToMap_def hl_inv_def GetHyperlinkUriFromId_def
        ta_SetHyperlinkId_def update_last_def ve_Write_def)
qed

lemma in_step_end:
  assumes "in_step tables v d"
  shows "in_step tables (update_last (ta_SetHyperlinkId 0) (ve_Write str v)) (map_prod (\<lambda>t. snd (term_EndHyperlink t)) id d)"
  using assms
  by (cases d) (simp add: in_step_def Let_def term_EndHyperlink_def mirrors_def no_link_def ta_SetHyperlinkId_def ta_xterm_def
      update_last_def ve_Write_def)

lemma transmits_link:
  assumes "prints_piecewise env" "utf8_ascii henv" "UpdateHyperlinkAttr henv tables a v = Some v'"
    and "ta_IsHyperlink a \<longrightarrow> sendable tables (ta_hyperlinkId a)"
  shows "transmits (terminal_env hash env) tables v v'"
proof (cases "ta_hyperlinkId a = ta_hyperlinkId (ve_lastTextAttributes v)")
  case True
  then show ?thesis using assms(3) by (simp add: UpdateHyperlinkAttr_def transmits_refl)
next
  case changed: False
  let ?h = "ta_hyperlinkId a"
  show ?thesis
  proof (cases "ta_IsHyperlink a")
    case True
    let ?c = "GetCustomIdFromId ?h tables"
    obtain uri where uri: "GetHyperlinkUriFromId ?h tables = Some uri" "uri \<noteq> []" "plain_text uri"
      and c: "plain_text ?c" "0x3B \<notin> set ?c" "0x3A \<notin> set ?c"
      using True assms(4) by (auto simp: sendable_def split: option.splits)
    obtain str where str: "ve_SetHyperlink henv uri ?c ?h = ve_Write str"
      "wide str = osc_text [8] (wide ''id='' @ link_id henv ?c ?h @ 0x3B # uri) [0x1B, 0x5C]"
      using SetHyperlink_text [OF assms(2) uri(3) c(1)] by blast
    have v': "v' = update_last (ta_SetHyperlinkId ?h) (ve_Write str v)"
      using assms(3) changed True uri(1) str(1) by (simp add: UpdateHyperlinkAttr_def Let_def)
    show ?thesis
    proof (rule transmits_text)
      show "performs (terminal_env hash env) (wide str)
          (map_prod (\<lambda>t. snd (term_AddHyperlink hash uri (link_id henv ?c ?h) t)) id)"
        unfolding str(2) by (rule performs_link [OF assms(1) link_id_plain(1) uri(3,2) link_id_plain(2,3)]) (fact c)+
      show "ve_buffer v' = ve_buffer v @ str" by (simp add: v' update_last_def ve_Write_def)
      show "in_step tables v' (map_prod (\<lambda>t. snd (term_AddHyperlink hash uri (link_id henv ?c ?h) t)) id d) \<and>
          snd (map_prod (\<lambda>t. snd (term_AddHyperlink hash uri (link_id henv ?c ?h) t)) id d) = snd d"
        if "in_step tables v d" for d
        using in_step_link [OF that True [unfolded ta_IsHyperlink_def] uri(1)] by (simp add: v')
    qed
  next
    case False
    have v': "v' = update_last (ta_SetHyperlinkId ?h) (ve_Write (OSC (''8;;'' @ [CHR 0x1B, CHR 0x5C])) v)"
      using assms(3) changed False by (simp add: UpdateHyperlinkAttr_def Let_def ve_EndHyperlink_def)
    have str: "wide (OSC (''8;;'' @ [CHR 0x1B, CHR 0x5C])) = osc_text [8] [0x3B] [0x1B, 0x5C]"
      by (simp add: wide_def osc_text_def digit_char_def)
    show ?thesis
    proof (rule transmits_text [OF performs_link_end [OF assms(1), folded str]])
      show "ve_buffer v' = ve_buffer v @ OSC (''8;;'' @ [CHR 0x1B, CHR 0x5C])" by (simp add: v' update_last_def ve_Write_def)
      show "in_step tables v' (map_prod (\<lambda>t. snd (term_EndHyperlink t)) id d) \<and>
          snd (map_prod (\<lambda>t. snd (term_EndHyperlink t)) id d) = snd d" if "in_step tables v d" for d
        using in_step_end [OF that] False by (simp add: v' ta_IsHyperlink_def)
    qed
  qed
qed

lemma UpdateHyperlinkAttr_last:
  assumes "UpdateHyperlinkAttr henv tables a v = Some v'"
  shows "ve_lastTextAttributes v' = ta_SetHyperlinkId (ta_hyperlinkId a) (ve_lastTextAttributes v)"
  using assms
  by (auto simp: UpdateHyperlinkAttr_def Let_def update_last_def ve_SetHyperlink_def ve_EndHyperlink_def ve_Write_def
      ta_SetHyperlinkId_def split: if_splits option.splits)

lemma brushes_transmit:
  assumes "prints_piecewise env" "utf8_ascii henv" "ta_wf a" "ta_IsHyperlink a \<longrightarrow> sendable tables (ta_hyperlinkId a)"
    and "Xterm256_UpdateDrawingBrushes henv tables a v = Some v'"
  shows "transmits (terminal_env hash env) tables v v'"
    "ta_renditions (ve_lastTextAttributes v') = ta_renditions a" "ta_foreground (ve_lastTextAttributes v') = ta_foreground a"
    "ta_background (ve_lastTextAttributes v') = ta_background a" "ta_hyperlinkId (ve_lastTextAttributes v') = ta_hyperlinkId a"
proof -
  obtain u where u: "UpdateHyperlinkAttr henv tables a (RgbUpdateDrawingBrushes a v) = Some u" "v' = UpdateExtendedAttrs a u"
    using assms(5) by (auto simp: Xterm256_UpdateDrawingBrushes_def)
  show "transmits (terminal_env hash env) tables v v'"
    unfolding u(2)
    by (rule transmits_trans [OF transmits_renders [OF assms(1) rgb_brushes(1) [OF assms(3)]]
          transmits_trans [OF transmits_link [OF assms(1,2) u(1) assms(4)] transmits_renders [OF assms(1) extended_attributes(1)]]])
  show "ta_renditions (ve_lastTextAttributes v') = ta_renditions a" unfolding u(2) by (rule extended_attributes(2))
  show "ta_foreground (ve_lastTextAttributes v') = ta_foreground a" "ta_background (ve_lastTextAttributes v') = ta_background a"
    "ta_hyperlinkId (ve_lastTextAttributes v') = ta_hyperlinkId a"
    using extended_attributes(3) [of a u] rgb_brushes(2-4) [OF assms(3), of v] UpdateHyperlinkAttr_last [OF u(1)]
    by (simp_all add: u(2) ta_colors_def ta_SetHyperlinkId_def)
qed

text \<open>The terminal's attributes and link, as seen on the renderer's side.\<close>

lemma in_step_attributes:
  assumes "in_step tables v d"
  shows "ta_renditions (term_currentAttributes (fst d)) = ta_renditions (ve_lastTextAttributes v)"
    "ta_foreground (term_currentAttributes (fst d)) = tc_xterm (ta_foreground (ve_lastTextAttributes v))"
    "ta_background (term_currentAttributes (fst d)) = tc_xterm (ta_background (ve_lastTextAttributes v))"
proof -
  have eq: "no_link (term_currentAttributes (fst d)) = no_link (ta_xterm (ve_lastTextAttributes v))"
    using assms by (simp add: in_step_def Let_def mirrors_def)
  have r: "ta_renditions (no_link x) = ta_renditions x" "ta_renditions (ta_xterm x) = ta_renditions x"
    "ta_foreground (no_link x) = ta_foreground x" "ta_background (no_link x) = ta_background x" for x
    by (simp_all add: no_link_def ta_SetHyperlinkId_def ta_renditions_def ta_query_defs)
  show "ta_renditions (term_currentAttributes (fst d)) = ta_renditions (ve_lastTextAttributes v)"
    using arg_cong [OF eq, of ta_renditions] by (simp add: r)
  show "ta_foreground (term_currentAttributes (fst d)) = tc_xterm (ta_foreground (ve_lastTextAttributes v))"
    "ta_background (term_currentAttributes (fst d)) = tc_xterm (ta_background (ve_lastTextAttributes v))"
    using arg_cong [OF eq, of ta_foreground] arg_cong [OF eq, of ta_background] by (simp_all add: r)
qed

end
