(* ===== verification/Attr_Spec.thy ===== *)
theory Attr_Spec
  imports Vt_Roundtrip
begin

text \<open>
  The properties of text attributes and of the sequences that carry them.
\<close>

unbundle bit_operations_syntax

text \<open>C25: The legacy attributes of the attribute built from a legacy word are that word, without its lead and
  trail byte flags and its unused bit, whatever the legacy default colours are.\<close>

theorem legacy_attributes_round_trip: "ta_GetLegacyAttributes defs (ta_Legacy defs w) = w AND 0xDCFF"
  using legacy_attribute_bits [of w] nibbles_bound [of w]
  by (simp add: ta_GetLegacyAttributes_def ta_Legacy_def GetLegacyIndex_legacy ta_IsBold_def WI_IsFlagSet_def Let_def
      del: drop_bit_and)

text \<open>C26: Where an attribute claims to look the same as another for a blank, both show the same background colour,
  under either screen mode, and neither draws a grid line; the colour table has all 256 entries.\<close>

theorem blank_space_looks_identical:
  assumes "HasIdenticalVisualRepresentationForBlankSpace a other inverted" and "256 \<le> length table"
  shows "\<exists>bg fg fg'. ta_CalculateRgbColors a table defaultFg defaultBg inverted blinkingIsFaint = Some (fg, bg) \<and>
    ta_CalculateRgbColors other table defaultFg defaultBg inverted blinkingIsFaint = Some (fg', bg) \<and>
    \<not> ta_IsAnyGridLineEnabled a \<and> \<not> ta_IsAnyGridLineEnabled other"
proof -
  have c: "ta_IsBold other = ta_IsBold a" "ta_IsFaint other = ta_IsFaint a" "ta_IsBlinking other = ta_IsBlinking a" 
    using blank_flags (1) [OF assms(1)] ta_renditions_extended by simp_all
  obtain f where f: "tc_GetColor (ta_foreground a) table defaultFg (ta_IsBold a) = Some f"
    using assms(2) by (rule GetColor_total)
  obtain f' where f': "tc_GetColor (ta_foreground other) table defaultFg (ta_IsBold a) = Some f'"
    using assms(2) by (rule GetColor_total)
  obtain b where b: "tc_GetColor (ta_background a) table defaultBg False = Some b"
    using assms(2) by (rule GetColor_total)
  obtain b' where b': "tc_GetColor (ta_background other) table defaultBg False = Some b'"
    using assms(2) by (rule GetColor_total)
  from assms(1) have g: "\<not> ta_IsAnyGridLineEnabled a" by (simp add: HasIdenticalVisualRepresentationForBlankSpace_def Let_def)
  from assms(1) have "inverted \<noteq> ta_IsReverseVideo a \<and> f = f' \<or> inverted = ta_IsReverseVideo a \<and> b = b'"
    using f f' b b' by (auto simp: HasIdenticalVisualRepresentationForBlankSpace_def Let_def)
  then show ?thesis
    using g c f f' b b' blank_flags [OF assms(1)] 
    by (auto simp: ta_CalculateRgbColors_def Let_def)
qed

section \<open>Renditions\<close>

definition sample_console :: "screen_attributes AdaptDispatch" where
  "sample_console =
     \<lparr>ad_console = \<lparr>si_currentAttributes = ta_Default, si_ignoreLegacyEquivalentVTAttributes = False,
        si_legacyDefaults = \<lparr>legacyDefaultForeground = 7, legacyDefaultBackground = 0\<rparr>, si_hyperlinks = no_hyperlinks\<rparr>,
      ad_sgrStack = SgrStack\<rparr>"

definition sample_terminal :: Terminal_attributes where
  "sample_terminal = \<lparr>term_currentAttributes = ta_Default, term_sgrStack = SgrStack, term_hyperlinks = no_hyperlinks\<rparr>"

text \<open>Pushing, \<^verbatim>\<open>CSI 1;38;5;9 m\<close> and popping.\<close>

definition sample_calls :: "dispatch_call list" where
  "sample_calls = [PushGraphicsRendition [], SetGraphicsRendition (map VTParameter [1, 38, 5, 9]), PopGraphicsRendition]"

lemma xterm_defaults: "ta_xterm ta_Default = ta_Default" "ss_xterm SgrStack = SgrStack"
  by (simp_all add: ss_xterm_def saved_xterm_def SgrStack_def ta_xterm_def ta_Default_def tc_xterm_def tc_Default_def
      tc_IsIndex16_def tc_IsIndex256_def)

lemma sample_calls_renditions: "list_all is_rendition sample_calls"
  by (simp add: sample_calls_def is_rendition_def)

text \<open>C10: The console host and the terminal carry out renditions alike: started with the same attributes and empty
  stacks, no sequence of calls that set, push or pop renditions fails on either of them, and after it the terminal's
  attributes are those of the console with the colour indices in the order of xterm.\<close>

theorem console_and_terminal_agree:
  assumes "\<not> si_ignoreLegacyEquivalentVTAttributes (ad_console d)" and "ad_sgrStack d = SgrStack"
    and "term_currentAttributes t = ta_xterm (si_currentAttributes (ad_console d))" and "term_sgrStack t = SgrStack"
    and "list_all is_rendition cs"
  shows "\<exists>d' t'. run_calls (ad_rendition ConhostInternalGetSet) cs d = Some d' \<and> run_calls td_rendition cs t = Some t' \<and>
    term_currentAttributes t' = ta_xterm (si_currentAttributes (ad_console d'))"
proof -
  have "same_renditions d t" using assms by (simp add: same_renditions_def SgrStack_inv xterm_defaults)
  then show ?thesis using rendition_run [OF _ assms(5)] by (fastforce simp: same_renditions_def)
qed

theorem console_and_terminal_agree_witness:
  "\<exists>d t. run_calls (ad_rendition ConhostInternalGetSet) sample_calls sample_console = Some d \<and>
     run_calls td_rendition sample_calls sample_terminal = Some t \<and>
     term_currentAttributes t = ta_xterm (si_currentAttributes (ad_console d))"
  by (rule console_and_terminal_agree)
    (simp_all add: sample_console_def sample_terminal_def xterm_defaults sample_calls_renditions)

text \<open>C11: The stack of renditions keeps the ten latest pushes: whatever was pushed onto an empty stack, pops restore
  the pushes in the reverse order, each one the parts that its push named, and change nothing once ten of them or all
  of them are used up.\<close>

theorem stack_restores_latest_pushes:
  "pops ss_Pop currents (fold (\<lambda>(a, options). ss_Push a options) pushes SgrStack) =
     map2 (\<lambda>current saved. case saved of None \<Rightarrow> current | Some (a, options) \<Rightarrow>
         restored \<lparr>saved_TextAttributes = a, saved_ValidParts = valid_parts options\<rparr> current)
       currents (map Some (take 10 (rev pushes)) @ replicate (length currents) None)"
proof -
  let ?saved = "\<lambda>(a, options). \<lparr>saved_TextAttributes = a, saved_ValidParts = valid_parts options\<rparr>"
  have pushes: "fold (\<lambda>(a, options). ss_Push a options) ps s = fold ss_push_saved (map ?saved ps) s" for ps s
    by (induction ps arbitrary: s) (simp_all add: ss_Push_saved case_prod_unfold)
  show ?thesis
    unfolding pushes sgr.pops_restore [OF sgr.pushes_inv [OF SgrStack_inv(1)]] sgr.pushes_entries [OF SgrStack_inv(1)]
    by (intro nth_equalityI)
      (auto simp: SgrStack_inv c_MaxStoredSgrPushes_def nth_append rev_nth split: option.splits prod.split)
qed


section \<open>Well-formed attributes\<close>

lemma option_wf: "ta_wf a \<Longrightarrow> ta_wf (ad_apply_option opt a)"
  by (cases opt) (simp_all add: ta_wf_def ta_setter_defs ta_color_setter_defs ta_SetDefaultMetaAttrs_def)

lemma helper_wf: "ta_wf a \<Longrightarrow> ta_wf (snd (ad_SetRgbColorsHelper ps a isForeground))"
  by (simp add: ad_SetRgbColorsHelper_def Let_def ta_wf_def ta_SetColor_def ta_color_setter_defs)

lemma sgr_apply_wf: "ta_wf a \<Longrightarrow> ta_wf (sgr_apply ad_apply_option ad_SetRgbColorsHelper ps a)"
proof (induction "ad_apply_option" "ad_SetRgbColorsHelper" ps a rule: sgr_apply.induct)
  case (2 p ps a)
  then show ?case by (cases "graphics_option (vtp_enum p)") (simp_all add: option_wf helper_wf)
qed simp

lemma restored_wf:
  assumes "ta_wf current" "ta_wf (saved_TextAttributes e)"
  shows "ta_wf (restored e current)"
  using assms CombineWithCurrentAttributes_parts(2) [of current "saved_TextAttributes e" "saved_ValidParts e"]
  by (simp add: restored_def ta_wf_def ta_colors_def)

definition attributes_wf :: "screen_attributes AdaptDispatch \<Rightarrow> bool" where
  "attributes_wf d \<longleftrightarrow>
     \<not> si_ignoreLegacyEquivalentVTAttributes (ad_console d) \<and> ta_wf (si_currentAttributes (ad_console d)) \<and>
     ss_inv (ad_sgrStack d) \<and> list_all (\<lambda>e. ta_wf (saved_TextAttributes e)) (ss_entries (ad_sgrStack d))"

lemma attributes_wf_step:
  assumes "attributes_wf d" "ad_rendition ConhostInternalGetSet c d = Some (b, d')"
  shows "attributes_wf d'"
proof -
  have ok: "\<not> si_ignoreLegacyEquivalentVTAttributes (ad_console d)" and inv: "ss_inv (ad_sgrStack d)"
    using assms(1) by (simp_all add: attributes_wf_def)
  have "is_rendition c" using assms(2) by (cases c) (simp_all add: is_rendition_def)
  then show ?thesis
  proof (cases rule: is_rendition_cases)
    case (set ps)
    obtain e where e: "ad_SetGraphicsRendition ConhostInternalGetSet ps d = Some (True, e)"
      "\<not> si_ignoreLegacyEquivalentVTAttributes (ad_console e)" "ad_sgrStack e = ad_sgrStack d"
      "si_currentAttributes (ad_console e) =
         sgr_apply ad_apply_option ad_SetRgbColorsHelper (sgr_options ps) (si_currentAttributes (ad_console d))"
      using conhost.rendition_applied [OF ok, of ps] by (auto simp: conhost_attributes)
    have "d' = e" using assms(2) e(1) by (simp add: set)
    then show ?thesis using assms(1) e(2-4) sgr_apply_wf by (simp add: attributes_wf_def)
  next
    case (push ps)
    then have d': "d' = d\<lparr>ad_sgrStack := ss_push_saved
        \<lparr>saved_TextAttributes = si_currentAttributes (ad_console d), saved_ValidParts = valid_parts ps\<rparr> (ad_sgrStack d)\<rparr>"
      using conhost.rendition_pushed [OF ok, of ps] assms(2) by (simp add: conhost_attributes ss_Push_saved)
    show ?thesis
      using assms(1) sgr.push_inv [OF inv] sgr.push_entries [OF inv]
      by (auto simp: d' attributes_wf_def list_all_iff dest!: in_set_takeD)
  next
    case pop
    obtain e where e: "ad_PopGraphicsRendition ConhostInternalGetSet d = (True, e)"
      "\<not> si_ignoreLegacyEquivalentVTAttributes (ad_console e)"
      "si_currentAttributes (ad_console e) = fst (ss_Pop (si_currentAttributes (ad_console d)) (ad_sgrStack d))"
      "ad_sgrStack e = snd (ss_Pop (si_currentAttributes (ad_console d)) (ad_sgrStack d))"
      using conhost.rendition_popped [OF ok] by (auto simp: conhost_attributes)
    have "d' = e" using assms(2) e(1) by (simp add: pop)
    then show ?thesis
      using assms(1) e(2-4) sgr.pop_inv [OF inv] sgr.pop_entries [OF inv] sgr.pop_value [OF inv] restored_wf
      by (cases "ss_entries (ad_sgrStack d)") (simp_all add: attributes_wf_def)
  qed
qed

text \<open>C12: Attributes stay well formed: if the colours of the console's attributes are well formed - a default or RGB
  colour, an index below 16 or an index of the 256-colour table - and those of all saved attributes are, then no
  sequence of calls that set, push or pop renditions, with parameters of any value, makes them otherwise.\<close>

theorem attributes_stay_well_formed:
  assumes "attributes_wf d" and "run_calls (ad_rendition ConhostInternalGetSet) cs d = Some d'"
  shows "attributes_wf d'"
  using assms
proof (induction cs arbitrary: d)
  case (Cons c cs)
  then show ?case using attributes_wf_step [OF Cons.prems(1)] by (auto split: option.splits)
qed simp

lemma sample_console_wf: "attributes_wf sample_console"
  by (simp add: attributes_wf_def sample_console_def SgrStack_inv ta_wf_def ta_Default_def)

lemma sample_calls_run:
  "\<exists>d. run_calls (ad_rendition ConhostInternalGetSet) sample_calls sample_console = Some d"
proof -
  have "same_renditions sample_console sample_terminal"
    by (simp add: same_renditions_def sample_console_def sample_terminal_def SgrStack_inv xterm_defaults)
  then show ?thesis using rendition_run [OF _ sample_calls_renditions] by blast
qed

theorem attributes_stay_well_formed_witness:
  "\<exists>d. run_calls (ad_rendition ConhostInternalGetSet) sample_calls sample_console = Some d \<and> attributes_wf d"
  using sample_calls_run attributes_stay_well_formed [OF sample_console_wf] by blast

section \<open>Hyperlinks\<close>

text \<open>C13: In every table that the operations of a buffer can produce, the identifier that a link gets is not 0, the
  identifier of no link; it leads to the link's target once that is added; and a link with the same target
  and the same identifier of its client gets the same identifier again.\<close>

theorem hyperlink_identifiers:
  assumes "hl_reachable hash t" and "GetHyperlinkId hash uri hid t = (n, t')"
  shows "n \<noteq> 0 \<and> GetHyperlinkUriFromId n (AddHyperlinkToMap uri n t') = Some uri \<and>
    (hid \<noteq> [] \<longrightarrow> fst (GetHyperlinkId hash uri hid (AddHyperlinkToMap uri n t')) = n)"
proof -
  have "map_of (hl_customIdMap t') (custom_key hash uri hid) = Some n" if "hid \<noteq> []"
    using assms(2) that by (auto simp: GetHyperlinkId_def Let_def map_add_def split: if_splits option.splits)
  then show ?thesis
    using GetHyperlinkId_inv(2) [OF hl_reachable_inv [OF assms(1)] assms(2)]
    by (auto simp: GetHyperlinkUriFromId_def AddHyperlinkToMap_def GetHyperlinkId_def Let_def)
qed

theorem hyperlink_identifiers_witness:
  "let (n, t) = GetHyperlinkId (\<lambda>_. 7) [0x61] [0x62] no_hyperlinks; t = AddHyperlinkToMap [0x61] n t in
   n = 1 \<and> GetHyperlinkUriFromId n t = Some [0x61] \<and> fst (GetHyperlinkId (\<lambda>_. 7) [0x61] [0x62] t) = n"
proof -
  obtain n t where nt: "GetHyperlinkId (\<lambda>_. 7) [0x61] [0x62] no_hyperlinks = (n, t)" by fastforce
  then have "n = 1" by (simp add: GetHyperlinkId_def no_hyperlinks_def Let_def split: if_splits)
  then show ?thesis using hyperlink_identifiers [OF hl_reachable.initial nt] nt by simp
qed

section \<open>From the renderer to the terminal\<close>

text \<open>C1: Attributes survive the way from the console to the terminal. The console's renderer updates its brushes to any
  well-formed attributes; the text it writes, cut into any pieces, goes through the terminal's parser and dispatcher.
  If both were in step before, the terminal's current attributes are then those: the same renditions, the same colours
  (with the indices in the order of xterm) and a link with the same target, or none; and both are in step again, so
  this holds for one frame after the other. Targets and identifiers of links are printable ASCII text.\<close>

theorem attributes_reach_terminal:
  assumes "prints_piecewise env" and "utf8_ascii henv" and "ta_wf a"
    and "ta_IsHyperlink a \<longrightarrow> sendable tables (ta_hyperlinkId a)"
    and "ok_machine quiet s" and "ready s" and "in_step tables v (oe_dispatch (sm_engine s))"
    and "Xterm256_UpdateDrawingBrushes henv tables a v = Some v'"
    and "wide (ve_buffer v') = wide (ve_buffer v) @ concat ws"
  shows "\<exists>s'. process_writes (output_engine_ops (terminal_env hash env)) ws s = Inr s' \<and> ok_machine quiet s' \<and> ready s' \<and>
    in_step tables v' (oe_dispatch (sm_engine s')) \<and> snd (oe_dispatch (sm_engine s')) = snd (oe_dispatch (sm_engine s)) \<and>
    (let t = fst (oe_dispatch (sm_engine s')); b = term_currentAttributes t in
     ta_renditions b = ta_renditions a \<and> ta_foreground b = tc_xterm (ta_foreground a) \<and>
     ta_background b = tc_xterm (ta_background a) \<and> ta_IsHyperlink b = ta_IsHyperlink a \<and>
     (ta_IsHyperlink a \<longrightarrow>
        GetHyperlinkUriFromId (ta_hyperlinkId b) (term_hyperlinks t) = GetHyperlinkUriFromId (ta_hyperlinkId a) tables))"
proof -
  note brushes = brushes_transmit [OF assms(1-4,8)]
  obtain strs gs where strs: "wide (ve_buffer v') = wide (ve_buffer v) @ concat strs"
    "list_all2 (performs (terminal_env hash env)) strs gs"
    and step: "\<And>d. in_step tables v d \<Longrightarrow> in_step tables v' (fold (\<lambda>g d. g d) gs d) \<and> snd (fold (\<lambda>g d. g d) gs d) = snd d"
    using brushes(1) unfolding transmits_def by metis
  obtain s' where s': "process_writes (output_engine_ops (terminal_env hash env)) ws s = Inr s'" "ok_machine quiet s'" "ready s'"
    "oe_dispatch (sm_engine s') = fold (\<lambda>g d. g d) gs (oe_dispatch (sm_engine s))"
    using performs_writes [OF terminal_prints_piecewise [OF assms(1)] strs(2) _ assms(5,6), of ws] strs(1) assms(9) by auto
  have now: "in_step tables v' (oe_dispatch (sm_engine s'))" "snd (oe_dispatch (sm_engine s')) = snd (oe_dispatch (sm_engine s))"
    using step [OF assms(7)] by (simp_all add: s'(4))
  then show ?thesis
    using s'(1-3) in_step_attributes [OF now(1)] brushes(2-5) by (simp add: in_step_def Let_def ta_IsHyperlink_def)
qed

definition attribute_env :: "(dispatch_call list terminal, wstring) oe_env" where
  "attribute_env =
     \<lparr>dispatch = (\<lambda>c mode (t, calls). (True, mode, (t, calls @ log_calls c))),
      WriteTerminalW = (\<lambda>str tty. (True, tty @ str)), u8u16 = (\<lambda>bs. Some (map ucast bs))\<rparr>"

definition attribute_machine :: "(dispatch_call list terminal, wstring) oe_machine" where
  "attribute_machine =
     StateMachine (output_engine_ops attribute_env) (OutputStateMachineEngine (sample_terminal, []))"

definition ascii_henv :: hyperlink_env where
  "ascii_henv = \<lparr>u16u8 = map (\<lambda>c. char_of (unat c)), currentProcessId = 42\<rparr>"

definition sample_tables :: hyperlink_tables where
  "sample_tables =
     \<lparr>hl_hyperlinkMap = [1 \<mapsto> wide ''http://a.b''], hl_customIdMap = [(wide ''me'', 1)], hl_currentHyperlinkId = 2\<rparr>"

definition sample_attribute :: TextAttribute where
  "sample_attribute = ta_SetBold True (ta_SetHyperlinkId 1 (ta_SetForeground (tc_Index 9 False) ta_Default))"

definition sample_renderer :: VtEngine where
  "sample_renderer = XtermEngine\<lparr>ve_lastTextAttributes := ta_Default\<rparr>"

lemma sample_attribute_facts:
  "prints_piecewise attribute_env" "utf8_ascii ascii_henv" "ta_wf sample_attribute" "sendable sample_tables 1"
  "ta_hyperlinkId sample_attribute = 1"
proof -
  show "prints_piecewise attribute_env"
    by (auto simp: attribute_env_def prints_piecewise_def log_calls_def)
  have "of_char (char_of (unat c)) = c" if "unat c < 0x80" for c :: wchar
  proof -
    have "of_char (char_of (unat c)) = (of_nat (of_char (char_of (unat c))) :: wchar)" by (simp only: of_nat_of_char)
    then show ?thesis using that by (simp only: of_char_of) simp
  qed
  then have "wide (map (\<lambda>c. char_of (unat c)) w) = w" if "list_all (\<lambda>c. unat c < 0x80) w" for w :: wstring
    using that by (induction w) (simp_all add: wide_def)
  then show "utf8_ascii ascii_henv" by (simp add: utf8_ascii_def ascii_henv_def)
  show "ta_wf sample_attribute" "ta_hyperlinkId sample_attribute = 1"
    by (simp_all add: sample_attribute_def ta_wf_def ta_setter_defs ta_color_setter_defs ta_SetHyperlinkId_def ta_Default_def)
  show "sendable sample_tables 1"
    by (simp add: sendable_def sample_tables_def GetHyperlinkUriFromId_def GetCustomIdFromId_def plain_text_def wide_def)
qed

lemma attribute_machine_facts:
  "ok_machine quiet attribute_machine" "ready attribute_machine" "oe_dispatch (sm_engine attribute_machine) = (sample_terminal, [])"
  "in_step sample_tables sample_renderer (sample_terminal, [])"
  by (simp_all add: attribute_machine_def StateMachine_fields quiet_StateMachine quiet_def OutputStateMachineEngine_def)
    (simp add: in_step_def Let_def mirrors_def sample_renderer_def sample_terminal_def xterm_defaults no_hyperlinks_inv,
      simp add: ta_Default_def)

lemma sample_update: "\<exists>v. Xterm256_UpdateDrawingBrushes ascii_henv sample_tables sample_attribute sample_renderer = Some v"
  by (simp add: Xterm256_UpdateDrawingBrushes_def UpdateHyperlinkAttr_def Let_def sample_attribute_facts sample_tables_def
      GetHyperlinkUriFromId_def split: option.split)

theorem attributes_reach_terminal_witness:
  "\<exists>v s. Xterm256_UpdateDrawingBrushes ascii_henv sample_tables sample_attribute sample_renderer = Some v \<and>
     process_writes (output_engine_ops (terminal_env (\<lambda>_. 0) attribute_env)) [wide (ve_buffer v)] attribute_machine = Inr s \<and>
     (let t = fst (oe_dispatch (sm_engine s)) in
      ta_IsBold (term_currentAttributes t) \<and> ta_foreground (term_currentAttributes t) = tc_Index 12 False \<and>
      GetHyperlinkUriFromId (ta_hyperlinkId (term_currentAttributes t)) (term_hyperlinks t) = Some (wide ''http://a.b''))"
proof -
  obtain v where v: "Xterm256_UpdateDrawingBrushes ascii_henv sample_tables sample_attribute sample_renderer = Some v"
    using sample_update by blast
  have empty: "wide (ve_buffer v) = wide (ve_buffer sample_renderer) @ concat [wide (ve_buffer v)]"
    by (simp add: sample_renderer_def XtermEngine_def VtEngine_def wide_def)
  have "ta_IsHyperlink sample_attribute \<longrightarrow> sendable sample_tables (ta_hyperlinkId sample_attribute)"
    by (simp add: sample_attribute_facts)
  then obtain s where s: "process_writes (output_engine_ops (terminal_env (\<lambda>_. 0) attribute_env)) [wide (ve_buffer v)] attribute_machine = Inr s"
    "let t = fst (oe_dispatch (sm_engine s)); b = term_currentAttributes t in
     ta_renditions b = ta_renditions sample_attribute \<and> ta_foreground b = tc_xterm (ta_foreground sample_attribute) \<and>
     (ta_IsHyperlink sample_attribute \<longrightarrow>
        GetHyperlinkUriFromId (ta_hyperlinkId b) (term_hyperlinks t) = GetHyperlinkUriFromId (ta_hyperlinkId sample_attribute) sample_tables)"
    using attributes_reach_terminal [OF sample_attribute_facts(1-3) _ attribute_machine_facts(1,2) _ v empty, of "\<lambda>_. 0"]
    by (auto simp: attribute_machine_facts Let_def)
  have "ta_renditions sample_attribute ! 0" "tc_xterm (ta_foreground sample_attribute) = tc_Index 12 False"
    by code_simp+
  then show ?thesis
    using s v by (auto simp: Let_def ta_renditions_nth(1) ta_IsHyperlink_def sample_attribute_facts(5)
        GetHyperlinkUriFromId_def sample_tables_def)
qed

theorem blank_space_looks_identical_witness:
  "\<exists>bg fg fg'. ta_CalculateRgbColors ta_Default (replicate 256 0) 7 9 False False = Some (fg, bg) \<and>
     ta_CalculateRgbColors (ta_SetForeground (tc_Index 9 False) ta_Default) (replicate 256 0) 7 9 False False = Some (fg', bg) \<and>
     \<not> ta_IsAnyGridLineEnabled ta_Default \<and> \<not> ta_IsAnyGridLineEnabled (ta_SetForeground (tc_Index 9 False) ta_Default)"
proof (rule blank_space_looks_identical)
  show "HasIdenticalVisualRepresentationForBlankSpace ta_Default (ta_SetForeground (tc_Index 9 False) ta_Default) False"
    by code_simp
qed simp

end
