(* ===== verification/Spec2Isabelle.thy ===== *)
theory Spec2Isabelle
  imports Rle_Spec Text_Spec Parser_Spec Attr_Spec
begin

text \<open>
  A verification library for the console host and terminal sources under \<^verbatim>\<open>src/\<close>.

  \<^item> \<open>Prelude\<close>: machine types (\<^verbatim>\<open>SHORT\<close>, \<^verbatim>\<open>wchar_t\<close>, \<^verbatim>\<open>size_t\<close>) and shared list and word lemmas.
  \<^item> \<open>Rle\<close>, \<open>Rle_Correct\<close>, \<open>Rle_Replace\<close>, \<open>Rle_Iterator\<close>, \<open>Rle_Spec\<close>: the run-length encoded vector
    \<^verbatim>\<open>til::basic_rle\<close> of \<^verbatim>\<open>inc/til/rle.h\<close>, proved against the plain vector it encodes.
  \<^item> \<open>Range_Store\<close>: the interface through which the text buffer uses that vector.
\<close>

end
